(* ===== verification/Prelude.thy ===== *)
theory Prelude
  imports Main "HOL-Library.Word"
begin

text \<open>
  Shared vocabulary of the development: the machine types of the C++ code
  (\<open>u8\<close>, \<open>u32\<close>, and \<open>i32\<close> read through \<open>sint\<close>), the little-endian byte
  images of scalars that the stream reader and writer exchange, the conversion
  between \<open>char\<close> and bytes used for names, the byte-buffer update of a memory
  stream, and the padding arithmetic of \<open>Pad(n)\<close>.  Every lemma here is generic;
  the component theories use them through the collections \<open>bytes_simps\<close> and
  \<open>buffer_simps\<close>.
\<close>

unbundle bit_operations_syntax

named_theorems bytes_simps "byte images of scalars and strings"
named_theorems buffer_simps "reading and writing a byte buffer"

type_synonym u8 = "8 word"
type_synonym u16 = "16 word"
type_synonym u32 = "32 word"
type_synonym bytes = "u8 list"

section \<open>Little-endian images of scalars\<close>

definition u32_le :: "u32 \<Rightarrow> bytes" where
  "u32_le w = [ucast w, ucast (drop_bit 8 w), ucast (drop_bit 16 w), ucast (drop_bit 24 w)]"

definition le_u32 :: "bytes \<Rightarrow> u32" where
  "le_u32 bs = ucast (bs ! 0) OR push_bit 8 (ucast (bs ! 1))
     OR push_bit 16 (ucast (bs ! 2)) OR push_bit 24 (ucast (bs ! 3))"

definition u16_le :: "u16 \<Rightarrow> bytes" where
  "u16_le w = [ucast w, ucast (drop_bit 8 w)]"

definition le_u16 :: "bytes \<Rightarrow> u16" where
  "le_u16 bs = ucast (bs ! 0) OR push_bit 8 (ucast (bs ! 1))"

lemma le_u32_u32_le [simp, bytes_simps]: "le_u32 (u32_le w) = w"
proof (rule bit_word_eqI)
  fix n :: nat
  assume "n < LENGTH(32)"
  then consider "n < 8" | "8 \<le> n \<and> n < 16" | "16 \<le> n \<and> n < 24" | "24 \<le> n \<and> n < 32"
    by fastforce
  then show "bit (le_u32 (u32_le w)) n = bit w n"
    by cases (auto simp: bit_simps le_u32_def u32_le_def)
qed

lemma le_u16_u16_le [simp, bytes_simps]: "le_u16 (u16_le w) = w"
proof (rule bit_word_eqI)
  fix n :: nat
  assume "n < LENGTH(16)"
  then consider "n < 8" | "8 \<le> n \<and> n < 16"
    by fastforce
  then show "bit (le_u16 (u16_le w)) n = bit w n"
    by cases (auto simp: bit_simps le_u16_def u16_le_def)
qed

lemma length_u32_le [simp, bytes_simps]: "length (u32_le w) = 4"
  by (simp add: u32_le_def)

lemma length_u16_le [simp, bytes_simps]: "length (u16_le w) = 2"
  by (simp add: u16_le_def)

lemma u32_le_0 [simp, bytes_simps]: "u32_le 0 = [0, 0, 0, 0]"
  by (simp add: u32_le_def)

section \<open>Characters and bytes\<close>

text \<open>A \<open>std::string\<close> is a sequence of bytes; HOL's \<open>char\<close> is a byte too.\<close>

definition byte_of_char :: "char \<Rightarrow> u8" where
  "byte_of_char c = word_of_nat (of_char c)"

definition char_of_byte :: "u8 \<Rightarrow> char" where
  "char_of_byte b = char_of (unat b)"

lemma char_of_byte_byte_of_char [simp, bytes_simps]: "char_of_byte (byte_of_char c) = c"
  unfolding char_of_byte_def byte_of_char_def
  by (simp add: unat_of_nat)

lemma byte_of_char_eq_0 [simp, bytes_simps]: "byte_of_char c = 0 \<longleftrightarrow> c = CHR 0x00"
proof
  assume "byte_of_char c = 0"
  then have "c = char_of_byte 0" by (metis char_of_byte_byte_of_char)
  then show "c = CHR 0x00" by (simp add: char_of_byte_def char_of_def)
qed (simp add: byte_of_char_def)

text \<open>The bytes a null-terminated string occupies in the file.\<close>

definition cstr_bytes :: "string \<Rightarrow> bytes" where
  "cstr_bytes s = map byte_of_char s @ [0]"

lemma length_cstr_bytes [simp, bytes_simps]: "length (cstr_bytes s) = Suc (length s)"
  by (simp add: cstr_bytes_def)

section \<open>Byte buffers\<close>

text \<open>
  \<open>overwrite buf p bs\<close> is the buffer of a growable memory stream after writing
  \<open>bs\<close> at cursor \<open>p\<close>: bytes before \<open>p\<close> are kept, a gap past the end is
  zero-filled, the written bytes replace what was there, the tail is kept.
\<close>

definition overwrite :: "bytes \<Rightarrow> nat \<Rightarrow> bytes \<Rightarrow> bytes" where
  "overwrite buf p bs = take p buf @ replicate (p - length buf) 0 @ bs @ drop (p + length bs) buf"

text \<open>
  \<open>bytes_at d p n\<close> is what a reader gets for \<open>n\<close> bytes at \<open>p\<close>: bytes past
  the end of the data read as zero (a value-initialised scalar that the stream
  could not fill).
\<close>

definition bytes_at :: "bytes \<Rightarrow> nat \<Rightarrow> nat \<Rightarrow> bytes" where
  "bytes_at d p n = map (\<lambda>i. if i < length d then d ! i else 0) [p..<p + n]"

lemma length_overwrite [simp, buffer_simps]:
  "length (overwrite buf p bs) = max (length buf) (p + length bs)"
  by (simp add: overwrite_def)

lemma overwrite_end [simp, buffer_simps]: "overwrite buf (length buf) bs = buf @ bs"
  by (simp add: overwrite_def)

lemma length_bytes_at [simp, buffer_simps]: "length (bytes_at d p n) = n"
  by (simp add: bytes_at_def)

lemma nth_overwrite_inside [buffer_simps]:
  assumes "p \<le> i" and "i < p + length bs"
  shows "overwrite buf p bs ! i = bs ! (i - p)"
proof -
  have "length (take p buf @ replicate (p - length buf) 0) = p" by simp
  with assms show ?thesis
    unfolding overwrite_def by (simp only: append_assoc [symmetric] nth_append) simp
qed

lemma nth_overwrite_before [buffer_simps]:
  "i < p \<Longrightarrow> i < length buf \<Longrightarrow> overwrite buf p bs ! i = buf ! i"
  by (simp add: overwrite_def nth_append)

lemma nth_overwrite_after [buffer_simps]:
  assumes "p + length bs \<le> i" and "i < length buf"
  shows "overwrite buf p bs ! i = buf ! i"
proof -
  have len: "length (take p buf @ replicate (p - length buf) 0 @ bs) = p + length bs"
    using assms by simp
  have "overwrite buf p bs = (take p buf @ replicate (p - length buf) 0 @ bs) @ drop (p + length bs) buf"
    by (simp add: overwrite_def)
  also have "\<dots> ! i = drop (p + length bs) buf ! (i - (p + length bs))"
    using assms len by (simp only: nth_append_right)
  finally show ?thesis using assms by simp
qed

lemma bytes_at_append_middle [buffer_simps]:
  "bytes_at (xs @ bs @ ys) (length xs) (length bs) = bs"
  by (rule nth_equalityI) (simp_all add: bytes_at_def nth_append)

lemma bytes_at_eqI:
  assumes "p + n \<le> length d" and "\<And>i. i < n \<Longrightarrow> d ! (p + i) = bs ! i" and "length bs = n"
  shows "bytes_at d p n = bs"
  using assms by (intro nth_equalityI) (auto simp: bytes_at_def)

lemma overwrite_adjacent [buffer_simps]:
  "overwrite (overwrite buf p a) (p + length a) b = overwrite buf p (a @ b)"
  by (simp add: overwrite_def min_def max_def drop_append take_append algebra_simps)
     (auto simp: min_def)

lemma take_overwrite_below [buffer_simps]:
  "b \<le> p \<Longrightarrow> b \<le> length buf \<Longrightarrow> take b (overwrite buf p bs) = take b buf"
  by (simp add: overwrite_def min_def)

lemma bytes_at_zero [simp, buffer_simps]: "bytes_at d p 0 = []"
  by (simp add: bytes_at_def)

text \<open>Reading inside a concatenation: skip the parts before the cursor, stop inside the part at it.\<close>

lemma bytes_at_append_right [buffer_simps]:
  "length xs \<le> p \<Longrightarrow> bytes_at (xs @ ys) p n = bytes_at ys (p - length xs) n"
  by (rule nth_equalityI) (auto simp: bytes_at_def nth_append)

lemma bytes_at_append_take [buffer_simps]:
  "n \<le> length xs \<Longrightarrow> bytes_at (xs @ ys) 0 n = take n xs"
  by (rule nth_equalityI) (auto simp: bytes_at_def nth_append)

lemma bytes_at_Cons [buffer_simps]:
  "0 < p \<Longrightarrow> bytes_at (x # xs) p n = bytes_at xs (p - 1) n"
  using bytes_at_append_right [of "[x]" p xs n] by simp

lemma bytes_at_Cons_0 [buffer_simps]:
  "0 < n \<Longrightarrow> bytes_at (x # xs) 0 n = x # bytes_at xs 0 (n - 1)"
  by (rule nth_equalityI) (auto simp: bytes_at_def nth_Cons' split: nat.splits)

lemma bytes_at_overwrite_same [buffer_simps]: "bytes_at (overwrite buf p bs) p (length bs) = bs"
proof -
  have "overwrite buf p bs = (take p buf @ replicate (p - length buf) 0) @ bs @ drop (p + length bs) buf"
    by (simp add: overwrite_def)
  moreover have "length (take p buf @ replicate (p - length buf) (0::u8)) = p" by simp
  ultimately show ?thesis by (metis bytes_at_append_middle)
qed

lemma bytes_at_overwrite_after [buffer_simps]:
  "p + length bs \<le> q \<Longrightarrow> bytes_at (overwrite buf p bs) q n = bytes_at buf q n"
  by (rule nth_equalityI) (auto simp: bytes_at_def nth_overwrite_after)

text \<open>What a reader sees below \<open>b\<close> depends only on the first \<open>b\<close> bytes.\<close>

lemma bytes_at_take_eq:
  assumes eq: "take b d = take b d'" and le: "q + n \<le> b"
  shows "bytes_at d q n = bytes_at d' q n"
proof (rule nth_equalityI)
  fix i assume "i < length (bytes_at d q n)"
  then have j: "q + i < b" using le by simp
  have len: "(q + i < length d) = (q + i < length d')"
    using arg_cong [OF eq, of length] j by (auto simp: min_def split: if_splits)
  have "d ! (q + i) = d' ! (q + i)"
    using nth_take [OF j, of d] nth_take [OF j, of d'] eq by simp
  with len \<open>i < length (bytes_at d q n)\<close> show "bytes_at d q n ! i = bytes_at d' q n ! i"
    by (simp add: bytes_at_def)
qed simp

section \<open>Lists and counters\<close>

lemma length_takeWhile_less_iff: "length (takeWhile P xs) < length xs \<longleftrightarrow> (\<exists>x \<in> set xs. \<not> P x)"
  by (induction xs) auto

lemma map_upt_add: "map f [a..<a + n] = map (\<lambda>k. f (a + k)) [0..<n]"
  by (induction n) simp_all

text \<open>A counter that starts at \<open>c\<close> and is incremented \<open>k\<close> times reads \<open>c + k\<close> until it wraps.\<close>

lemma unat_counter_add:
  "unat c + k < 2 ^ LENGTH('a) \<Longrightarrow> unat (c + of_nat k :: 'a::len word) = unat c + k"
  by (simp add: unat_word_ariths unat_of_nat)

lemma counter_values_distinct:
  assumes "distinct ks" and "\<forall>k \<in> set ks. k < N" and "unat c + N \<le> 2 ^ LENGTH('a)"
  shows "distinct (map (\<lambda>k. c + of_nat k :: 'a::len word) ks)"
proof -
  have "inj_on (\<lambda>k. c + of_nat k :: 'a word) (set ks)"
  proof (rule inj_onI)
    fix x y assume "x \<in> set ks" "y \<in> set ks" "c + of_nat x = (c + of_nat y :: 'a word)"
    then have eq: "unat (c + of_nat x :: 'a word) = unat (c + of_nat y :: 'a word)" by simp
    have "x < N" "y < N" using \<open>x \<in> set ks\<close> \<open>y \<in> set ks\<close> assms(2) by auto
    then have "unat (c + of_nat x :: 'a word) = unat c + x" "unat (c + of_nat y :: 'a word) = unat c + y"
      using assms(3) by (simp_all add: unat_counter_add)
    with eq show "x = y" by simp
  qed
  with assms(1) show ?thesis by (simp add: distinct_map)
qed

section \<open>Products of bytes\<close>

text \<open>A product of two \<open>u8\<close> values computed in 32 bits (\<open>arraySize * mipLevels\<close>) never wraps.\<close>

lemma unat_ucast_u8 [simp]: "unat (ucast (a :: u8) :: u32) = unat a"
  by (simp add: unsigned_ucast_eq take_bit_nat_eq_self_iff less_le_trans [OF unsigned_less [of a]])

lemma unat_u8_product: "unat (ucast a * ucast l :: u32) = unat (a :: u8) * unat (l :: u8)"
proof -
  have "unat a < 256" using unsigned_less [of a] by simp
  moreover have "unat l < 256" using unsigned_less [of l] by simp
  ultimately have "unat a * unat l \<le> 255 * 255" by (intro mult_le_mono) simp_all
  then have "unat (ucast a :: u32) * unat (ucast l :: u32) < 2 ^ LENGTH(32)" by simp
  then show ?thesis by (simp add: unat_mult_lem [THEN iffD1])
qed

lemma u8_product_div:
  assumes "a = 0 \<Longrightarrow> l = 0"
  shows "(ucast a * ucast l :: u32) div ucast (a :: u8) = ucast (l :: u8)"
proof (cases "a = 0")
  case False
  then have "0 < unat a" by (simp add: unat_gt_0)
  then show ?thesis by (simp add: word_unat_eq_iff unat_div unat_u8_product)
qed (simp add: assms)

lemma u8_product_eq:
  assumes "a = 0 \<Longrightarrow> l = 0"
  shows "(ucast a * ucast l :: u32) = ucast (l :: u8) \<longleftrightarrow> a \<le> (1 :: u8) \<or> l = 0"
proof -
  have "(ucast a * ucast l :: u32) = ucast l \<longleftrightarrow> unat a * unat l = unat l"
    by (simp add: word_unat_eq_iff unat_u8_product)
  also have "\<dots> \<longleftrightarrow> unat a = 1 \<or> unat l = 0" by auto
  also have "\<dots> \<longleftrightarrow> a \<le> 1 \<or> l = 0"
    using assms by (auto simp: word_le_nat_alt le_Suc_eq unat_eq_zero)
  finally show ?thesis .
qed

section \<open>Alignment\<close>

text \<open>The number of zero bytes \<open>Pad(n)\<close> writes at cursor \<open>p\<close>.\<close>

definition pad_len :: "nat \<Rightarrow> nat \<Rightarrow> nat" where
  "pad_len n p = (n - p mod n) mod n"

lemma pad_len_aligned [bytes_simps]: "0 < n \<Longrightarrow> (p + pad_len n p) mod n = 0"
proof -
  assume n: "0 < n"
  have "(p + pad_len n p) mod n = (p mod n + pad_len n p) mod n"
    by (simp add: mod_add_left_eq)
  moreover have "p mod n < n" using n by simp
  ultimately show ?thesis
    by (cases "p mod n = 0") (simp_all add: pad_len_def)
qed

lemma pad_len_less [bytes_simps]: "0 < n \<Longrightarrow> pad_len n p < n"
  by (simp add: pad_len_def)

end
