(* ===== verification/IO_Writer.thy ===== *)
theory IO_Writer
  imports Prelude
begin

text \<open>
  The offset-patching writer (\<open>IO::Writer\<close>, spec section 4.1).  Its source is not in
  the repository, so this theory models the interface the codec calls: scalar writes at
  a cursor into a growable buffer, \<open>Seek\<close>, \<open>GetPosition\<close>, \<open>Pad\<close>, and the two deferred
  mechanisms.  \<open>ScheduleWriteOffset(body, base)\<close> reserves a 4-byte slot and queues the
  body; \<open>FlushScheduledWrites\<close> drains the queue breadth-first, writing each body at the
  cursor \<open>A\<close> and patching its slot with \<open>A - base\<close>; bodies queued by a body go to the
  back of the same queue.  \<open>ScheduleWriteStringOffset\<close> queues a string whose slot
  \<open>FlushScheduledStrings\<close> patches with the absolute address of a pooled copy.

  A C++ body is a lambda over the writer.  The bodies of the codec only issue writer
  calls on data fixed before the flush, so a body is modelled by the list of calls it
  makes (\<open>wcmd list\<close>); a base offset taken inside a body as \<open>writer.GetPosition()\<close> at
  its start is \<open>Base_Body\<close>, a base captured before is \<open>Base_Abs\<close>.

  The lemmas describe what the writer leaves in its buffer: a body writes its image
  \<open>cmds_bytes\<close> at its start cursor; the flush terminates with an empty queue and never
  writes below a bound that its cursor and all queued slots respect (\<open>writes_above\<close>);
  the string pool and \<open>Pad\<close> only move the cursor forward.
\<close>

datatype wbase = Base_Abs nat | Base_Body

datatype wcmd =
    W_U8 u8
  | W_U32 u32
  | W_Bytes bytes
  | W_Sched wbase "wcmd list"
  | W_Sched_Str string

record writer =
  w_buf :: bytes
  w_pos :: nat
  w_sched :: "(nat \<times> nat \<times> wcmd list) list"
  w_strs :: "(nat \<times> string) list"

definition writer_init :: writer where
  "writer_init = \<lparr>w_buf = [], w_pos = 0, w_sched = [], w_strs = []\<rparr>"

definition write_raw :: "bytes \<Rightarrow> writer \<Rightarrow> writer" where
  "write_raw bs w = w\<lparr>w_buf := overwrite (w_buf w) (w_pos w) bs, w_pos := w_pos w + length bs\<rparr>"

definition write_u8 :: "u8 \<Rightarrow> writer \<Rightarrow> writer" where
  "write_u8 b = write_raw [b]"

text \<open>\<open>WriteUInt32\<close>, \<open>WriteInt32\<close> and \<open>WriteFloat32\<close> all store a 32-bit pattern.\<close>

definition write_u32 :: "u32 \<Rightarrow> writer \<Rightarrow> writer" where
  "write_u32 v = write_raw (u32_le v)"

definition seek :: "nat \<Rightarrow> writer \<Rightarrow> writer" where
  "seek p w = w\<lparr>w_pos := p\<rparr>"

definition pad :: "nat \<Rightarrow> writer \<Rightarrow> writer" where
  "pad n w = write_raw (replicate (pad_len n (w_pos w)) 0) w"

definition schedule_write_offset :: "nat \<Rightarrow> wcmd list \<Rightarrow> writer \<Rightarrow> writer" where
  "schedule_write_offset base body w =
     write_u32 0 (w\<lparr>w_sched := w_sched w @ [(w_pos w, base, body)]\<rparr>)"

definition schedule_write_string_offset :: "string \<Rightarrow> writer \<Rightarrow> writer" where
  "schedule_write_string_offset s w = write_u32 0 (w\<lparr>w_strs := w_strs w @ [(w_pos w, s)]\<rparr>)"

definition base_value :: "nat \<Rightarrow> wbase \<Rightarrow> nat" where
  "base_value start b = (case b of Base_Abs n \<Rightarrow> n | Base_Body \<Rightarrow> start)"

text \<open>Running a body that started at \<open>start\<close>.\<close>

fun exec_cmd :: "nat \<Rightarrow> wcmd \<Rightarrow> writer \<Rightarrow> writer" where
  "exec_cmd s (W_U8 b) = write_u8 b"
| "exec_cmd s (W_U32 v) = write_u32 v"
| "exec_cmd s (W_Bytes bs) = write_raw bs"
| "exec_cmd s (W_Sched b body) = schedule_write_offset (base_value s b) body"
| "exec_cmd s (W_Sched_Str str) = schedule_write_string_offset str"

definition exec_cmds :: "nat \<Rightarrow> wcmd list \<Rightarrow> writer \<Rightarrow> writer" where
  "exec_cmds s cs w = fold (exec_cmd s) cs w"

text \<open>
  The bytes a body puts at its start cursor: the scalars and byte runs it writes, and a
  zero placeholder for each slot it schedules (patched later).
\<close>

fun cmd_bytes :: "wcmd \<Rightarrow> bytes" where
  "cmd_bytes (W_U8 b) = [b]"
| "cmd_bytes (W_U32 v) = u32_le v"
| "cmd_bytes (W_Bytes bs) = bs"
| "cmd_bytes (W_Sched b body) = u32_le 0"
| "cmd_bytes (W_Sched_Str s) = u32_le 0"

definition cmds_bytes :: "wcmd list \<Rightarrow> bytes" where
  "cmds_bytes cs = concat (map cmd_bytes cs)"

text \<open>
  \<open>writes_above b w\<close>: every write still to come in \<open>w\<close> (at the cursor or into a queued
  slot) is at or above \<open>b\<close>, and the first \<open>b\<close> bytes exist.
\<close>

definition writes_above :: "nat \<Rightarrow> writer \<Rightarrow> bool" where
  "writes_above b w \<longleftrightarrow>
     b \<le> w_pos w \<and> b \<le> length (w_buf w) \<and> (\<forall>(slot, _, _) \<in> set (w_sched w). b \<le> slot)"

text \<open>The signed 32-bit value patched into a slot: \<open>A - base\<close>, wrapped to 32 bits.\<close>

definition offset_value :: "nat \<Rightarrow> nat \<Rightarrow> u32" where
  "offset_value a base = word_of_int (int a - int base)"

text \<open>\<open>Seek(slot); WriteInt32(v); Seek(back)\<close>: the buffer changes, the cursor does not.\<close>

definition patch_u32 :: "nat \<Rightarrow> u32 \<Rightarrow> writer \<Rightarrow> writer" where
  "patch_u32 slot v w = w\<lparr>w_buf := overwrite (w_buf w) slot (u32_le v)\<rparr>"

subsection \<open>The breadth-first flush\<close>

text \<open>
  The weight of pending work: one per queued body plus the weight of the bodies it will
  queue.  Running a body removes its entry and adds entries whose weight is that of its
  own nested commands, so the weight drops by one at least.
\<close>

fun cmd_weight :: "wcmd \<Rightarrow> nat" where
  "cmd_weight (W_Sched b body) = Suc (sum_list (map cmd_weight body))"
| "cmd_weight _ = 0"

definition sched_weight :: "(nat \<times> nat \<times> wcmd list) list \<Rightarrow> nat" where
  "sched_weight q = sum_list (map (\<lambda>(_, _, body). Suc (sum_list (map cmd_weight body))) q)"

lemma sched_weight_append [simp]: "sched_weight (q @ q') = sched_weight q + sched_weight q'"
  by (simp add: sched_weight_def)

lemma sched_weight_Cons [simp]:
  "sched_weight ((slot, base, body) # q) = Suc (sum_list (map cmd_weight body)) + sched_weight q"
  by (simp add: sched_weight_def)

lemma w_sched_write_raw [simp]: "w_sched (write_raw bs w) = w_sched w"
  by (simp add: write_raw_def)

lemma w_strs_write_raw [simp]: "w_strs (write_raw bs w) = w_strs w"
  by (simp add: write_raw_def)

lemma w_sched_patch_u32 [simp]: "w_sched (patch_u32 slot v w) = w_sched w"
  by (simp add: patch_u32_def)

lemma sched_weight_exec_cmd:
  "sched_weight (w_sched (exec_cmd s c w)) = sched_weight (w_sched w) + cmd_weight c"
  by (cases c) (simp_all add: write_u8_def write_u32_def schedule_write_offset_def
      schedule_write_string_offset_def sched_weight_def)

lemma sched_weight_exec_cmds:
  "sched_weight (w_sched (exec_cmds s cs w)) = sched_weight (w_sched w) + sum_list (map cmd_weight cs)"
  unfolding exec_cmds_def
  by (induction cs arbitrary: w) (simp_all add: sched_weight_exec_cmd)

function flush_scheduled_writes :: "writer \<Rightarrow> writer" where
  "flush_scheduled_writes w =
     (case w_sched w of
        [] \<Rightarrow> w
      | (slot, base, body) # rest \<Rightarrow>
          flush_scheduled_writes
            (exec_cmds (w_pos w) body
              (patch_u32 slot (offset_value (w_pos w) base) (w\<lparr>w_sched := rest\<rparr>))))"
  by pat_completeness auto
termination
  by (relation "measure (\<lambda>w. sched_weight (w_sched w))")
     (auto simp: sched_weight_exec_cmds)

declare flush_scheduled_writes.simps [simp del]

subsection \<open>The string pool\<close>

text \<open>
  Each queued string slot is patched with the absolute address of the string's bytes;
  the first occurrence of a value is written (null-terminated) at the cursor, later
  occurrences reuse its address.
\<close>

fun flush_strings :: "(string \<rightharpoonup> nat) \<Rightarrow> (nat \<times> string) list \<Rightarrow> writer \<Rightarrow> writer" where
  "flush_strings pool [] w = w"
| "flush_strings pool ((slot, s) # rest) w =
     (case pool s of
        Some a \<Rightarrow> flush_strings pool rest (patch_u32 slot (offset_value a 0) w)
      | None \<Rightarrow>
          flush_strings (pool(s \<mapsto> w_pos w)) rest
            (patch_u32 slot (offset_value (w_pos w) 0) (write_raw (cstr_bytes s) w)))"

definition flush_scheduled_strings :: "writer \<Rightarrow> writer" where
  "flush_scheduled_strings w = flush_strings Map.empty (w_strs w) (w\<lparr>w_strs := []\<rparr>)"

section \<open>What the writer leaves in the buffer\<close>

lemma exec_cmd_image:
  "w_buf (exec_cmd s c w) = overwrite (w_buf w) (w_pos w) (cmd_bytes c) \<and>
   w_pos (exec_cmd s c w) = w_pos w + length (cmd_bytes c)"
  by (cases c) (simp_all add: write_u8_def write_u32_def write_raw_def schedule_write_offset_def
      schedule_write_string_offset_def)

lemma exec_cmds_image:
  "w_pos w \<le> length (w_buf w) \<Longrightarrow>
   w_buf (exec_cmds s cs w) = overwrite (w_buf w) (w_pos w) (cmds_bytes cs) \<and>
   w_pos (exec_cmds s cs w) = w_pos w + length (cmds_bytes cs)"
proof (induction cs arbitrary: w)
  case Nil
  then show ?case by (simp add: exec_cmds_def cmds_bytes_def overwrite_def)
next
  case (Cons c cs)
  then show ?case
    using exec_cmd_image [of s c w] Cons.IH [of "exec_cmd s c w"]
    by (simp add: exec_cmds_def cmds_bytes_def overwrite_adjacent [symmetric] add.assoc)
qed

lemma exec_cmds_buf_split:
  assumes "w_pos w \<le> length (w_buf w)"
  shows "w_buf (exec_cmds s cs w) =
           take (w_pos w) (w_buf w) @ cmds_bytes cs @ drop (w_pos w + length (cmds_bytes cs)) (w_buf w)"
  using exec_cmds_image [OF assms] assms by (simp add: overwrite_def)

lemma fold_schedule_exec_cmds:
  "fold (\<lambda>t. schedule_write_offset base (f t)) xs w =
   exec_cmds s (map (\<lambda>t. W_Sched (Base_Abs base) (f t)) xs) w"
  by (induction xs arbitrary: w) (simp_all add: exec_cmds_def base_value_def)

lemma exec_cmds_pos_mono: "w_pos w \<le> w_pos (exec_cmds s cs w)"
  unfolding exec_cmds_def
proof (induction cs arbitrary: w)
  case (Cons c cs)
  have "w_pos w \<le> w_pos (exec_cmd s c w)"
    by (cases c) (simp_all add: write_u8_def write_u32_def write_raw_def schedule_write_offset_def
        schedule_write_string_offset_def)
  with Cons.IH [of "exec_cmd s c w"] show ?case by simp
qed simp

subsection \<open>The flush drains the queue and writes only above its start\<close>

lemma flush_scheduled_writes_sched_pos:
  "w_sched (flush_scheduled_writes w) = [] \<and> w_pos w \<le> w_pos (flush_scheduled_writes w)"
proof (induction w rule: flush_scheduled_writes.induct)
  case (1 w)
  show ?case
  proof (cases "w_sched w")
    case Nil
    then show ?thesis by (simp add: flush_scheduled_writes.simps)
  next
    case (Cons e rest)
    obtain slot base body where e: "e = (slot, base, body)" by (cases e)
    have "w_pos w \<le> w_pos (exec_cmds (w_pos w) body
                         (patch_u32 slot (offset_value (w_pos w) base) (w\<lparr>w_sched := rest\<rparr>)))"
      using exec_cmds_pos_mono [of "patch_u32 slot (offset_value (w_pos w) base) (w\<lparr>w_sched := rest\<rparr>)"]
      by (simp add: patch_u32_def)
    then show ?thesis
      using "1.IH" [OF Cons e [symmetric] refl] Cons e
      by (simp add: flush_scheduled_writes.simps [of w])
  qed
qed

lemma exec_cmd_writes_above:
  "writes_above b w \<Longrightarrow> writes_above b (exec_cmd s c w) \<and> take b (w_buf (exec_cmd s c w)) = take b (w_buf w)"
  by (cases c) (auto simp: writes_above_def write_u8_def write_u32_def write_raw_def schedule_write_offset_def
      schedule_write_string_offset_def take_overwrite_below)

lemma exec_cmds_writes_above:
  "writes_above b w \<Longrightarrow> writes_above b (exec_cmds s cs w) \<and> take b (w_buf (exec_cmds s cs w)) = take b (w_buf w)"
  unfolding exec_cmds_def
proof (induction cs arbitrary: w)
  case (Cons c cs)
  from exec_cmd_writes_above [OF Cons.prems] Cons.IH [of "exec_cmd s c w"] show ?case by simp
qed simp

lemma flush_scheduled_writes_above:
  "writes_above b w \<Longrightarrow> take b (w_buf (flush_scheduled_writes w)) = take b (w_buf w)"
proof (induction w rule: flush_scheduled_writes.induct)
  case (1 w)
  show ?case
  proof (cases "w_sched w")
    case Nil
    then show ?thesis by (simp add: flush_scheduled_writes.simps)
  next
    case (Cons e rest)
    obtain slot base body where e: "e = (slot, base, body)" by (cases e)
    let ?w1 = "patch_u32 slot (offset_value (w_pos w) base) (w\<lparr>w_sched := rest\<rparr>)"
    have w1: "writes_above b ?w1" "take b (w_buf ?w1) = take b (w_buf w)"
      using "1.prems" Cons e by (auto simp: writes_above_def patch_u32_def take_overwrite_below)
    have "w_pos ?w1 = w_pos w" by (simp add: patch_u32_def)
    then show ?thesis
      using "1.IH" [OF Cons e [symmetric] refl] exec_cmds_writes_above [OF w1(1)] w1(2) Cons e
      by (simp add: flush_scheduled_writes.simps [of w])
  qed
qed

subsection \<open>Strings and padding leave the queue and move the cursor forward\<close>

lemma flush_strings_sched_pos:
  "w_sched (flush_strings pool q w) = w_sched w \<and> w_pos w \<le> w_pos (flush_strings pool q w)"
proof (induction pool q w rule: flush_strings.induct)
  case (2 pool slot s rest w)
  then show ?case
    by (cases "pool s") (auto simp: patch_u32_def write_raw_def fun_upd_def)
qed simp

lemma flush_scheduled_strings_sched_pos:
  "w_sched (flush_scheduled_strings w) = w_sched w \<and> w_pos w \<le> w_pos (flush_scheduled_strings w)"
  using flush_strings_sched_pos [of Map.empty "w_strs w" "w\<lparr>w_strs := []\<rparr>"]
  by (simp add: flush_scheduled_strings_def)

lemma pad_pos: "w_pos (pad n w) = w_pos w + pad_len n (w_pos w) \<and> w_pos (pad n w) \<le> length (w_buf (pad n w))"
  by (simp add: pad_def write_raw_def)

lemma pad_sched_pos: "w_sched (pad n w) = w_sched w \<and> w_pos w \<le> w_pos (pad n w)"
  by (simp add: pad_def write_raw_def)

end
