(* ===== verification/IO_Reader.thy ===== *)
theory IO_Reader
  imports Prelude
begin

text \<open>
  The framed reader (\<open>IO::Reader\<close>, spec section 4.2) and the result enum of the codec
  (\<open>StreamResult\<close>, \<open>comfy/file_format_common.h\<close>).  The reader's source is not in the
  repository; this theory models the calls the codec makes: scalar reads at a cursor,
  \<open>GetRemaining\<close>, the stack of base offsets (\<open>PushBaseOffset\<close>/\<open>PopBaseOffset\<close>),
  \<open>ReadAtOffset\<close> and \<open>ReadStringOffset\<close>.  A read past the end of the data yields zero
  bytes for the part it could not fill, as a value-initialised scalar does.  A decoder
  is a function \<open>reader \<Rightarrow> 'a \<times> reader\<close>; the codec's \<open>Read\<close> methods return their
  \<open>StreamResult\<close> in \<open>'a\<close>.
\<close>

datatype stream_result =
    Success
  | BadFormat
  | BadCount
  | BadPointer
  | InsufficientSpace
  | UnknownError

record reader =
  r_data :: bytes
  r_pos :: nat
  r_bases :: "nat list"

definition reader_of :: "bytes \<Rightarrow> reader" where
  "reader_of d = \<lparr>r_data = d, r_pos = 0, r_bases = []\<rparr>"

definition read_raw :: "nat \<Rightarrow> reader \<Rightarrow> bytes \<times> reader" where
  "read_raw n r = (bytes_at (r_data r) (r_pos r) n, r\<lparr>r_pos := r_pos r + n\<rparr>)"

definition read_u8 :: "reader \<Rightarrow> u8 \<times> reader" where
  "read_u8 r = (case read_raw 1 r of (bs, r') \<Rightarrow> (bs ! 0, r'))"

definition read_u16 :: "reader \<Rightarrow> u16 \<times> reader" where
  "read_u16 r = (case read_raw 2 r of (bs, r') \<Rightarrow> (le_u16 bs, r'))"

text \<open>\<open>ReadUInt32\<close>, \<open>ReadInt32\<close> and a float read all take a 32-bit pattern.\<close>

definition read_u32 :: "reader \<Rightarrow> u32 \<times> reader" where
  "read_u32 r = (case read_raw 4 r of (bs, r') \<Rightarrow> (le_u32 bs, r'))"

definition get_remaining :: "reader \<Rightarrow> nat" where
  "get_remaining r = length (r_data r) - r_pos r"

definition push_base_offset :: "reader \<Rightarrow> reader" where
  "push_base_offset r = r\<lparr>r_bases := r_pos r # r_bases r\<rparr>"

definition pop_base_offset :: "reader \<Rightarrow> reader" where
  "pop_base_offset r = r\<lparr>r_bases := tl (r_bases r)\<rparr>"

definition base_offset :: "reader \<Rightarrow> nat" where
  "base_offset r = (case r_bases r of [] \<Rightarrow> 0 | b # _ \<Rightarrow> b)"

text \<open>
  The absolute address of a signed offset relative to the current base.  A negative
  address (which \<open>size_t\<close> arithmetic turns into a huge one) is past the end.
\<close>

definition offset_target :: "reader \<Rightarrow> u32 \<Rightarrow> nat" where
  "offset_target r off =
     (let t = int (base_offset r) + sint off in if t < 0 then length (r_data r) else nat t)"

text \<open>
  \<open>ReadAtOffset(offset, callback, newBase)\<close>: jump to the target, optionally push it as
  the new base, run the callback, pop what was pushed, and return to the cursor.
\<close>

definition read_at_offset :: "u32 \<Rightarrow> (reader \<Rightarrow> 'a \<times> reader) \<Rightarrow> bool \<Rightarrow> reader \<Rightarrow> 'a \<times> reader" where
  "read_at_offset off f new_base r =
     (let r1 = r\<lparr>r_pos := offset_target r off\<rparr>;
          r2 = (if new_base then push_base_offset r1 else r1)
      in case f r2 of
           (x, r3) \<Rightarrow> (x, (if new_base then pop_base_offset r3 else r3)\<lparr>r_pos := r_pos r\<rparr>))"

text \<open>The bytes of a null-terminated string at the cursor, up to the end of the data.\<close>

definition read_cstr :: "reader \<Rightarrow> string \<times> reader" where
  "read_cstr r =
     (let s = takeWhile (\<lambda>b. b \<noteq> 0) (drop (r_pos r) (r_data r))
      in (map char_of_byte s, r\<lparr>r_pos := r_pos r + Suc (length s)\<rparr>))"

text \<open>\<open>ReadStringOffset\<close>: a 32-bit offset, the null offset standing for the empty string.\<close>

definition read_string_offset :: "reader \<Rightarrow> string \<times> reader" where
  "read_string_offset r =
     (case read_u32 r of
        (off, r1) \<Rightarrow> if off = 0 then ([], r1) else read_at_offset off read_cstr False r1)"

text \<open>Reading one value per element of a list, threading the reader.\<close>

fun read_map :: "('a \<Rightarrow> reader \<Rightarrow> 'b \<times> reader) \<Rightarrow> 'a list \<Rightarrow> reader \<Rightarrow> 'b list \<times> reader" where
  "read_map f [] r = ([], r)"
| "read_map f (x # xs) r =
     (case f x r of (y, r1) \<Rightarrow> (case read_map f xs r1 of (ys, r2) \<Rightarrow> (y # ys, r2)))"

section \<open>Cursor and base stack\<close>

lemma reads_snd [simp]:
  "snd (read_raw n r) = r\<lparr>r_pos := r_pos r + n\<rparr>" "snd (read_u8 r) = r\<lparr>r_pos := r_pos r + 1\<rparr>"
  "snd (read_u16 r) = r\<lparr>r_pos := r_pos r + 2\<rparr>" "snd (read_u32 r) = r\<lparr>r_pos := r_pos r + 4\<rparr>"
  by (simp_all add: read_raw_def read_u8_def read_u16_def read_u32_def split: prod.splits)

text \<open>A \<open>ReadAtOffset\<close> with a new base pops the base it pushed if its callback is balanced.\<close>

lemma read_at_offset_bases:
  assumes "\<And>r. r_bases (snd (f r)) = r_bases r"
  shows "r_bases (snd (read_at_offset off f True r)) = r_bases r"
  using assms [of "push_base_offset (r\<lparr>r_pos := offset_target r off\<rparr>)"]
  unfolding read_at_offset_def Let_def case_prod_beta
  by (simp add: push_base_offset_def pop_base_offset_def)

end
