(* ===== verification/Tex_Codec.thy ===== *)
theory Tex_Codec
  imports IO_Writer IO_Reader
begin

text \<open>
  The texture container codec of \<open>comfy/file_format_spr_set.cpp\<close>: \<open>Tex::Read\<close>,
  \<open>TexSet::Read\<close> and \<open>TexSet::Write\<close> with its per-texture and per-mipmap bodies.
  The in-memory types (\<open>MipMap\<close>, \<open>Tex\<close>, the \<open>TxpSig\<close> tags) are declared in a header
  that is not in the repository; they follow spec section 3: a \<open>Tex\<close> stores its
  signature tag, which \<open>GetSignature\<close> returns and which a fresh \<open>Tex\<close> has as
  \<open>Texture2D\<close>.  The tag values are the 32-bit little-endian readings of
  \<open>TXP\<close> followed by the byte 2 (mipmap), 3 (texture set), 4 (2D texture) and 5
  (cube map).  The properties show that a mipmap body decodes to its mipmap, classify the
  results of the mipmap callback, show that \<open>Tex::Read\<close> leaves its base offset pushed on
  every error, relate the header's level count to what the reader expects, and locate the
  texture set's header in the bytes \<open>TexSet::Write\<close> leaves.
\<close>

datatype txp_sig = Txp_MipMap | Txp_TexSet | Txp_Texture2D | Txp_CubeMap

definition txp_sig_value :: "txp_sig \<Rightarrow> u32" where
  "txp_sig_value s = (case s of
      Txp_MipMap \<Rightarrow> 0x02505854
    | Txp_TexSet \<Rightarrow> 0x03505854
    | Txp_Texture2D \<Rightarrow> 0x04505854
    | Txp_CubeMap \<Rightarrow> 0x05505854)"

text \<open>\<open>Size.x\<close>, \<open>Size.y\<close>, \<open>Format\<close> and \<open>DataSize\<close> as 32-bit patterns; \<open>Data\<close> as bytes.\<close>

record mip_map =
  mm_width :: u32
  mm_height :: u32
  mm_format :: u32
  mm_data_size :: u32
  mm_data :: bytes

record tex =
  tex_name :: string
  tex_signature :: txp_sig
  mip_maps_array :: "mip_map list list"

definition tex_default :: tex where
  "tex_default = \<lparr>tex_name = [], tex_signature = Txp_Texture2D, mip_maps_array = []\<rparr>"

section \<open>Encoding\<close>

text \<open>The body scheduled for one mipmap (lines 155-168).\<close>

definition mip_map_body :: "u8 \<Rightarrow> u8 \<Rightarrow> mip_map \<Rightarrow> wcmd list" where
  "mip_map_body array_index mip_index m =
     [W_U32 (txp_sig_value Txp_MipMap), W_U32 (mm_width m), W_U32 (mm_height m),
      W_U32 (mm_format m), W_U8 mip_index, W_U8 array_index, W_U8 0, W_U8 0,
      W_U32 (mm_data_size m), W_Bytes (take (unat (mm_data_size m)) (mm_data m))]"

text \<open>
  The body scheduled for one texture (lines 138-171): the array size and level count
  are truncated to \<open>u8\<close>, the level count is that of the first slice, and one mipmap
  body per (slice, level) is scheduled relative to the texture's own start.
\<close>

definition tex_array_size :: "tex \<Rightarrow> u8" where
  "tex_array_size t = of_nat (length (mip_maps_array t))"

definition tex_mip_levels :: "tex \<Rightarrow> u8" where
  "tex_mip_levels t =
     (if tex_array_size t > 0 then of_nat (length (hd (mip_maps_array t))) else 0)"

definition tex_body :: "tex \<Rightarrow> wcmd list" where
  "tex_body t =
     [W_U32 (txp_sig_value (tex_signature t)),
      W_U32 (ucast (tex_array_size t) * ucast (tex_mip_levels t)),
      W_U8 (tex_mip_levels t), W_U8 (tex_array_size t), W_U8 1, W_U8 1]
     @ concat (map (\<lambda>a. map (\<lambda>m. W_Sched Base_Body
                  (mip_map_body (of_nat a) (of_nat m) (mip_maps_array t ! a ! m)))
                  [0..<unat (tex_mip_levels t)])
               [0..<unat (tex_array_size t)])"

text \<open>\<open>TexSet::Write\<close> (lines 126-178).\<close>

definition tex_set_write :: "tex list \<Rightarrow> writer \<Rightarrow> writer" where
  "tex_set_write texs w0 =
     (let base = w_pos w0;
          n = (of_nat (length texs) :: u32);
          w1 = write_u32 n (write_u32 (txp_sig_value Txp_TexSet) w0);
          w2 = write_u32 (n OR 0x01010100) w1;
          w3 = fold (\<lambda>t. schedule_write_offset base (tex_body t)) texs w2
      in pad 16 (flush_scheduled_writes w3))"

section \<open>Decoding\<close>

text \<open>
  The callback of \<open>Tex::Read\<close> that decodes one mipmap (lines 57-84).  It returns the
  result and the mipmap it appended, if any: a bad signature returns before the
  \<open>emplace_back\<close>, a bad count after it, with the size read and no data.
\<close>

definition read_mip_map :: "reader \<Rightarrow> (stream_result \<times> mip_map option) \<times> reader" where
  "read_mip_map r0 =
     (case read_u32 r0 of (sig, r1) \<Rightarrow>
      if sig \<noteq> txp_sig_value Txp_MipMap then ((BadFormat, None), r1) else
      (case read_u32 r1 of (w, r2) \<Rightarrow>
       case read_u32 r2 of (h, r3) \<Rightarrow>
       case read_u32 r3 of (fmt, r4) \<Rightarrow>
       case read_u8 r4 of (mip_index, r5) \<Rightarrow>
       case read_u8 r5 of (array_index, r6) \<Rightarrow>
       case read_u16 r6 of (padding, r7) \<Rightarrow>
       case read_u32 r7 of (ds, r8) \<Rightarrow>
         let m = \<lparr>mm_width = w, mm_height = h, mm_format = fmt, mm_data_size = ds, mm_data = []\<rparr>
         in if get_remaining r8 < unat ds then ((BadCount, Some m), r8)
            else (case read_raw (unat ds) r8 of
                    (d, r9) \<Rightarrow> ((Success, Some (m\<lparr>mm_data := d\<rparr>)), r9))))"

text \<open>The inner loop over the levels of one slice (lines 50-87).\<close>

fun read_levels :: "nat \<Rightarrow> mip_map list \<Rightarrow> reader \<Rightarrow> (stream_result \<times> mip_map list) \<times> reader" where
  "read_levels 0 acc r = ((Success, acc), r)"
| "read_levels (Suc n) acc r =
     (case read_u32 r of (off, r1) \<Rightarrow>
      if sint off \<le> 0 then ((BadPointer, acc), r1) else
      (case read_at_offset off read_mip_map True r1 of ((res, mm), r2) \<Rightarrow>
       let acc' = acc @ (case mm of None \<Rightarrow> [] | Some m \<Rightarrow> [m])
       in if res \<noteq> Success then ((res, acc'), r2) else read_levels n acc' r2))"

text \<open>The outer loop over the array slices (lines 45-88).\<close>

fun read_slices :: "nat \<Rightarrow> nat \<Rightarrow> mip_map list list \<Rightarrow> reader
    \<Rightarrow> (stream_result \<times> mip_map list list) \<times> reader" where
  "read_slices 0 levels acc r = ((Success, acc), r)"
| "read_slices (Suc n) levels acc r =
     (case read_levels levels [] r of ((res, mips), r1) \<Rightarrow>
      if res \<noteq> Success then ((res, acc @ [mips]), r1)
      else read_slices n levels (acc @ [mips]) r1)"

text \<open>
  The level count per slice: a cube map stores the flat count of all its mipmaps, which
  is divided by the array size (an unsigned division).  The code has no guard for an
  array size of 0, where the division is undefined; the model's quotient is then 0 and
  no slice is read, which is what the code does when the quotient, used only inside the
  slice loop, is not evaluated.
\<close>

definition adjusted_mip_levels :: "u32 \<Rightarrow> u32 \<Rightarrow> u8 \<Rightarrow> u32" where
  "adjusted_mip_levels sig mip_map_count array_size =
     (if sig = txp_sig_value Txp_CubeMap then mip_map_count div ucast array_size else mip_map_count)"

text \<open>
  \<open>Tex::Read\<close> (lines 27-92) on the texture object \<open>t\<close>.  The signature is read into a
  local and never stored in \<open>t\<close>; an early return leaves the pushed base offset on the
  stack.
\<close>

definition tex_read :: "tex \<Rightarrow> reader \<Rightarrow> (stream_result \<times> tex) \<times> reader" where
  "tex_read t r0 =
     (let r1 = push_base_offset r0 in
      case read_u32 r1 of (sig, r2) \<Rightarrow>
      case read_u32 r2 of (mip_map_count, r3) \<Rightarrow>
      case read_u8 r3 of (mip_levels, r4) \<Rightarrow>
      case read_u8 r4 of (array_size, r5) \<Rightarrow>
      case read_u8 r5 of (depth, r6) \<Rightarrow>
      case read_u8 r6 of (dimensions, r7) \<Rightarrow>
      if sig \<noteq> txp_sig_value Txp_Texture2D \<and> sig \<noteq> txp_sig_value Txp_CubeMap
      then ((BadFormat, t), r7)
      else
        (case read_slices (unat array_size)
                (unat (adjusted_mip_levels sig mip_map_count array_size)) [] r7 of
           ((res, slices), r8) \<Rightarrow>
             let t' = t\<lparr>mip_maps_array := mip_maps_array t @ slices\<rparr>
             in if res \<noteq> Success then ((res, t'), r8)
                else ((Success, t'), pop_base_offset r8)))"

text \<open>The loop of \<open>TexSet::Read\<close> over the texture pointers (lines 106-120).\<close>

fun read_textures :: "nat \<Rightarrow> tex list \<Rightarrow> reader \<Rightarrow> (stream_result \<times> tex list) \<times> reader" where
  "read_textures 0 acc r = ((Success, acc), r)"
| "read_textures (Suc n) acc r =
     (case read_u32 r of (off, r1) \<Rightarrow>
      if sint off \<le> 0 then ((BadPointer, acc), r1) else
      (case read_at_offset off (tex_read tex_default) True r1 of ((res, t), r2) \<Rightarrow>
       if res \<noteq> Success then ((res, acc @ [t]), r2)
       else read_textures n (acc @ [t]) r2))"

text \<open>\<open>TexSet::Read\<close> (lines 94-124), appending to the existing \<open>Textures\<close>.\<close>

definition tex_set_read :: "tex list \<Rightarrow> reader \<Rightarrow> (stream_result \<times> tex list) \<times> reader" where
  "tex_set_read texs r0 =
     (let r1 = push_base_offset r0 in
      case read_u32 r1 of (sig, r2) \<Rightarrow>
      case read_u32 r2 of (count, r3) \<Rightarrow>
      case read_u32 r3 of (packed_info, r4) \<Rightarrow>
      if sig \<noteq> txp_sig_value Txp_TexSet then ((BadFormat, texs), r4)
      else
        (case read_textures (unat count) texs r4 of
           ((res, texs'), r5) \<Rightarrow>
             if res \<noteq> Success then ((res, texs'), r5)
             else ((Success, texs'), pop_base_offset r5)))"

section \<open>Properties of the texture codec\<close>

subsection \<open>Mipmaps: the body's bytes decode to the mipmap\<close>

lemma cmds_bytes_mip_map_body:
  "cmds_bytes (mip_map_body a i m) =
     u32_le (txp_sig_value Txp_MipMap) @ u32_le (mm_width m) @ u32_le (mm_height m) @ u32_le (mm_format m)
     @ [i, a, 0, 0] @ u32_le (mm_data_size m) @ take (unat (mm_data_size m)) (mm_data m)"
  by (simp add: cmds_bytes_def mip_map_body_def)

lemma read_mip_map_image:
  assumes "length (mm_data m) = unat (mm_data_size m)"
  shows "read_mip_map \<lparr>r_data = pre @ cmds_bytes (mip_map_body a i m) @ post, r_pos = length pre, r_bases = bs\<rparr> =
    ((Success, Some m),
     \<lparr>r_data = pre @ cmds_bytes (mip_map_body a i m) @ post,
      r_pos = length pre + length (cmds_bytes (mip_map_body a i m)), r_bases = bs\<rparr>)"
  using assms
  by (simp add: cmds_bytes_mip_map_body read_mip_map_def read_u32_def read_u8_def read_u16_def read_raw_def
        get_remaining_def bytes_at_append_right bytes_at_append_take bytes_at_Cons bytes_at_Cons_0
        txp_sig_value_def)

text \<open>
  C13. Mipmap round trip: when a mipmap's data is as long as its \<open>DataSize\<close> says, the bytes
  the mipmap body of \<open>TexSet::Write\<close> writes at the cursor decode, by the mipmap callback of
  \<open>Tex::Read\<close> started there, to the same mipmap with result \<open>Success\<close>, and the reader ends
  where the body ended.
\<close>

theorem mip_map_body_roundtrip:
  assumes "length (mm_data m) = unat (mm_data_size m)" and "w_pos w \<le> length (w_buf w)"
  shows "read_mip_map \<lparr>r_data = w_buf (exec_cmds s (mip_map_body a i m) w), r_pos = w_pos w, r_bases = bs\<rparr> =
    ((Success, Some m),
     \<lparr>r_data = w_buf (exec_cmds s (mip_map_body a i m) w),
      r_pos = w_pos (exec_cmds s (mip_map_body a i m) w), r_bases = bs\<rparr>)"
proof -
  have "length (take (w_pos w) (w_buf w)) = w_pos w" using assms(2) by simp
  with read_mip_map_image [OF assms(1), of "take (w_pos w) (w_buf w)"] show ?thesis
    using exec_cmds_buf_split [OF assms(2)] exec_cmds_image [OF assms(2)] by simp
qed

text \<open>
  C14. Mipmap decoding results: the callback either rejects the signature and appends
  nothing (\<open>BadFormat\<close>), or appends a mipmap whose data is exactly \<open>DataSize\<close> bytes
  (\<open>Success\<close>), or appends a mipmap with a positive \<open>DataSize\<close> and no data (\<open>BadCount\<close>).
\<close>

theorem read_mip_map_result:
  "read_mip_map r = ((res, mm), r') \<Longrightarrow>
   (res = BadFormat \<and> mm = None) \<or>
   (res = Success \<and> (\<exists>m. mm = Some m \<and> length (mm_data m) = unat (mm_data_size m))) \<or>
   (res = BadCount \<and> (\<exists>m. mm = Some m \<and> mm_data m = [] \<and> 0 < unat (mm_data_size m)))"
  unfolding read_mip_map_def Let_def case_prod_beta
  by (auto simp: read_raw_def split: if_splits)

subsection \<open>The base-offset stack\<close>

lemma read_mip_map_bases: "r_bases (snd (read_mip_map r)) = r_bases r"
  unfolding read_mip_map_def Let_def case_prod_beta
  by simp

lemma read_levels_bases: "r_bases (snd (read_levels n acc r)) = r_bases r"
proof (induction n arbitrary: acc r)
  case (Suc n)
  then show ?case
    using read_at_offset_bases [OF read_mip_map_bases]
    by (simp add: Let_def case_prod_beta)
qed simp

lemma read_slices_bases: "r_bases (snd (read_slices n l acc r)) = r_bases r"
proof (induction n arbitrary: acc r)
  case (Suc n)
  then show ?case
    using read_levels_bases by (simp add: case_prod_beta)
qed simp

text \<open>
  C15. \<open>Tex::Read\<close> pops the base offset it pushed only on success: every error return
  (bad signature, bad pointer, bad mipmap) leaves the texture's start on top of the
  reader's base stack.
\<close>

theorem tex_read_error_keeps_base:
  "tex_read t r = ((res, t'), r') \<Longrightarrow>
   r_bases r' = (if res = Success then r_bases r else r_pos r # r_bases r)"
  unfolding tex_read_def Let_def case_prod_beta
  using read_slices_bases
  by (auto simp: push_base_offset_def pop_base_offset_def split: if_splits)

subsection \<open>Level counts in the texture header\<close>

text \<open>
  C16. The level count \<open>Tex::Read\<close> derives from the header that \<open>TexSet::Write\<close> wrote
  (\<open>arraySize * mipLevels\<close>) is the written \<open>mipLevels\<close> exactly for cube maps, single-slice
  textures and textures without levels; for a 2D texture with several slices and at least
  one level it is a different count, so such a texture does not read back as written.
\<close>

theorem tex_header_mip_levels:
  "adjusted_mip_levels (txp_sig_value (tex_signature t))
      (ucast (tex_array_size t) * ucast (tex_mip_levels t)) (tex_array_size t) = ucast (tex_mip_levels t)
   \<longleftrightarrow> tex_signature t = Txp_CubeMap \<or> tex_array_size t \<le> 1 \<or> tex_mip_levels t = 0"
proof -
  have a0: "tex_array_size t = 0 \<Longrightarrow> tex_mip_levels t = 0" by (simp add: tex_mip_levels_def)
  show ?thesis
    by (cases "tex_signature t")
       (simp_all add: adjusted_mip_levels_def txp_sig_value_def u8_product_div [OF a0] u8_product_eq [OF a0])
qed

subsection \<open>The texture set header\<close>

lemma tex_set_write_header:
  assumes "w_sched w = []" and "w_pos w \<le> length (w_buf w)"
  shows "bytes_at (w_buf (tex_set_write texs w)) (w_pos w) 12 =
           u32_le (txp_sig_value Txp_TexSet) @ u32_le (of_nat (length texs))
           @ u32_le (of_nat (length texs) OR 0x01010100)"
proof -
  let ?n = "of_nat (length texs) :: u32"
  let ?hdr = "u32_le (txp_sig_value Txp_TexSet) @ u32_le ?n @ u32_le (?n OR 0x01010100)"
  let ?w3 = "write_u32 (?n OR 0x01010100) (write_u32 ?n (write_u32 (txp_sig_value Txp_TexSet) w))"
  have w3: "w_buf ?w3 = overwrite (w_buf w) (w_pos w) ?hdr" "w_pos ?w3 = w_pos w + 12" "w_sched ?w3 = []"
    using assms by (simp_all add: write_u32_def write_raw_def overwrite_adjacent [symmetric] add.assoc)
  then have above: "writes_above (w_pos w + 12) ?w3"
    by (simp add: writes_above_def)
  let ?w4 = "fold (\<lambda>t. schedule_write_offset (w_pos w) (tex_body t)) texs ?w3"
  have "writes_above (w_pos w + 12) ?w4 \<and> take (w_pos w + 12) (w_buf ?w4) = take (w_pos w + 12) (w_buf ?w3)"
    unfolding fold_schedule_exec_cmds [where s = 0] by (rule exec_cmds_writes_above [OF above])
  then have w4: "writes_above (w_pos w + 12) ?w4" "take (w_pos w + 12) (w_buf ?w4) = take (w_pos w + 12) (w_buf ?w3)"
    by simp_all
  let ?w5 = "flush_scheduled_writes ?w4"
  have w5: "take (w_pos w + 12) (w_buf ?w5) = take (w_pos w + 12) (w_buf ?w3)"
    using flush_scheduled_writes_above [OF w4(1)] w4(2) by simp
  have "w_pos w + 12 \<le> w_pos ?w5"
    using w4(1) flush_scheduled_writes_sched_pos [of ?w4] by (simp add: writes_above_def)
  moreover have "length (take (w_pos w + 12) (w_buf ?w5)) = w_pos w + 12"
    using w5 above by (simp add: writes_above_def)
  then have "w_pos w + 12 \<le> length (w_buf ?w5)" by simp
  ultimately
  have "take (w_pos w + 12) (w_buf (pad 16 ?w5)) = take (w_pos w + 12) (w_buf ?w3)"
    using w5 by (simp add: pad_def write_raw_def take_overwrite_below)
  then have "bytes_at (w_buf (pad 16 ?w5)) (w_pos w) 12 = bytes_at (w_buf ?w3) (w_pos w) 12"
    by (rule bytes_at_take_eq) simp
  also have "\<dots> = ?hdr"
    using w3(1) bytes_at_overwrite_same [of "w_buf w" "w_pos w" ?hdr] by simp
  finally show ?thesis
    by (simp add: tex_set_write_def Let_def)
qed

end
