(* ===== verification/Spr_Codec.thy ===== *)
theory Spr_Codec
  imports Tex_Codec
begin

text \<open>
  The sprite container codec of \<open>comfy/file_format_spr_set.cpp\<close>: \<open>SprSet::Read\<close>
  (lines 180-256) and \<open>SprSet::Write\<close> (lines 258-324).  A sprite's two rectangles are
  \<open>vec4\<close>s of floats; the codec only moves their 32-bit patterns, so a component is a
  \<open>u32\<close>.  \<open>TextureIndex\<close> and \<open>Rotate\<close> are \<open>i32\<close> fields kept as 32-bit patterns
  (\<open>sint\<close> reads them).
\<close>

record vec4 =
  vx :: u32
  vy :: u32
  vz :: u32
  vw :: u32

record sprite =
  spr_name :: string
  texture_index :: u32
  rotate :: u32
  texel_region :: vec4
  pixel_region :: vec4
  extra_flags :: u32
  screen_mode :: u32

record spr_set =
  spr_flags :: u32
  tex_set :: "tex list"
  sprites :: "sprite list"

definition vec4_zero :: vec4 where
  "vec4_zero = \<lparr>vx = 0, vy = 0, vz = 0, vw = 0\<rparr>"

definition sprite_default :: sprite where
  "sprite_default = \<lparr>spr_name = [], texture_index = 0, rotate = 0, texel_region = vec4_zero,
     pixel_region = vec4_zero, extra_flags = 0, screen_mode = 0\<rparr>"

definition spr_set_default :: spr_set where
  "spr_set_default = \<lparr>spr_flags = 0, tex_set = [], sprites = []\<rparr>"

section \<open>Encoding\<close>

definition vec4_cmds :: "vec4 \<Rightarrow> wcmd list" where
  "vec4_cmds v = [W_U32 (vx v), W_U32 (vy v), W_U32 (vz v), W_U32 (vw v)]"

text \<open>The four bodies scheduled by \<open>SprSet::Write\<close> (lines 267-310).\<close>

definition sprite_record_cmds :: "sprite \<Rightarrow> wcmd list" where
  "sprite_record_cmds s =
     [W_U32 (texture_index s), W_U32 (rotate s)] @ vec4_cmds (texel_region s) @ vec4_cmds (pixel_region s)"

definition sprites_body :: "sprite list \<Rightarrow> wcmd list" where
  "sprites_body ss = concat (map sprite_record_cmds ss)"

definition tex_names_body :: "tex list \<Rightarrow> wcmd list" where
  "tex_names_body ts = map (\<lambda>t. if tex_name t \<noteq> [] then W_Sched_Str (tex_name t) else W_U32 0) ts"

definition sprite_names_body :: "sprite list \<Rightarrow> wcmd list" where
  "sprite_names_body ss = map (\<lambda>s. W_Sched_Str (spr_name s)) ss"

definition sprite_extra_body :: "sprite list \<Rightarrow> wcmd list" where
  "sprite_extra_body ss = concat (map (\<lambda>s. [W_U32 (extra_flags s), W_U32 (screen_mode s)]) ss)"

text \<open>
  \<open>SprSet::Write\<close>: the header with a zero placeholder for the texture-set pointer, the
  four bodies (absolute offsets), flush, pad, pooled strings, pad, then the texture set
  at the end of the file and its absolute position patched into the placeholder.
\<close>

definition spr_set_write :: "spr_set \<Rightarrow> writer \<Rightarrow> writer" where
  "spr_set_write s w0 =
     (let w1 = write_u32 (spr_flags s) w0;
          tex_set_ptr_address = w_pos w1;
          w2 = write_u32 0 w1;
          w3 = write_u32 (of_nat (length (tex_set s))) w2;
          w4 = write_u32 (of_nat (length (sprites s))) w3;
          w5 = schedule_write_offset 0 (sprites_body (sprites s)) w4;
          w6 = schedule_write_offset 0 (tex_names_body (tex_set s)) w5;
          w7 = schedule_write_offset 0 (sprite_names_body (sprites s)) w6;
          w8 = schedule_write_offset 0 (sprite_extra_body (sprites s)) w7;
          w9 = pad 16 (flush_scheduled_strings (pad 16 (flush_scheduled_writes w8)));
          tex_set_ptr = w_pos w9;
          w10 = tex_set_write (tex_set s) w9
      in write_u32 (of_nat tex_set_ptr) (seek tex_set_ptr_address w10))"

definition spr_set_encode :: "spr_set \<Rightarrow> bytes" where
  "spr_set_encode s = w_buf (spr_set_write s writer_init)"

section \<open>Decoding\<close>

definition read_vec4 :: "reader \<Rightarrow> vec4 \<times> reader" where
  "read_vec4 r0 =
     (case read_u32 r0 of (x, r1) \<Rightarrow> case read_u32 r1 of (y, r2) \<Rightarrow>
      case read_u32 r2 of (z, r3) \<Rightarrow> case read_u32 r3 of (w, r4) \<Rightarrow>
        (\<lparr>vx = x, vy = y, vz = z, vw = w\<rparr>, r4))"

text \<open>The loop over the sprite records (lines 223-231), appending to \<open>Sprites\<close>.\<close>

fun read_sprites :: "nat \<Rightarrow> sprite list \<Rightarrow> reader \<Rightarrow> sprite list \<times> reader" where
  "read_sprites 0 acc r = (acc, r)"
| "read_sprites (Suc n) acc r =
     (case read_u32 r of (ti, r1) \<Rightarrow> case read_u32 r1 of (rot, r2) \<Rightarrow>
      case read_vec4 r2 of (texel, r3) \<Rightarrow> case read_vec4 r3 of (pixel, r4) \<Rightarrow>
        read_sprites n (acc @ [sprite_default\<lparr>texture_index := ti, rotate := rot,
                                  texel_region := texel, pixel_region := pixel\<rparr>]) r4)"

definition read_tex_name :: "tex \<Rightarrow> reader \<Rightarrow> tex \<times> reader" where
  "read_tex_name t r = (case read_string_offset r of (n, r1) \<Rightarrow> (t\<lparr>tex_name := n\<rparr>, r1))"

definition read_sprite_name :: "sprite \<Rightarrow> reader \<Rightarrow> sprite \<times> reader" where
  "read_sprite_name s r = (case read_string_offset r of (n, r1) \<Rightarrow> (s\<lparr>spr_name := n\<rparr>, r1))"

definition read_sprite_extra :: "sprite \<Rightarrow> reader \<Rightarrow> sprite \<times> reader" where
  "read_sprite_extra s r =
     (case read_u32 r of (fl, r1) \<Rightarrow> case read_u32 r1 of (sm, r2) \<Rightarrow>
        (s\<lparr>extra_flags := fl, screen_mode := sm\<rparr>, r2))"

text \<open>
  The texture part of \<open>SprSet::Read\<close> (lines 191-213).  The result of
  \<open>TexSet.Read\<close> is dropped: \<open>streamResult\<close> is never assigned, so the check after the
  call always passes.
\<close>

definition spr_read_textures :: "u32 \<Rightarrow> u32 \<Rightarrow> u32 \<Rightarrow> spr_set \<Rightarrow> reader
    \<Rightarrow> (stream_result \<times> spr_set) \<times> reader" where
  "spr_read_textures texture_count tex_set_offset texture_names_offset s r =
     (if texture_count = 0 then ((Success, s), r)
      else if sint tex_set_offset \<le> 0 then ((BadPointer, s), r)
      else
        (case read_at_offset tex_set_offset (tex_set_read (tex_set s)) False r of
           ((ignored, texs), r1) \<Rightarrow>
             let s1 = s\<lparr>tex_set := texs\<rparr> in
             if 0 < sint texture_names_offset \<and> length texs = unat texture_count
             then (case read_at_offset texture_names_offset (read_map read_tex_name texs) False r1 of
                     (texs', r2) \<Rightarrow> ((Success, s1\<lparr>tex_set := texs'\<rparr>), r2))
             else ((Success, s1), r1)))"

text \<open>The sprite part of \<open>SprSet::Read\<close> (lines 215-253).\<close>

definition spr_read_sprites :: "u32 \<Rightarrow> u32 \<Rightarrow> u32 \<Rightarrow> u32 \<Rightarrow> spr_set \<Rightarrow> reader
    \<Rightarrow> (stream_result \<times> spr_set) \<times> reader" where
  "spr_read_sprites sprite_count sprites_offset sprite_names_offset extra_offset s r =
     (if sprite_count = 0 then ((Success, s), r)
      else if sint sprites_offset \<le> 0 \<or> sint extra_offset \<le> 0 then ((BadPointer, s), r)
      else
        (case read_at_offset sprites_offset (read_sprites (unat sprite_count) (sprites s)) False r of
           (ss, r1) \<Rightarrow>
             let (ss', r2) =
               (if 0 < sint sprite_names_offset \<and> length ss = unat sprite_count
                then read_at_offset sprite_names_offset (read_map read_sprite_name ss) False r1
                else (ss, r1))
             in (case read_at_offset extra_offset (read_map read_sprite_extra ss') False r2 of
                   (ss'', r3) \<Rightarrow> ((Success, s\<lparr>sprites := ss''\<rparr>), r3))))"

text \<open>\<open>SprSet::Read\<close> on the object \<open>s\<close> (lines 180-256).\<close>

definition spr_set_read :: "spr_set \<Rightarrow> reader \<Rightarrow> (stream_result \<times> spr_set) \<times> reader" where
  "spr_set_read s r0 =
     (case read_u32 r0 of (flags, r1) \<Rightarrow>
      case read_u32 r1 of (tex_set_offset, r2) \<Rightarrow>
      case read_u32 r2 of (texture_count, r3) \<Rightarrow>
      case read_u32 r3 of (sprite_count, r4) \<Rightarrow>
      case read_u32 r4 of (sprites_offset, r5) \<Rightarrow>
      case read_u32 r5 of (texture_names_offset, r6) \<Rightarrow>
      case read_u32 r6 of (sprite_names_offset, r7) \<Rightarrow>
      case read_u32 r7 of (extra_offset, r8) \<Rightarrow>
        let s1 = s\<lparr>spr_flags := flags\<rparr> in
        (case spr_read_textures texture_count tex_set_offset texture_names_offset s1 r8 of
           ((res, s2), r9) \<Rightarrow>
             if res \<noteq> Success then ((res, s2), r9)
             else spr_read_sprites sprite_count sprites_offset sprite_names_offset extra_offset s2 r9))"

definition spr_set_decode :: "bytes \<Rightarrow> stream_result \<times> spr_set" where
  "spr_set_decode d = fst (spr_set_read spr_set_default (reader_of d))"

text \<open>
  \<open>LoadFile<SprSet>\<close> (\<open>comfy/file_format_common.h\<close> lines 32-42): read a fresh set from
  the file's bytes and return it whatever \<open>Read\<close> returned.
\<close>

definition load_spr_set :: "bytes \<Rightarrow> spr_set" where
  "load_spr_set d = snd (spr_set_decode d)"

section \<open>The texture-set pointer of the header\<close>

text \<open>
  C12. \<open>SprSet::Write\<close> patches the header's texture-set pointer (bytes 4-7) with a
  position, wrapped to 32 bits, that is 16-aligned, lies past the 32-byte header and
  holds the texture set's own header: the \<open>TXP\<close>-3 signature, the texture count and the
  packed count.
\<close>

theorem spr_set_write_tex_set_pointer:
  "\<exists>ptr. le_u32 (bytes_at (spr_set_encode s) 4 4) = of_nat ptr \<and> ptr mod 16 = 0 \<and> 32 \<le> ptr \<and>
     bytes_at (spr_set_encode s) ptr 12 =
       u32_le (txp_sig_value Txp_TexSet) @ u32_le (of_nat (length (tex_set s)))
       @ u32_le (of_nat (length (tex_set s)) OR 0x01010100)"
proof -
  define w8 where "w8 = schedule_write_offset 0 (sprite_extra_body (sprites s))
    (schedule_write_offset 0 (sprite_names_body (sprites s))
    (schedule_write_offset 0 (tex_names_body (tex_set s))
    (schedule_write_offset 0 (sprites_body (sprites s))
    (write_u32 (of_nat (length (sprites s))) (write_u32 (of_nat (length (tex_set s)))
    (write_u32 0 (write_u32 (spr_flags s) writer_init)))))))"
  define w9 where "w9 = pad 16 (flush_scheduled_strings (pad 16 (flush_scheduled_writes w8)))"
  have p1: "w_pos (write_u32 (spr_flags s) writer_init) = 4"
    by (simp add: write_u32_def write_raw_def writer_init_def)
  have enc: "spr_set_encode s = w_buf (write_u32 (of_nat (w_pos w9)) (seek 4 (tex_set_write (tex_set s) w9)))"
    unfolding spr_set_encode_def spr_set_write_def Let_def p1 w9_def w8_def by (rule refl)
  have p8: "w_pos w8 = 32"
    unfolding w8_def by (simp add: schedule_write_offset_def write_u32_def write_raw_def writer_init_def)
  have sched: "w_sched w9 = []"
    using flush_scheduled_writes_sched_pos [of w8, THEN conjunct1]
      pad_sched_pos [of 16 "flush_scheduled_writes w8", THEN conjunct1]
      flush_scheduled_strings_sched_pos [of "pad 16 (flush_scheduled_writes w8)", THEN conjunct1]
      pad_sched_pos [of 16 "flush_scheduled_strings (pad 16 (flush_scheduled_writes w8))", THEN conjunct1]
    unfolding w9_def by simp
  have ge: "32 \<le> w_pos w9"
    using flush_scheduled_writes_sched_pos [of w8, THEN conjunct2] p8
      pad_sched_pos [of 16 "flush_scheduled_writes w8", THEN conjunct2]
      flush_scheduled_strings_sched_pos [of "pad 16 (flush_scheduled_writes w8)", THEN conjunct2]
      pad_sched_pos [of 16 "flush_scheduled_strings (pad 16 (flush_scheduled_writes w8))", THEN conjunct2]
    unfolding w9_def by linarith
  have aligned: "w_pos w9 mod 16 = 0"
    using pad_pos [of 16, THEN conjunct1] pad_len_aligned [of 16] unfolding w9_def by simp
  have inbuf: "w_pos w9 \<le> length (w_buf w9)"
    unfolding w9_def by (rule pad_pos [THEN conjunct2])
  let ?B = "w_buf (tex_set_write (tex_set s) w9)"
  have "spr_set_encode s = overwrite ?B 4 (u32_le (of_nat (w_pos w9)))"
    by (simp add: enc write_u32_def write_raw_def seek_def)
  then have "bytes_at (spr_set_encode s) 4 4 = u32_le (of_nat (w_pos w9))"
    and "bytes_at (spr_set_encode s) (w_pos w9) 12 = bytes_at ?B (w_pos w9) 12"
    using bytes_at_overwrite_same [of ?B 4 "u32_le (of_nat (w_pos w9))"] bytes_at_overwrite_after [of 4 _ "w_pos w9"] ge by simp_all
  with tex_set_write_header [OF sched inbuf, of "tex_set s"] aligned ge show ?thesis
    by (intro exI [of _ "w_pos w9"]) simp
qed

section \<open>The result of reading a sprite set\<close>

lemma spr_read_textures_result:
  "fst (fst (spr_read_textures tc tso tno s r)) \<in> {Success, BadPointer}"
  by (simp add: spr_read_textures_def Let_def split: prod.split)

lemma spr_read_sprites_result:
  "fst (fst (spr_read_sprites sc so sno eo s r)) \<in> {Success, BadPointer}"
  by (simp add: spr_read_sprites_def Let_def split: prod.split)

text \<open>
  C37. Error reporting of \<open>SprSet::Read\<close>: whatever the bytes, the result is \<open>Success\<close>
  or \<open>BadPointer\<close> (a non-zero count with a non-positive offset).  The \<open>BadFormat\<close>,
  \<open>BadCount\<close> and other results of \<open>TexSet::Read\<close> on a corrupt texture set never reach
  the caller, because the texture part drops them (line 197).
\<close>

theorem spr_set_read_result:
  "fst (fst (spr_set_read s r)) \<in> {Success, BadPointer}"
  using spr_read_textures_result spr_read_sprites_result
  by (simp add: spr_set_read_def split: prod.split) (metis fst_conv)

end
