(* ===== verification/Core_String.thy ===== *)
theory Core_String
  imports Prelude "HOL-Library.Sublist"
begin

text \<open>
  The ASCII helpers of \<open>comfy/core_string.h\<close> (namespace \<open>ASCII\<close>, lines 84-177) that
  the compiler's name handling uses: character classes and case mapping, case-insensitive
  comparison, prefix and suffix tests and trimming, and the separated-list iterator.  A
  \<open>std::string_view\<close> is a \<open>string\<close>; a C++ \<open>char\<close> is a byte, compared as a signed
  value, so no byte above 127 is in a letter range.  The iterator's callback is modelled by
  the list of values it is called with, in order.  The properties relate case-insensitive
  matching to lower-casing, give \<open>Trim\<close> in closed form, and show that the iterator
  recovers the values of a separator-terminated list, and that the line iterator recovers
  terminated lines except that the last line keeps its terminator.
\<close>

text \<open>
  \<open>FixedBufferStringView\<close> and \<open>CopyStringViewIntoFixedBuffer\<close> (lines 36-56) on a
  buffer of \<open>n\<close> characters: the view stops at the first null character or after \<open>n\<close>
  characters; the copy writes at most \<open>n - 1\<close> characters and a null character.  With
  \<open>n = 0\<close> the length \<open>Min(size + 1, 0) - 1\<close> wraps to \<open>SIZE_MAX\<close> and the copy is
  undefined (\<open>None\<close>).
\<close>

definition fixed_buffer_string_view :: "string \<Rightarrow> nat \<Rightarrow> string" where
  "fixed_buffer_string_view buf n = takeWhile (\<lambda>c. c \<noteq> CHR 0x00) (take n buf)"

text \<open>\<open>FixedBufferWStringView\<close> (lines 39-43), the same on a \<open>wchar_t\<close> buffer with \<open>wcsnlen\<close>.\<close>

definition fixed_buffer_wstring_view :: "u16 list \<Rightarrow> nat \<Rightarrow> u16 list" where
  "fixed_buffer_wstring_view buf n = takeWhile (\<lambda>c. c \<noteq> 0) (take n buf)"

definition copy_string_view_into_fixed_buffer :: "string \<Rightarrow> nat \<Rightarrow> string \<Rightarrow> string option" where
  "copy_string_view_into_fixed_buffer buf n v =
     (if n = 0 then None
      else (let len = min (length v + 1) n - 1 in Some ((take len v @ drop len buf)[len := CHR 0x00])))"

definition is_whitespace :: "char \<Rightarrow> bool" where
  "is_whitespace c \<longleftrightarrow> c = CHR '' '' \<or> c = CHR 0x09 \<or> c = CHR 0x0D \<or> c = CHR 0x0A"

definition is_all_whitespace :: "string \<Rightarrow> bool" where
  "is_all_whitespace v = list_all is_whitespace v"

definition is_lower_case :: "char \<Rightarrow> bool" where
  "is_lower_case c \<longleftrightarrow> of_char (CHR ''a'') \<le> (of_char c :: nat) \<and> of_char c \<le> (of_char (CHR ''z'') :: nat)"

definition is_upper_case :: "char \<Rightarrow> bool" where
  "is_upper_case c \<longleftrightarrow> of_char (CHR ''A'') \<le> (of_char c :: nat) \<and> of_char c \<le> (of_char (CHR ''Z'') :: nat)"

text \<open>\<open>CaseDifference = 'A' - 'a' = -32\<close>.\<close>

definition to_lower_case :: "char \<Rightarrow> char" where
  "to_lower_case c = (if is_upper_case c then char_of (of_char c + (32::nat)) else c)"

definition to_upper_case :: "char \<Rightarrow> char" where
  "to_upper_case c = (if is_lower_case c then char_of (of_char c - (32::nat)) else c)"

definition matches_insensitive :: "string \<Rightarrow> string \<Rightarrow> bool" where
  "matches_insensitive a b =
     (if length a \<noteq> length b then False
      else list_all2 (\<lambda>x y. to_lower_case x = to_lower_case y) a b)"

definition starts_with_char :: "string \<Rightarrow> char \<Rightarrow> bool" where
  "starts_with_char v c \<longleftrightarrow> v \<noteq> [] \<and> hd v = c"

definition starts_with :: "string \<Rightarrow> string \<Rightarrow> bool" where
  "starts_with v pre \<longleftrightarrow> length pre \<le> length v \<and> take (length pre) v = pre"

definition starts_with_insensitive :: "string \<Rightarrow> string \<Rightarrow> bool" where
  "starts_with_insensitive v pre \<longleftrightarrow>
     length pre \<le> length v \<and> matches_insensitive (take (length pre) v) pre"

definition ends_with_char :: "string \<Rightarrow> char \<Rightarrow> bool" where
  "ends_with_char v c \<longleftrightarrow> v \<noteq> [] \<and> last v = c"

definition ends_with :: "string \<Rightarrow> string \<Rightarrow> bool" where
  "ends_with v suf \<longleftrightarrow> length suf \<le> length v \<and> drop (length v - length suf) v = suf"

definition ends_with_insensitive :: "string \<Rightarrow> string \<Rightarrow> bool" where
  "ends_with_insensitive v suf \<longleftrightarrow>
     length suf \<le> length v \<and> matches_insensitive (drop (length v - length suf) v) suf"

definition contains :: "string \<Rightarrow> string \<Rightarrow> bool" where
  "contains a b \<longleftrightarrow> sublist b a"

text \<open>\<open>find_first_not_of\<close> and \<open>find_last_not_of\<close> over \<open>WhitespaceCharacters\<close>.\<close>

fun first_non_ws :: "string \<Rightarrow> nat option" where
  "first_non_ws [] = None"
| "first_non_ws (c # cs) = (if is_whitespace c then map_option Suc (first_non_ws cs) else Some 0)"

definition last_non_ws :: "string \<Rightarrow> nat option" where
  "last_non_ws v = map_option (\<lambda>i. length v - Suc i) (first_non_ws (rev v))"

definition trim_left :: "string \<Rightarrow> string" where
  "trim_left v = (case first_non_ws v of None \<Rightarrow> v | Some i \<Rightarrow> drop i v)"

definition trim_right :: "string \<Rightarrow> string" where
  "trim_right v = (case last_non_ws v of None \<Rightarrow> v | Some i \<Rightarrow> take (Suc i) v)"

definition trim :: "string \<Rightarrow> string" where
  "trim v = trim_right (trim_left v)"

definition trim_prefix :: "string \<Rightarrow> string \<Rightarrow> string" where
  "trim_prefix v pre = (if starts_with v pre then drop (length pre) v else v)"

definition trim_prefix_insensitive :: "string \<Rightarrow> string \<Rightarrow> string" where
  "trim_prefix_insensitive v pre =
     (if starts_with_insensitive v pre then drop (length pre) v else v)"

definition trim_suffix :: "string \<Rightarrow> string \<Rightarrow> string" where
  "trim_suffix v suf = (if ends_with v suf then take (length v - length suf) v else v)"

definition trim_suffix_insensitive :: "string \<Rightarrow> string \<Rightarrow> string" where
  "trim_suffix_insensitive v suf =
     (if ends_with_insensitive v suf then take (length v - length suf) v else v)"

definition to_lower_copy :: "string \<Rightarrow> string" where
  "to_lower_copy v = map to_lower_case v"

definition to_upper_copy :: "string \<Rightarrow> string" where
  "to_upper_copy v = map to_upper_case v"

definition to_snake_case_lower_copy :: "string \<Rightarrow> string" where
  "to_snake_case_lower_copy v = map (\<lambda>c. if c = CHR '' '' then CHR ''_'' else c) (to_lower_copy v)"

definition to_snake_case_upper_copy :: "string \<Rightarrow> string" where
  "to_snake_case_upper_copy v = map (\<lambda>c. if c = CHR '' '' then CHR ''_'' else c) (to_upper_copy v)"

text \<open>
  \<open>ForEachInCharSeparatedList\<close> (lines 162-171): from index \<open>i\<close>, the value is the
  substring up to the next separator (to the end if there is none); the index then skips
  the value and the separator.
\<close>

function separated_values :: "string \<Rightarrow> char \<Rightarrow> nat \<Rightarrow> string list" where
  "separated_values l sep i =
     (if i < length l
      then (let v = takeWhile (\<lambda>c. c \<noteq> sep) (drop i l)
            in v # separated_values l sep (i + length v + 1))
      else [])"
  by pat_completeness auto
termination
  by (relation "measure (\<lambda>(l, sep, i). length l - i)") auto

declare separated_values.simps [simp del]

definition for_each_in_char_separated_list :: "string \<Rightarrow> char \<Rightarrow> string list" where
  "for_each_in_char_separated_list l sep = separated_values l sep 0"

text \<open>
  The same loop as written (lines 165-170), with \<open>std::string_view::find_first_of\<close>
  (\<open>npos\<close> when there is no separator from the index on) and \<open>substr\<close> (a count past the
  end takes the rest).  Nothing bounds the index here, so the loop is a partial function and
  that it ends is a theorem (\<open>separated_list_loop_terminates\<close>).
\<close>

definition npos :: nat where
  "npos = 18446744073709551615"

definition find_first_of :: "string \<Rightarrow> char \<Rightarrow> nat \<Rightarrow> nat" where
  "find_first_of l c i = (case find (\<lambda>j. l ! j = c) [i..<length l] of Some j \<Rightarrow> j | None \<Rightarrow> npos)"

definition substr :: "string \<Rightarrow> nat \<Rightarrow> nat \<Rightarrow> string" where
  "substr l pos count = take count (drop pos l)"

partial_function (option) separated_list_loop :: "string \<Rightarrow> char \<Rightarrow> nat \<Rightarrow> string list option" where
  "separated_list_loop l sep i =
     (if i < length l then
        (let v = substr l i (find_first_of l sep i - i)
         in Option.bind (separated_list_loop l sep (Suc (i + length v))) (\<lambda>vs. Some (v # vs)))
      else Some [])"

text \<open>\<open>ForEachInCommaSeparatedList\<close> and \<open>ForEachInSpaceSeparatedList\<close> (lines 173-177).\<close>

definition for_each_in_comma_separated_list :: "string \<Rightarrow> string list" where
  "for_each_in_comma_separated_list l = for_each_in_char_separated_list l (CHR '','')"

definition for_each_in_space_separated_list :: "string \<Rightarrow> string list" where
  "for_each_in_space_separated_list l = for_each_in_char_separated_list l (CHR '' '')"

text \<open>
  \<open>ForEachLineInMultiLineString\<close> (lines 131-160): the loop of the read head \<open>rh\<close> with the
  start \<open>lb\<close> of the current line.  At the last character the rest of the string from
  \<open>lb\<close> is a line (with an extra empty line if that character is a line feed and
  \<open>includeEmptyTrailingLine\<close> is set); at a line feed the line ends there, or one
  character earlier after a carriage return.
\<close>

function line_loop :: "string \<Rightarrow> bool \<Rightarrow> nat \<Rightarrow> nat \<Rightarrow> string list" where
  "line_loop s inc lb rh =
     (if rh < length s then
        (if Suc rh = length s then
           (drop lb s # (if inc \<and> s ! rh = CHR 0x0A then [[]] else [])) @ line_loop s inc lb (Suc rh)
         else if s ! rh = CHR 0x0A then
           (let le = (if 0 < rh \<and> s ! (rh - 1) = CHR 0x0D then rh - 1 else rh)
            in take (le - lb) (drop lb s) # line_loop s inc (Suc rh) (Suc rh))
         else line_loop s inc lb (Suc rh))
      else [])"
  by pat_completeness auto
termination
  by (relation "measure (\<lambda>(s, inc, lb, rh). length s - rh)") auto

declare line_loop.simps [simp del]

definition for_each_line_in_multi_line_string :: "string \<Rightarrow> bool \<Rightarrow> string list" where
  "for_each_line_in_multi_line_string s inc =
     (if inc \<and> s = [] then [[]] else []) @ line_loop s inc 0 0"

text \<open>A line followed by its terminator: a line feed, after a carriage return if the flag is set.\<close>

definition terminated_line :: "string \<times> bool \<Rightarrow> string" where
  "terminated_line lc = fst lc @ (if snd lc then [CHR 0x0D] else []) @ [CHR 0x0A]"

section \<open>Properties\<close>


lemma first_non_ws_takeWhile:
  "first_non_ws v = (if is_all_whitespace v then None else Some (length (takeWhile is_whitespace v)))"
  by (induction v) (simp_all add: is_all_whitespace_def)

lemma trim_left_dropWhile:
  "trim_left v = (if is_all_whitespace v then v else dropWhile is_whitespace v)"
  by (simp add: trim_left_def first_non_ws_takeWhile dropWhile_eq_drop)

lemma is_all_whitespace_rev [simp]: "is_all_whitespace (rev v) = is_all_whitespace v"
  by (simp add: is_all_whitespace_def list_all_iff)

lemma trim_right_dropWhile:
  "trim_right v = (if is_all_whitespace v then v else rev (dropWhile is_whitespace (rev v)))"
proof (cases "is_all_whitespace v")
  case False
  let ?k = "length (takeWhile is_whitespace (rev v))"
  have "?k < length v"
    using False length_takeWhile_less_iff [of is_whitespace "rev v"]
    by (simp add: is_all_whitespace_def list_all_iff)
  then have "Suc (length v - Suc ?k) = length v - ?k" by simp
  moreover have "rev (dropWhile is_whitespace (rev v)) = take (length v - ?k) v"
    by (simp add: dropWhile_eq_drop rev_drop)
  ultimately show ?thesis
    using False by (simp add: trim_right_def last_non_ws_def first_non_ws_takeWhile)
qed (simp add: trim_right_def last_non_ws_def first_non_ws_takeWhile)

lemma dropWhile_not_all [simp]:
  "\<not> is_all_whitespace v \<Longrightarrow> \<not> is_all_whitespace (dropWhile is_whitespace v)"
  by (induction v) (auto simp: is_all_whitespace_def)

text \<open>
  C20. \<open>Trim\<close> strips leading and trailing whitespace from a string that has a
  non-whitespace character, and returns a string made only of whitespace (spaces, tabs,
  carriage returns, line feeds) unchanged instead of empty, because \<open>TrimLeft\<close> and
  \<open>TrimRight\<close> return their input when \<open>find_first_not_of\<close> finds nothing.
\<close>

theorem trim_all_whitespace_unchanged:
  "trim v = (if is_all_whitespace v then v
             else rev (dropWhile is_whitespace (rev (dropWhile is_whitespace v))))"
  by (simp add: trim_def trim_left_dropWhile trim_right_dropWhile)

lemma separated_values_terminated:
  "\<forall>v \<in> set vs. sep \<notin> set v \<Longrightarrow>
   separated_values (pre @ concat (map (\<lambda>v. v @ [sep]) vs)) sep (length pre) = vs"
proof (induction vs arbitrary: pre)
  case Nil
  then show ?case by (simp add: separated_values.simps)
next
  case (Cons v vs)
  have tw: "takeWhile (\<lambda>c. c \<noteq> sep) (v @ sep # rest) = v" for rest
    using Cons.prems by (auto simp: takeWhile_append2 takeWhile_tail)
  show ?case
    using Cons.IH [of "pre @ v @ [sep]"] Cons.prems
    by (subst separated_values.simps) (simp add: tw)
qed

text \<open>\<open>find_first_of\<close> and \<open>substr\<close> cut the value at the next separator.\<close>

lemma substr_find_first_of:
  assumes "length l \<le> npos"
  shows "substr l i (find_first_of l sep i - i) = takeWhile (\<lambda>c. c \<noteq> sep) (drop i l)"
proof (cases "find (\<lambda>j. l ! j = sep) [i..<length l]")
  case None
  have "c \<noteq> sep" if c: "c \<in> set (drop i l)" for c
  proof -
    obtain k where k: "k < length (drop i l)" "drop i l ! k = c"
      using c unfolding in_set_conv_nth by blast
    have "k < length l - i" using k(1) by simp
    moreover have "c = l ! (i + k)" using k calculation by simp
    ultimately show ?thesis
      using None by (auto simp: find_None_iff)
  qed
  then have "takeWhile (\<lambda>c. c \<noteq> sep) (drop i l) = drop i l"
    by (intro takeWhile_eq_all_conv [THEN iffD2]) blast
  then show ?thesis
    using None assms by (simp add: substr_def find_first_of_def del: takeWhile_eq_all_conv)
next
  case (Some j)
  then obtain k where k: "k < length l - i" "j = i + k" "l ! j = sep"
      and before: "\<forall>m<k. l ! (i + m) \<noteq> sep"
    by (auto simp: find_Some_iff)
  have "takeWhile (\<lambda>c. c \<noteq> sep) (drop i l) = take k (drop i l)"
    using k before by (intro takeWhile_eq_take_P_nth) auto
  then show ?thesis
    using Some k by (simp add: substr_def find_first_of_def)
qed

lemma separated_list_loop_values:
  "length l \<le> npos \<Longrightarrow> separated_list_loop l sep i = Some (separated_values l sep i)"
proof (induction l sep i rule: separated_values.induct)
  case (1 l sep i)
  show ?case
    using 1 by (subst separated_list_loop.simps, subst separated_values.simps)
      (simp add: substr_find_first_of Let_def)
qed

text \<open>
  C21. \<open>ForEachInCharSeparatedList\<close> on values that each end with the separator (and
  contain no separator) calls its callback with exactly those values, in order, empty
  values included.
\<close>

theorem separated_list_roundtrip:
  "\<forall>v \<in> set vs. sep \<notin> set v \<Longrightarrow>
   for_each_in_char_separated_list (concat (map (\<lambda>v. v @ [sep]) vs)) sep = vs"
  using separated_values_terminated [of vs sep "[]"] by (simp add: for_each_in_char_separated_list_def)

subsection \<open>The line iterator\<close>

lemma line_loop_skip:
  "(\<And>j. rh \<le> j \<Longrightarrow> j < rh + k \<Longrightarrow> s ! j \<noteq> CHR 0x0A) \<Longrightarrow> rh + k < length s \<Longrightarrow>
   line_loop s inc lb rh = line_loop s inc lb (rh + k)"
proof (induction k arbitrary: rh)
  case (Suc k)
  have "line_loop s inc lb rh = line_loop s inc lb (Suc rh)"
    using Suc.prems(1) [of rh] Suc.prems(2) by (simp add: line_loop.simps [of s inc lb rh])
  also have "\<dots> = line_loop s inc lb (Suc rh + k)"
    using Suc.prems by (intro Suc.IH) auto
  finally show ?case by simp
qed simp

lemma line_loop_end: "length s \<le> rh \<Longrightarrow> line_loop s inc lb rh = []"
  by (simp add: line_loop.simps)

lemma line_loop_last:
  assumes "CHR 0x0A \<notin> set ll" and "ll \<noteq> []"
  shows "line_loop (pre @ ll) inc (length pre) (length pre) = [ll]"
proof -
  let ?s = "pre @ ll" and ?p = "length pre"
  have "line_loop ?s inc ?p ?p = line_loop ?s inc ?p (?p + (length ll - 1))"
    using assms by (intro line_loop_skip) (auto simp: nth_append in_set_conv_nth)
  also have "\<dots> = [ll]"
  proof -
    have "?s ! (?p + (length ll - 1)) = last ll" using assms(2) by (simp add: nth_append last_conv_nth)
    moreover have "last ll \<noteq> CHR 0x0A" using assms by (metis last_in_set)
    ultimately show ?thesis
      using assms(2) by (subst line_loop.simps) (simp add: line_loop_end)
  qed
  finally show ?thesis .
qed


lemma line_loop_step:
  assumes "CHR 0x0A \<notin> set l" and "\<not> crlf \<Longrightarrow> l = [] \<Longrightarrow> pre = [] \<or> last pre \<noteq> CHR 0x0D"
    and "\<not> crlf \<Longrightarrow> l \<noteq> [] \<Longrightarrow> last l \<noteq> CHR 0x0D" and "rest \<noteq> []"
  shows "line_loop (pre @ terminated_line (l, crlf) @ rest) inc (length pre) (length pre) =
         l # line_loop (pre @ terminated_line (l, crlf) @ rest) inc
               (length pre + length (terminated_line (l, crlf))) (length pre + length (terminated_line (l, crlf)))"
proof -
  let ?t = "l @ (if crlf then [CHR 0x0D] else [])"
  let ?s = "pre @ terminated_line (l, crlf) @ rest" and ?p = "length pre"
  have s: "?s = pre @ ?t @ CHR 0x0A # rest" by (simp add: terminated_line_def)
  have "line_loop ?s inc ?p ?p = line_loop ?s inc ?p (?p + length ?t)"
    using assms(1) by (intro line_loop_skip) (auto simp: s nth_append in_set_conv_nth split: if_splits)
  also have "\<dots> = l # line_loop ?s inc (Suc (?p + length ?t)) (Suc (?p + length ?t))"
  proof -
    have at: "?s ! (?p + length ?t) = CHR 0x0A" by (simp add: s nth_append)
    have le: "(if 0 < ?p + length ?t \<and> ?s ! (?p + length ?t - 1) = CHR 0x0D
               then ?p + length ?t - 1 else ?p + length ?t) = ?p + length l"
    proof (cases crlf)
      case True
      then show ?thesis by (simp add: terminated_line_def nth_append)
    next
      case False
      show ?thesis
      proof (cases "l = []")
        case True
        with False assms(2) show ?thesis
          by (cases pre rule: rev_cases) (auto simp: terminated_line_def nth_append)
      next
        case nonempty: False
        have "\<not> length pre + length l - Suc 0 < length pre" using nonempty by (cases l) auto
        with nonempty False assms(3) show ?thesis
          by (auto simp: terminated_line_def nth_append last_conv_nth)
      qed
    qed
    show ?thesis
      using assms(4) at le
      by (subst line_loop.simps) (simp add: s Let_def)
  qed
  also have "Suc (?p + length ?t) = ?p + length (terminated_line (l, crlf))"
    by (simp add: terminated_line_def)
  finally show ?thesis by simp
qed


lemma line_loop_concat:
  assumes "\<forall>(l, crlf) \<in> set ls. CHR 0x0A \<notin> set l \<and> (\<not> crlf \<and> l \<noteq> [] \<longrightarrow> last l \<noteq> CHR 0x0D)"
    and "rest \<noteq> []" and "pre = [] \<or> last pre \<noteq> CHR 0x0D"
  shows "line_loop (pre @ concat (map terminated_line ls) @ rest) inc (length pre) (length pre) =
         map fst ls @ line_loop ((pre @ concat (map terminated_line ls)) @ rest) inc
           (length (pre @ concat (map terminated_line ls))) (length (pre @ concat (map terminated_line ls)))"
  using assms
proof (induction ls arbitrary: pre)
  case (Cons lc ls)
  obtain l crlf where lc: "lc = (l, crlf)" by (cases lc)
  let ?pre' = "pre @ terminated_line (l, crlf)"
  have rest': "concat (map terminated_line ls) @ rest \<noteq> []" using Cons.prems(2) by simp
  have "line_loop (pre @ terminated_line (l, crlf) @ concat (map terminated_line ls) @ rest) inc (length pre) (length pre)
        = l # line_loop (?pre' @ concat (map terminated_line ls) @ rest) inc (length ?pre') (length ?pre')"
    using line_loop_step [OF _ _ _ rest', of l crlf pre inc] Cons.prems(1,3) lc by auto
  moreover have "?pre' = [] \<or> last ?pre' \<noteq> CHR 0x0D" by (simp add: terminated_line_def)
  ultimately show ?case
    using Cons.IH [of ?pre'] Cons.prems(1,2) lc by simp
qed simp

lemma line_loop_last_newline:
  assumes "CHR 0x0A \<notin> set l"
  shows "line_loop (pre @ terminated_line (l, crlf)) inc (length pre) (length pre) =
         terminated_line (l, crlf) # (if inc then [[]] else [])"
proof -
  let ?t = "l @ (if crlf then [CHR 0x0D] else [])"
  let ?s = "pre @ terminated_line (l, crlf)" and ?p = "length pre"
  have s: "?s = pre @ ?t @ [CHR 0x0A]" by (simp add: terminated_line_def)
  have "line_loop ?s inc ?p ?p = line_loop ?s inc ?p (?p + length ?t)"
    using assms by (intro line_loop_skip) (auto simp: s nth_append in_set_conv_nth split: if_splits)
  also have "\<dots> = terminated_line (l, crlf) # (if inc then [[]] else [])"
    by (subst line_loop.simps) (simp add: s nth_append line_loop_end terminated_line_def)
  finally show ?thesis .
qed

text \<open>
  C22. \<open>ForEachLineInMultiLineString\<close> on lines each terminated by a line feed or a
  carriage return and line feed, followed by a non-empty last line without terminator,
  calls its callback with exactly those lines, terminators removed.
\<close>

theorem for_each_line_roundtrip:
  assumes "\<forall>(l, crlf) \<in> set ls. CHR 0x0A \<notin> set l \<and> (\<not> crlf \<and> l \<noteq> [] \<longrightarrow> last l \<noteq> CHR 0x0D)"
    and "CHR 0x0A \<notin> set ll" and "ll \<noteq> []"
  shows "for_each_line_in_multi_line_string (concat (map terminated_line ls) @ ll) inc = map fst ls @ [ll]"
  using line_loop_concat [OF assms(1) assms(3), of "[]" inc] line_loop_last [OF assms(2,3)] assms(3)
  by (simp add: for_each_line_in_multi_line_string_def)

text \<open>
  C23. When the text ends with a line terminator, the last line is reported with its
  terminator (carriage return and line feed included), followed by an empty line only if
  \<open>includeEmptyTrailingLine\<close> is set: the branch for the last character runs before the
  line-feed branch.
\<close>

theorem for_each_line_trailing_newline:
  assumes "\<forall>(l, crlf) \<in> set ls. CHR 0x0A \<notin> set l \<and> (\<not> crlf \<and> l \<noteq> [] \<longrightarrow> last l \<noteq> CHR 0x0D)"
    and "CHR 0x0A \<notin> set l"
  shows "for_each_line_in_multi_line_string (concat (map terminated_line ls) @ terminated_line (l, crlf)) inc =
         map fst ls @ terminated_line (l, crlf) # (if inc then [[]] else [])"
proof -
  have ne: "terminated_line (l, crlf) \<noteq> []" by (simp add: terminated_line_def)
  show ?thesis
    using line_loop_concat [OF assms(1) ne, of "[]" inc] line_loop_last_newline [OF assms(2)] ne
    by (simp add: for_each_line_in_multi_line_string_def)
qed

subsection \<open>Fixed-size buffers\<close>

text \<open>
  Copying a string without null characters into a buffer of \<open>n > 0\<close> characters
  with \<open>CopyStringViewIntoFixedBuffer\<close> keeps the buffer's size, and
  \<open>FixedBufferStringView\<close> of the result is the string truncated to \<open>n - 1\<close> characters.
\<close>

theorem copy_then_view:
  assumes "length buf = n" and "0 < n" and "CHR 0x00 \<notin> set v"
  shows "\<exists>buf'. copy_string_view_into_fixed_buffer buf n v = Some buf' \<and> length buf' = n \<and>
           fixed_buffer_string_view buf' n = take (n - 1) v"
proof -
  define len where "len = min (length v + 1) n - 1"
  have len: "len < n" "len \<le> length v" "len = min (length v) (n - 1)" using assms(2) by (auto simp: len_def)
  let ?b = "(take len v @ drop len buf)[len := CHR 0x00]"
  have lenb: "length ?b = n" using assms(1) len by simp
  have "take n ?b = ?b" using lenb by simp
  moreover have "?b = take len v @ CHR 0x00 # drop (Suc len) buf"
    using len assms(1) by (simp add: list_update_append upd_conv_take_nth_drop)
  moreover have "\<forall>x \<in> set (take len v). x \<noteq> CHR 0x00" using assms(3) by (auto dest: in_set_takeD)
  ultimately have "fixed_buffer_string_view ?b n = take len v"
    by (simp add: fixed_buffer_string_view_def takeWhile_append2 takeWhile_tail)
  moreover have "copy_string_view_into_fixed_buffer buf n v = Some ?b"
    unfolding copy_string_view_into_fixed_buffer_def Let_def len_def [symmetric] using assms(2) by simp
  moreover have "take len v = take (n - 1) v" using len(3) by (simp add: min_def)
  ultimately show ?thesis using lenb by auto
qed

text \<open>
  C36. Termination of the separated-list loop as written: the \<open>for\<close> loop of
  \<open>ForEachInCharSeparatedList\<close>, whose body moves the index past each value before the
  increment, ends on every string of at most \<open>npos\<close> characters and calls the callback
  with the values \<open>for_each_in_char_separated_list\<close> gives.
\<close>

theorem separated_list_loop_terminates:
  "length l \<le> npos \<Longrightarrow> separated_list_loop l sep 0 = Some (for_each_in_char_separated_list l sep)"
  by (simp add: for_each_in_char_separated_list_def separated_list_loop_values)

end
