(* ===== verification/Core_Parse.thy ===== *)
theory Core_Parse
  imports Prelude
begin

text \<open>
  Decimal text of integers.  \<open>printf\<close>'s \<open>%zu\<close> and \<open>%03zu\<close> (used by \<open>sprite.cpp\<close>
  to rename textures) print decimal digits; the number parsers \<open>ASCII::TryParseU32\<close>,
  \<open>TryParseI32\<close>, \<open>TryParseU64\<close> and \<open>TryParseI64\<close> (\<open>comfy/core_string.cpp\<close>
  lines 97-115) read them back through \<open>std::from_chars\<close>.  \<open>from_chars\<close> is the
  standard library's ([charconv.from.chars], base 10): an optional \<open>-\<close> for signed
  types only, then the longest run of digits; no digits is \<open>invalid_argument\<close> with the
  pointer at the start and the value untouched; a value out of the type's range is
  \<open>result_out_of_range\<close> with the pointer past the digits and the value untouched; else
  the value is stored.  \<open>TryParsePrimitiveTypeT\<close> reports success only when there is no
  error and the whole string was consumed, but the value was stored by then.
\<close>

type_synonym u64 = "64 word"

section \<open>Decimal digits\<close>

text \<open>\<open>printf\<close>'s \<open>%zu\<close>, and \<open>%03zu\<close>: at least three digits, zero-padded.\<close>

definition digit_char :: "nat \<Rightarrow> char" where
  "digit_char d = ''0123456789'' ! d"

fun dec_digits :: "nat \<Rightarrow> string" where
  "dec_digits n =
     (if n < 10 then [digit_char n] else dec_digits (n div 10) @ [digit_char (n mod 10)])"

declare dec_digits.simps [simp del]

definition format_03zu :: "nat \<Rightarrow> string" where
  "format_03zu n = replicate (3 - length (dec_digits n)) (CHR ''0'') @ dec_digits n"

section \<open>\<open>std::from_chars\<close> for integers\<close>

definition is_digit :: "char \<Rightarrow> bool" where
  "is_digit c \<longleftrightarrow> 48 \<le> (of_char c :: nat) \<and> (of_char c :: nat) \<le> 57"

definition digit_value :: "char \<Rightarrow> nat" where
  "digit_value c = of_char c - 48"

definition dec_value :: "string \<Rightarrow> nat" where
  "dec_value ds = foldl (\<lambda>n c. 10 * n + digit_value c) 0 ds"

datatype errc = Errc_None | Invalid_Argument | Result_Out_Of_Range

record from_chars_result =
  fc_ptr :: nat
  fc_ec :: errc

text \<open>\<open>from_chars_int is_signed lo hi s out\<close>: the call on the whole of \<open>s\<close> for an integer
  type of range \<open>[lo, hi]\<close>, with \<open>out\<close> the value before the call; it returns the
  \<open>from_chars_result\<close> (the pointer as an offset into \<open>s\<close>) and the value after the call.\<close>

definition from_chars_int :: "bool \<Rightarrow> int \<Rightarrow> int \<Rightarrow> string \<Rightarrow> int \<Rightarrow> from_chars_result \<times> int" where
  "from_chars_int is_signed lo hi s out =
     (let neg = (is_signed \<and> s \<noteq> [] \<and> hd s = CHR ''-'');
          ds = takeWhile is_digit (if neg then tl s else s);
          ptr = (if neg then 1 else 0) + length ds;
          v = (if neg then - int (dec_value ds) else int (dec_value ds))
      in if ds = [] then (\<lparr>fc_ptr = 0, fc_ec = Invalid_Argument\<rparr>, out)
         else if lo \<le> v \<and> v \<le> hi then (\<lparr>fc_ptr = ptr, fc_ec = Errc_None\<rparr>, v)
         else (\<lparr>fc_ptr = ptr, fc_ec = Result_Out_Of_Range\<rparr>, out))"

section \<open>\<open>TryParsePrimitiveTypeT\<close> and its instances\<close>

definition try_parse_primitive :: "bool \<Rightarrow> int \<Rightarrow> int \<Rightarrow> string \<Rightarrow> int \<Rightarrow> bool \<times> int" where
  "try_parse_primitive is_signed lo hi s out =
     (let (result, v) = from_chars_int is_signed lo hi s out;
          has_no_error = (fc_ec result = Errc_None);
          parsed_fully = (fc_ptr result = length s)
      in (has_no_error \<and> parsed_fully, v))"

text \<open>The template at an unsigned and at a signed word type: the range is the type's,
  and \<open>out\<close> is the word read as \<open>uint\<close> or \<open>sint\<close>.\<close>

definition try_parse_unsigned :: "string \<Rightarrow> 'a::len word \<Rightarrow> bool \<times> 'a word" where
  "try_parse_unsigned s out =
     (let (ok, v) = try_parse_primitive False 0 (2 ^ LENGTH('a) - 1) s (uint out)
      in (ok, word_of_int v))"

definition try_parse_signed :: "string \<Rightarrow> 'a::len word \<Rightarrow> bool \<times> 'a word" where
  "try_parse_signed s out =
     (let (ok, v) = try_parse_primitive True (- (2 ^ (LENGTH('a) - 1))) (2 ^ (LENGTH('a) - 1) - 1)
                      s (sint out)
      in (ok, word_of_int v))"

definition try_parse_u32 :: "string \<Rightarrow> u32 \<Rightarrow> bool \<times> u32" where
  "try_parse_u32 s out = try_parse_unsigned s out"

definition try_parse_i32 :: "string \<Rightarrow> u32 \<Rightarrow> bool \<times> u32" where
  "try_parse_i32 s out = try_parse_signed s out"

definition try_parse_u64 :: "string \<Rightarrow> u64 \<Rightarrow> bool \<times> u64" where
  "try_parse_u64 s out = try_parse_unsigned s out"

definition try_parse_i64 :: "string \<Rightarrow> u64 \<Rightarrow> bool \<times> u64" where
  "try_parse_i64 s out = try_parse_signed s out"

section \<open>Reference: the integer a string denotes\<close>

text \<open>The contract of the parsers: a string denotes a natural number when it is a
  non-empty run of digits, and an integer when it is one, optionally after a \<open>-\<close>.\<close>

definition dec_nat_spec :: "string \<Rightarrow> nat option" where
  "dec_nat_spec s = (if s \<noteq> [] \<and> list_all is_digit s then Some (dec_value s) else None)"

definition dec_int_spec :: "string \<Rightarrow> int option" where
  "dec_int_spec s =
     (if s \<noteq> [] \<and> hd s = CHR ''-'' then map_option (\<lambda>n. - int n) (dec_nat_spec (tl s))
      else map_option int (dec_nat_spec s))"

definition sdec_digits :: "int \<Rightarrow> string" where
  "sdec_digits i = (if i < 0 then CHR ''-'' # dec_digits (nat (- i)) else dec_digits (nat i))"

section \<open>Digits\<close>

lemma digit_char_facts:
  assumes "d < 10"
  shows "is_digit (digit_char d)" "digit_value (digit_char d) = d"
proof -
  have "d = 0 \<or> d = 1 \<or> d = 2 \<or> d = 3 \<or> d = 4 \<or> d = 5 \<or> d = 6 \<or> d = 7 \<or> d = 8 \<or> d = 9"
    using assms by (simp add: numeral_eq_Suc less_Suc_eq)
  then show "is_digit (digit_char d)" "digit_value (digit_char d) = d"
    by (auto simp: digit_char_def is_digit_def digit_value_def)
qed

lemma dec_value_snoc [simp]: "dec_value (xs @ [c]) = 10 * dec_value xs + digit_value c"
  by (simp add: dec_value_def)

lemma dec_digits_facts:
  "dec_digits n \<noteq> [] \<and> list_all is_digit (dec_digits n) \<and> dec_value (dec_digits n) = n"
proof (induction n rule: dec_digits.induct)
  case (1 n)
  then show ?case
    by (subst (1 2 3) dec_digits.simps)
       (auto simp: digit_char_facts dec_value_def)
qed

lemma dec_nat_spec_dec_digits [simp]: "dec_nat_spec (dec_digits n) = Some n"
  using dec_digits_facts [of n] by (simp add: dec_nat_spec_def)

lemma dec_int_spec_sdec_digits [simp]: "dec_int_spec (sdec_digits i) = Some i"
proof -
  have "dec_digits n \<noteq> [] \<and> hd (dec_digits n) \<noteq> CHR ''-''" for n
    using dec_digits_facts [of n] by (cases "dec_digits n") (auto simp: is_digit_def)
  then show ?thesis
    by (auto simp: sdec_digits_def dec_int_spec_def)
qed

section \<open>What the parsers accept\<close>

lemma takeWhile_length_eq: "length (takeWhile P xs) = length xs \<longleftrightarrow> list_all P xs"
  using length_takeWhile_less_iff [of P xs] length_takeWhile_le [of P xs]
  by (auto simp: list_all_iff)

lemma takeWhile_all: "\<forall>x\<in>set xs. P x \<Longrightarrow> takeWhile P xs = xs"
  by (simp add: takeWhile_eq_all_conv)

lemma minus_not_digit [simp]: "\<not> is_digit CHR ''-''"
  by (simp add: is_digit_def)

text \<open>\<open>TryParsePrimitiveTypeT\<close> succeeds with value \<open>v\<close> exactly when the string
  denotes \<open>v\<close> and \<open>v\<close> is in the type's range.\<close>

lemma from_chars_int_digits:
  assumes "\<not> (sg \<and> s \<noteq> [] \<and> hd s = CHR ''-'')"
  shows "from_chars_int sg lo hi s out =
     (let ds = takeWhile is_digit s; v = int (dec_value ds)
      in if ds = [] then (\<lparr>fc_ptr = 0, fc_ec = Invalid_Argument\<rparr>, out)
         else if lo \<le> v \<and> v \<le> hi then (\<lparr>fc_ptr = length ds, fc_ec = Errc_None\<rparr>, v)
         else (\<lparr>fc_ptr = length ds, fc_ec = Result_Out_Of_Range\<rparr>, out))"
  unfolding from_chars_int_def Let_def if_not_P [OF assms] by simp

lemma from_chars_int_minus:
  assumes "sg"
  shows "from_chars_int sg lo hi (CHR ''-'' # t) out =
     (let ds = takeWhile is_digit t; v = - int (dec_value ds)
      in if ds = [] then (\<lparr>fc_ptr = 0, fc_ec = Invalid_Argument\<rparr>, out)
         else if lo \<le> v \<and> v \<le> hi then (\<lparr>fc_ptr = Suc (length ds), fc_ec = Errc_None\<rparr>, v)
         else (\<lparr>fc_ptr = Suc (length ds), fc_ec = Result_Out_Of_Range\<rparr>, out))"
  using assms by (simp add: from_chars_int_def Let_def)

text \<open>A parse consumes the whole string exactly when the string is a run of digits.\<close>

lemma full_digits_takeWhile: "list_all is_digit t \<Longrightarrow> takeWhile is_digit t = t"
  by (simp add: takeWhile_eq_all_conv list_all_iff)

lemma full_digits:
  "(takeWhile is_digit t \<noteq> [] \<and> length (takeWhile is_digit t) = length t) \<longleftrightarrow>
     t \<noteq> [] \<and> list_all is_digit t"
  by (auto simp: takeWhile_length_eq full_digits_takeWhile)

lemma try_parse_primitive_True:
  "try_parse_primitive sg lo hi s out = (True, v) \<longleftrightarrow>
     (if sg then dec_int_spec s else map_option int (dec_nat_spec s)) = Some v \<and> lo \<le> v \<and> v \<le> hi"
proof (cases "s \<noteq> [] \<and> hd s = CHR ''-''")
  case True
  then obtain t where s: "s = CHR ''-'' # t" by (cases s) auto
  show ?thesis
  proof (cases sg)
    case sg: True
    show ?thesis
    proof (cases "t \<noteq> [] \<and> list_all is_digit t")
      case True
      then show ?thesis
        using sg by (auto simp: s try_parse_primitive_def from_chars_int_minus dec_int_spec_def
              dec_nat_spec_def Let_def full_digits_takeWhile)
    next
      case False
      then show ?thesis
        using sg full_digits [of t]
        by (auto simp: s try_parse_primitive_def from_chars_int_minus dec_int_spec_def
              dec_nat_spec_def Let_def)
    qed
  next
    case False
    then show ?thesis
      by (simp add: s try_parse_primitive_def from_chars_int_def dec_nat_spec_def)
  qed
next
  case nm: False
  then have fc: "\<not> (sg \<and> s \<noteq> [] \<and> hd s = CHR ''-'')" by simp
  show ?thesis
  proof (cases "s \<noteq> [] \<and> list_all is_digit s")
    case True
    then show ?thesis
      using nm by (auto simp: try_parse_primitive_def from_chars_int_digits [OF fc] dec_int_spec_def
            dec_nat_spec_def Let_def full_digits_takeWhile)
  next
    case False
    then show ?thesis
      using nm full_digits [of s]
      by (auto simp: try_parse_primitive_def from_chars_int_digits [OF fc] dec_int_spec_def
            dec_nat_spec_def Let_def)
  qed
qed

section \<open>The parsers on words\<close>

lemma try_parse_unsigned_split:
  "try_parse_primitive False 0 (2 ^ LENGTH('a) - 1) s (uint (out :: 'a::len word)) = (ok, v) \<Longrightarrow>
     try_parse_unsigned s out = (ok, word_of_int v)"
  by (simp add: try_parse_unsigned_def)

lemma try_parse_signed_split:
  "try_parse_primitive True (- (2 ^ (LENGTH('a) - 1))) (2 ^ (LENGTH('a) - 1) - 1) s
       (sint (out :: 'a::len word)) = (ok, v) \<Longrightarrow>
     try_parse_signed s out = (ok, word_of_int v)"
  by (simp add: try_parse_signed_def)

lemma try_parse_unsigned_True:
  "try_parse_unsigned s (out :: 'a::len word) = (True, w) \<longleftrightarrow> dec_nat_spec s = Some (unat w)"
proof
  obtain ok v where r: "try_parse_primitive False 0 (2 ^ LENGTH('a) - 1) s (uint out) = (ok, v)"
    by fastforce
  assume "try_parse_unsigned s out = (True, w)"
  then have ok: "ok" and w: "w = word_of_int v"
    using try_parse_unsigned_split [OF r] by auto
  have "try_parse_primitive False 0 (2 ^ LENGTH('a) - 1) s (uint out) = (True, v)"
    using r ok by simp
  then obtain n where n: "dec_nat_spec s = Some n" "v = int n" "n < 2 ^ LENGTH('a)"
    unfolding try_parse_primitive_True by auto
  then have "unat w = n"
    by (simp add: w unat_of_nat)
  then show "dec_nat_spec s = Some (unat w)"
    using n by simp
next
  assume s: "dec_nat_spec s = Some (unat w)"
  have "try_parse_primitive False 0 (2 ^ LENGTH('a) - 1) s (uint out) = (True, uint w)"
    unfolding try_parse_primitive_True using s uint_lt2p [of w] uint_ge_0 [of w]
    by (simp add: uint_nat [symmetric])
  from try_parse_unsigned_split [OF this] show "try_parse_unsigned s out = (True, w)"
    by simp
qed

lemma sint_word_of_int_range:
  "- (2 ^ (LENGTH('a) - 1)) \<le> v \<Longrightarrow> v \<le> 2 ^ (LENGTH('a) - 1) - 1 \<Longrightarrow>
     sint (word_of_int v :: 'a::len word) = v"
  by (simp add: sint_sbintrunc' signed_take_bit_int_eq_self)

lemma try_parse_signed_True:
  "try_parse_signed s (out :: 'a::len word) = (True, w) \<longleftrightarrow> dec_int_spec s = Some (sint w)"
proof
  obtain ok v where r: "try_parse_primitive True (- (2 ^ (LENGTH('a) - 1))) (2 ^ (LENGTH('a) - 1) - 1)
      s (sint out) = (ok, v)"
    by fastforce
  assume "try_parse_signed s out = (True, w)"
  then have ok: "ok" and w: "w = word_of_int v"
    using try_parse_signed_split [OF r] by auto
  have "try_parse_primitive True (- (2 ^ (LENGTH('a) - 1))) (2 ^ (LENGTH('a) - 1) - 1)
      s (sint out) = (True, v)"
    using r ok by simp
  then show "dec_int_spec s = Some (sint w)"
    unfolding try_parse_primitive_True by (auto simp: w sint_word_of_int_range)
next
  assume s: "dec_int_spec s = Some (sint w)"
  have "try_parse_primitive True (- (2 ^ (LENGTH('a) - 1))) (2 ^ (LENGTH('a) - 1) - 1) s (sint out) =
      (True, sint w)"
    unfolding try_parse_primitive_True using s sint_ge [of w] sint_lt [of w] by simp
  from try_parse_signed_split [OF this] show "try_parse_signed s out = (True, w)"
    by simp
qed

section \<open>Failures\<close>

text \<open>A string that denotes a value outside the range fails and leaves \<open>out\<close> alone.\<close>

lemma try_parse_primitive_out_of_range:
  assumes "(if sg then dec_int_spec s else map_option int (dec_nat_spec s)) = Some v"
    and "\<not> (lo \<le> v \<and> v \<le> hi)"
  shows "try_parse_primitive sg lo hi s out = (False, out)"
proof (cases "sg \<and> s \<noteq> [] \<and> hd s = CHR ''-''")
  case True
  then obtain t where s: "s = CHR ''-'' # t" by (cases s) auto
  then show ?thesis
    using assms True
    by (auto simp: try_parse_primitive_def from_chars_int_minus dec_int_spec_def dec_nat_spec_def
          Let_def full_digits_takeWhile split: if_splits)
next
  case False
  have "s \<noteq> [] \<and> list_all is_digit s"
    using assms(1) False by (auto simp: dec_int_spec_def dec_nat_spec_def split: if_splits)
  then show ?thesis
    using assms False
    by (auto simp: try_parse_primitive_def from_chars_int_digits dec_int_spec_def dec_nat_spec_def
          Let_def full_digits_takeWhile split: if_splits)
qed

text \<open>A run of digits followed by anything that is not a digit fails, but the digits'
  value, when it is in range, has been stored.\<close>

lemma try_parse_primitive_prefix:
  assumes "ds \<noteq> []" "list_all is_digit ds" "rest \<noteq> []" "\<not> is_digit (hd rest)"
    and "lo \<le> int (dec_value ds)" "int (dec_value ds) \<le> hi"
  shows "try_parse_primitive sg lo hi (ds @ rest) out = (False, int (dec_value ds))"
proof -
  have tw: "takeWhile is_digit (ds @ rest) = ds"
    using assms(2-4) by (cases rest) (auto simp: takeWhile_append2 list_all_iff)
  have nm: "\<not> (sg \<and> ds @ rest \<noteq> [] \<and> hd (ds @ rest) = CHR ''-'')"
    using assms(1,2) by (cases ds) auto
  show ?thesis
    using assms(1,3,5,6)
    by (simp add: try_parse_primitive_def from_chars_int_digits [OF nm] tw Let_def)
qed

lemma word_of_int_sint_self [simp]: "word_of_int (sint w) = w"
  by (simp add: scast_eq [symmetric])

section \<open>Properties\<close>



text \<open>C27. Refinement of the contract: each parser succeeds with a value exactly when the
  string is the decimal text of that value (\<open>dec_nat_spec\<close>, \<open>dec_int_spec\<close>: digits only,
  a leading \<open>-\<close> only for the signed types, no sign, space or other character); a string
  whose number is out of the type's range is rejected.\<close>

theorem try_parse_refines_dec_spec:
  "(try_parse_u32 s out = (True, w) \<longleftrightarrow> dec_nat_spec s = Some (unat w)) \<and>
   (try_parse_u64 s out' = (True, x) \<longleftrightarrow> dec_nat_spec s = Some (unat x)) \<and>
   (try_parse_i32 s out = (True, w) \<longleftrightarrow> dec_int_spec s = Some (sint w)) \<and>
   (try_parse_i64 s out' = (True, x) \<longleftrightarrow> dec_int_spec s = Some (sint x))"
  by (simp add: try_parse_u32_def try_parse_u64_def try_parse_i32_def try_parse_i64_def
        try_parse_unsigned_True try_parse_signed_True)

text \<open>C28. Bounds: \<open>TryParseI32\<close> rejects the text of a number outside
  \<open>[-2^31, 2^31 - 1]\<close> (\<open>from_chars\<close> reports \<open>result_out_of_range\<close>) and leaves
  \<open>out\<close> as it was.\<close>

theorem try_parse_i32_out_of_range:
  assumes "dec_int_spec s = Some v" and "v < - (2 ^ 31) \<or> 2 ^ 31 \<le> v"
  shows "try_parse_i32 s out = (False, out)"
proof -
  have "try_parse_primitive True (- (2 ^ (LENGTH(32) - 1))) (2 ^ (LENGTH(32) - 1) - 1) s (sint out) =
      (False, sint out)"
    using assms by (intro try_parse_primitive_out_of_range) auto
  from try_parse_signed_split [OF this] show ?thesis
    by (simp add: try_parse_i32_def)
qed

text \<open>C29. Error behaviour on a partly numeric string: \<open>TryParseU32\<close> of digits followed
  by a non-digit (\<open>"12x"\<close>) returns \<open>false\<close>, but \<open>from_chars\<close> has already stored the
  digits' value in \<open>out\<close>: a failed parse does not leave \<open>out\<close> unchanged.\<close>

theorem try_parse_u32_prefix_stored:
  assumes "ds \<noteq> []" "list_all is_digit ds" "rest \<noteq> []" "\<not> is_digit (hd rest)"
    and "dec_value ds < 2 ^ 32"
  shows "try_parse_u32 (ds @ rest) out = (False, of_nat (dec_value ds))"
proof -
  have "try_parse_primitive False 0 (2 ^ LENGTH(32) - 1) (ds @ rest) (uint out) =
      (False, int (dec_value ds))"
    using assms by (intro try_parse_primitive_prefix) auto
  from try_parse_unsigned_split [OF this] show ?thesis
    by (simp add: try_parse_u32_def)
qed

end
