(* ===== verification/Json.thy ===== *)
theory Json
  imports Prelude "HOL-Library.Char_ord" "HOL-Library.List_Lexorder"
begin

text \<open>
  The part of \<open>nlohmann::json\<close> (\<open>json.hpp\<close>, not in the repository) that
  \<open>ParseSpriteInfo\<close> (\<open>sprite.cpp\<close> lines 16-50) calls, modelled from the library's
  documentation.  A value is one of the library's \<open>value_t\<close> kinds; an object is a
  \<open>std::map<std::string, json>\<close>, here an association list kept strictly sorted by key
  (\<open>std::less<std::string>\<close> compares characters as unsigned bytes, which is
  \<open>List_Lexorder\<close> over \<open>Char_ord\<close>).  The calls are: \<open>operator[]\<close> with a key on a
  non-const value, the range-for iteration, the conversion to \<open>std::string\<close> and
  \<open>value(key, -1)\<close> with its conversion to \<open>int\<close>.  Every exception the library throws
  is a \<open>json_error\<close>.  Binary and discarded values are not produced by \<open>json::parse\<close>
  of text and are not modelled; a float holds the value \<open>m * 2^e\<close> of its finite
  \<open>double\<close> as the pair \<open>(m, e)\<close> (the parser yields no infinity or NaN).
\<close>

datatype json =
    JNull
  | JObject "(string \<times> json) list"
  | JArray "json list"
  | JString string
  | JBoolean bool
  | JInteger "64 word"
  | JUnsigned "64 word"
  | JFloat int int

datatype json_error =
    Parse_Error
  | Type_Error nat
  | Float_Conversion_Overflow

text \<open>Propagation of a thrown exception: the continuation runs only on a result.\<close>

definition ebind :: "'e + 'a \<Rightarrow> ('a \<Rightarrow> 'e + 'b) \<Rightarrow> 'e + 'b" where
  "ebind m f = (case m of Inl err \<Rightarrow> Inl err | Inr a \<Rightarrow> f a)"

section \<open>Objects\<close>

text \<open>The key lookup of \<open>std::map::find\<close>.\<close>

fun obj_find :: "(string \<times> json) list \<Rightarrow> string \<Rightarrow> json option" where
  "obj_find [] k = None"
| "obj_find ((a, v) # ps) k = (if k = a then Some v else obj_find ps k)"

text \<open>\<open>std::map::emplace(key, nullptr)\<close>: inserts a null at its sorted place, keeps an existing entry.\<close>

fun obj_emplace_null :: "string \<Rightarrow> (string \<times> json) list \<Rightarrow> (string \<times> json) list" where
  "obj_emplace_null k [] = [(k, JNull)]"
| "obj_emplace_null k ((a, v) # ps) =
     (if k < a then (k, JNull) # (a, v) # ps
      else if k = a then (a, v) # ps
      else (a, v) # obj_emplace_null k ps)"

text \<open>The invariant of every object reachable in a value: keys strictly increasing.\<close>

fun json_wf :: "json \<Rightarrow> bool" where
  "json_wf (JObject ps) = (sorted_wrt (<) (map fst ps) \<and> (\<forall>p\<in>set ps. json_wf (snd p)))"
| "json_wf (JArray xs) = (\<forall>x\<in>set xs. json_wf x)"
| "json_wf _ = True"

section \<open>The calls of \<open>ParseSpriteInfo\<close>\<close>

text \<open>
  \<open>operator[](const key_type&)\<close> on a non-const value: a null value becomes an empty
  object, a missing key is inserted with a null value, and the result is the updated
  value and the element; any other kind throws \<open>type_error.305\<close>.
\<close>

definition json_subscript :: "json \<Rightarrow> string \<Rightarrow> json_error + json \<times> json" where
  "json_subscript j k =
     (case j of
        JNull \<Rightarrow> Inr (JObject [(k, JNull)], JNull)
      | JObject ps \<Rightarrow>
          (case obj_find ps k of
             Some v \<Rightarrow> Inr (j, v)
           | None \<Rightarrow> Inr (JObject (obj_emplace_null k ps), JNull))
      | _ \<Rightarrow> Inl (Type_Error 305))"

text \<open>
  The elements a range-for visits (\<open>begin()\<close> to \<open>end()\<close>): none for null, the values of
  an object in key order, the elements of an array, and the value itself for a primitive.
\<close>

definition json_items :: "json \<Rightarrow> json list" where
  "json_items j =
     (case j of
        JNull \<Rightarrow> []
      | JObject ps \<Rightarrow> map snd ps
      | JArray xs \<Rightarrow> xs
      | _ \<Rightarrow> [j])"

text \<open>\<open>get<std::string>()\<close>: a string, else \<open>type_error.302\<close>.\<close>

definition json_get_string :: "json \<Rightarrow> json_error + string" where
  "json_get_string j = (case j of JString s \<Rightarrow> Inr s | _ \<Rightarrow> Inl (Type_Error 302))"

text \<open>
  \<open>get<int>()\<close>: the arithmetic \<open>from_json\<close> casts an integer, an unsigned or a boolean
  with \<open>static_cast<int>\<close> (modulo \<open>2^32\<close> for the 64-bit integers) and a \<open>double\<close> by
  truncation toward zero, undefined outside the range of \<open>int\<close>; any other kind throws
  \<open>type_error.302\<close>.  The result is the 32 bits of the \<open>int\<close>.
\<close>

definition trunc_dyadic :: "int \<Rightarrow> int \<Rightarrow> int" where
  "trunc_dyadic m e =
     (if 0 \<le> e then m * 2 ^ nat e
      else if 0 \<le> m then m div 2 ^ nat (- e) else - ((- m) div 2 ^ nat (- e)))"

definition json_get_i32 :: "json \<Rightarrow> json_error + 32 word" where
  "json_get_i32 j =
     (case j of
        JInteger w \<Rightarrow> Inr (word_of_int (sint w))
      | JUnsigned w \<Rightarrow> Inr (ucast w)
      | JBoolean b \<Rightarrow> Inr (if b then 1 else 0)
      | JFloat m e \<Rightarrow>
          (let t = trunc_dyadic m e in
           if - (2 ^ 31) \<le> t \<and> t < 2 ^ 31 then Inr (word_of_int t) else Inl Float_Conversion_Overflow)
      | _ \<Rightarrow> Inl (Type_Error 302))"

text \<open>
  \<open>value(key, default)\<close> with an \<open>int\<close> default: on an object, the converted element
  of that key or the default when the key is absent; on any other kind
  \<open>type_error.306\<close>.
\<close>

definition json_value_i32 :: "json \<Rightarrow> string \<Rightarrow> 32 word \<Rightarrow> json_error + 32 word" where
  "json_value_i32 j k d =
     (case j of
        JObject ps \<Rightarrow> (case obj_find ps k of Some v \<Rightarrow> json_get_i32 v | None \<Rightarrow> Inr d)
      | _ \<Rightarrow> Inl (Type_Error 306))"

section \<open>Lemmas\<close>

lemma ebind_simps [simp]:
  "ebind (Inl err) f = Inl err"
  "ebind (Inr a) f = f a"
  by (simp_all add: ebind_def)

lemma ebind_Inr_iff:
  "ebind m f = Inr b \<longleftrightarrow> (\<exists>a. m = Inr a \<and> f a = Inr b)"
  by (cases m) simp_all

lemma obj_find_below:
  "x < a \<Longrightarrow> \<forall>p\<in>set ps. a < fst p \<Longrightarrow> obj_find ps x = None"
  by (induction ps x rule: obj_find.induct) (auto dest: order.strict_trans)

lemma obj_find_emplace_null:
  "sorted_wrt (<) (map fst ps) \<Longrightarrow>
     obj_find (obj_emplace_null k ps) x = (if obj_find ps x = None \<and> x = k then Some JNull else obj_find ps x)"
  by (induction k ps rule: obj_emplace_null.induct) (auto dest: obj_find_below)

lemma set_obj_emplace_null:
  "set (map fst (obj_emplace_null k ps)) = insert k (set (map fst ps))"
  by (induction k ps rule: obj_emplace_null.induct) auto

lemma sorted_obj_emplace_null:
  "sorted_wrt (<) (map fst ps) \<Longrightarrow> sorted_wrt (<) (map fst (obj_emplace_null k ps))"
proof (induction k ps rule: obj_emplace_null.induct)
  case (2 k a v ps)
  then show ?case
    using set_obj_emplace_null [of k ps] by (auto simp: not_less_iff_gr_or_eq)
qed simp

lemma wf_obj_emplace_null:
  "\<forall>p\<in>set ps. json_wf (snd p) \<Longrightarrow> \<forall>p\<in>set (obj_emplace_null k ps). json_wf (snd p)"
  by (induction k ps rule: obj_emplace_null.induct) auto

lemma obj_find_wf:
  "obj_find ps k = Some v \<Longrightarrow> \<forall>p\<in>set ps. json_wf (snd p) \<Longrightarrow> json_wf v"
  by (induction ps k rule: obj_find.induct) (auto split: if_splits)

text \<open>\<open>operator[]\<close> keeps a well-formed value well formed, and so is the element it returns.\<close>

lemma json_subscript_wf:
  assumes "json_wf j" and "json_subscript j k = Inr (j', v)"
  shows "json_wf j' \<and> json_wf v"
  using assms sorted_obj_emplace_null wf_obj_emplace_null obj_find_wf
  by (auto simp: json_subscript_def split: json.splits option.splits)

lemma json_items_wf:
  "json_wf j \<Longrightarrow> x \<in> set (json_items j) \<Longrightarrow> json_wf x"
  by (cases j) (auto simp: json_items_def)

text \<open>\<open>operator[]\<close> returns the entry of an existing key and leaves the value unchanged.\<close>

lemma json_subscript_found:
  "obj_find ps k = Some v \<Longrightarrow> json_subscript (JObject ps) k = Inr (JObject ps, v)"
  by (simp add: json_subscript_def)

lemma json_subscript_missing:
  "obj_find ps k = None \<Longrightarrow> json_subscript (JObject ps) k = Inr (JObject (obj_emplace_null k ps), JNull)"
  by (simp add: json_subscript_def)

lemma json_get_i32_integer:
  "json_get_i32 (JInteger (scast w)) = Inr (w :: 32 word)"
  by (simp add: json_get_i32_def sint_up_scast is_up)

end
