(* ===== verification/Sprite_Types.thy ===== *)
theory Sprite_Types
  imports Spr_Codec Core_String Core_Parse Json
begin

text \<open>
  The data of the sprite compiler (\<open>sprite.h\<close>, the database types of \<open>diva_db.h\<close>
  and the JSON fields read from the manifest), the environment record through which the
  model sees the file system and the external libraries, the faults that end a run, and
  the library helpers \<open>sprite.cpp\<close> calls (\<open>Util::String::ToLower\<close>,
  \<open>GetLastIndex\<close>, \<open>FindSpriteSetByName\<close>, \<open>strncmp\<close>).
\<close>

section \<open>Data\<close>

record sprite_info =
  si_name :: string
  si_file :: string
  si_internal_id :: u32

record sprite_set_info =
  ss_name :: string
  ss_sprites :: "sprite_info list"

record sprite_data_info =
  sdi_name :: string
  sdi_data_index :: u32
  sdi_id :: u32

record db_set_info =
  dbs_name :: string
  dbs_filename :: string
  dbs_id :: u32
  dbs_textures :: "sprite_data_info list"
  dbs_sprites :: "sprite_data_info list"

type_synonym sprite_database = "db_set_info list"

datatype fault =
    Null_Base_Set_Info
  | Index_Out_Of_Range
  | Bad_String_Length
  | Format_Buffer_Overflow
  | Json_Exception json_error

datatype screen_mode = HDTV1080

datatype markup_flag = SprMarkupFlags_Compress

record spr_markup =
  mk_name :: string
  mk_size :: "u32 \<times> u32"
  mk_pixels :: bytes
  mk_screen_mode :: screen_mode
  mk_flags :: "markup_flag list"

text \<open>
  The fields \<open>ParseSpriteInfo\<close> reads from one sprite and one set of the manifest; the
  internal id is the result of \<open>value("InternalId", -1)\<close>, the default already applied.
\<close>

record json_sprite =
  js_name :: string
  js_file :: string
  js_internal_id :: u32

record json_set =
  jset_name :: string
  jset_sprites :: "json_sprite list"

record env =
  file_exists :: "string \<Rightarrow> bool"
  file_data :: "string \<Rightarrow> bytes"
  read_manifest :: "string \<Rightarrow> bytes option"
  json_parse :: "bytes \<Rightarrow> json option"
  read_image :: "string \<Rightarrow> (u32 \<times> u32) \<times> bytes"
  parse_db :: "bytes \<Rightarrow> sprite_database"
  sprite_packer :: "bool \<Rightarrow> spr_markup list \<Rightarrow> spr_set"

definition base_data_path :: string where
  "base_data_path = ''.''"

definition cumulative_set_names :: "string list" where
  "cumulative_set_names = [''SPR_SEL_PVTMB'']"

definition first_sprite_id :: u32 where
  "first_sprite_id = 85000"

section \<open>Library helpers\<close>

text \<open>\<open>Util::String::ToLower\<close> and \<open>GetLastIndex\<close> (index of the last occurrence, -1 if none).\<close>

definition to_lower :: "string \<Rightarrow> string" where
  "to_lower s = to_lower_copy s"

definition get_last_index :: "string \<Rightarrow> char \<Rightarrow> int" where
  "get_last_index s c =
     (case filter (\<lambda>i. s ! i = c) [0..<length s] of [] \<Rightarrow> -1 | is \<Rightarrow> int (last is))"

text \<open>\<open>Database::SpriteDatabase::FindSpriteSetByName\<close>: the first set of that name, or null.\<close>

definition find_sprite_set_by_name :: "string \<Rightarrow> sprite_database \<Rightarrow> db_set_info option" where
  "find_sprite_set_by_name n db = find (\<lambda>s. dbs_name s = n) db"

text \<open>
  \<open>strncmp(a, b, n) == 0\<close> on the C strings of \<open>a\<close> and \<open>b\<close>: the first \<open>n\<close> characters
  agree, where a C string ends at its first null character.
\<close>

definition c_str :: "string \<Rightarrow> string" where
  "c_str s = takeWhile (\<lambda>c. c \<noteq> CHR 0x00) s @ [CHR 0x00]"

definition strncmp_eq :: "string \<Rightarrow> string \<Rightarrow> nat \<Rightarrow> bool" where
  "strncmp_eq a b n \<longleftrightarrow> take n (c_str a) = take n (c_str b)"

section \<open>Library facts\<close>

lemma strncmp_eq_prefix:
  "CHR 0x00 \<notin> set a \<Longrightarrow> CHR 0x00 \<notin> set b \<Longrightarrow> strncmp_eq a b (length a) \<longleftrightarrow> prefix a b"
proof -
  assume a: "CHR 0x00 \<notin> set a" and b: "CHR 0x00 \<notin> set b"
  then have ca: "c_str a = a @ [CHR 0x00]" and cb: "c_str b = b @ [CHR 0x00]"
    by (auto simp: c_str_def takeWhile_eq_all_conv)
  show ?thesis
  proof (cases "length a \<le> length b")
    case True
    have "prefix a b \<longleftrightarrow> take (length a) b = a"
      by (metis append_eq_conv_conj prefix_def)
    with True show ?thesis by (auto simp: strncmp_eq_def ca cb)
  next
    case False
    then have "take (length a) (b @ [CHR 0x00]) = b @ [CHR 0x00]" by simp
    moreover have "a \<noteq> b @ [CHR 0x00]" using a by auto
    moreover have "\<not> prefix a b" using False prefix_length_le by blast
    ultimately show ?thesis by (simp add: strncmp_eq_def ca cb)
  qed
qed

end
