(* ===== verification/Manifest.thy ===== *)
theory Manifest
  imports Sprite_Types
begin

text \<open>
  \<open>ParseSpriteInfo\<close> (\<open>sprite.cpp\<close> lines 16-50) over the JSON model of \<open>Json\<close>:
  the decoding of each set and sprite of \<open>spr_info.json\<close> with the exceptions the
  library throws, and the routing of each set into the regular or the cumulative list.
  The spec's manifest (a list of sets, each a name and a list of sprites with a name, a
  file and an optional internal id) is \<open>json_set list\<close>; \<open>manifest_json\<close> renders it as
  the JSON document the code expects.
\<close>

section \<open>Parsing the manifest\<close>

text \<open>
  The routing of one decoded set in \<open>ParseSpriteInfo\<close> (lines 30-45): a new entry of the
  cumulative list for each cumulative name matched by \<open>strncmp\<close> over the set name's
  length (only the last is filled), otherwise of the regular list; each sprite's file
  is prefixed with the root folder.
\<close>

definition sprite_info_of_json :: "string \<Rightarrow> json_sprite \<Rightarrow> sprite_info" where
  "sprite_info_of_json root js =
     \<lparr>si_name = js_name js, si_file = root @ ''/'' @ js_file js,
      si_internal_id = js_internal_id js\<rparr>"

definition route_set :: "string \<Rightarrow> json_set \<Rightarrow> sprite_set_info list \<times> sprite_set_info list
    \<Rightarrow> sprite_set_info list \<times> sprite_set_info list" where
  "route_set root js acc =
     (let n = jset_name js;
          hits = length (filter (\<lambda>c. strncmp_eq n c (length n)) cumulative_set_names);
          filled = \<lparr>ss_name = n, ss_sprites = map (sprite_info_of_json root) (jset_sprites js)\<rparr>;
          empty = \<lparr>ss_name = [], ss_sprites = []\<rparr>
      in if hits = 0 then (fst acc @ [filled], snd acc)
         else (fst acc, snd acc @ replicate (hits - 1) empty @ [filled]))"

text \<open>
  The reads of one sprite of \<open>srcSet["Sprites"]\<close> (lines 41-44): \<open>srcSpr["Name"]\<close> and
  \<open>srcSpr["File"]\<close> as strings and \<open>srcSpr.value("InternalId", -1)\<close>.
\<close>

definition decode_sprite_json :: "json \<Rightarrow> json_error + json_sprite" where
  "decode_sprite_json src =
     ebind (json_subscript src ''Name'') (\<lambda>(src1, n). ebind (json_get_string n) (\<lambda>name.
     ebind (json_subscript src1 ''File'') (\<lambda>(src2, f). ebind (json_get_string f) (\<lambda>file.
     ebind (json_value_i32 src2 ''InternalId'' (-1)) (\<lambda>iid.
       Inr \<lparr>js_name = name, js_file = file, js_internal_id = iid\<rparr>)))))"

fun decode_sprites_json :: "json list \<Rightarrow> json_error + json_sprite list" where
  "decode_sprites_json [] = Inr []"
| "decode_sprites_json (src # srcs) =
     ebind (decode_sprite_json src) (\<lambda>js. ebind (decode_sprites_json srcs) (\<lambda>jss. Inr (js # jss)))"

text \<open>
  The reads of one element of \<open>sprInfo["Sets"]\<close> (lines 28-45): \<open>srcSet["Name"]\<close> as a
  string (read again for \<open>setInfo->Name\<close>, line 38, with the same value) and the
  elements of \<open>srcSet["Sprites"]\<close>.  An exception escapes \<open>main\<close> and ends the program,
  so what was appended to the lists before it is not observable.
\<close>

definition decode_set_json :: "json \<Rightarrow> json_error + json_set" where
  "decode_set_json src =
     ebind (json_subscript src ''Name'') (\<lambda>(src1, n). ebind (json_get_string n) (\<lambda>set_name.
     ebind (json_subscript src1 ''Sprites'') (\<lambda>(src2, sprs).
     ebind (decode_sprites_json (json_items sprs)) (\<lambda>jss.
       Inr \<lparr>jset_name = set_name, jset_sprites = jss\<rparr>))))"

text \<open>The loop over \<open>sprInfo["Sets"]\<close> (lines 26-47), each set routed by \<open>route_set\<close>.\<close>

fun parse_sets_json :: "string \<Rightarrow> json list \<Rightarrow> sprite_set_info list \<times> sprite_set_info list
    \<Rightarrow> json_error + sprite_set_info list \<times> sprite_set_info list" where
  "parse_sets_json root [] acc = Inr acc"
| "parse_sets_json root (src # srcs) acc =
     ebind (decode_set_json src) (\<lambda>js. parse_sets_json root srcs (route_set root js acc))"

text \<open>
  \<open>ParseSpriteInfo\<close> (lines 16-50): \<open>IO::File::ReadAllData\<close> (no content: \<open>false\<close>),
  \<open>json::parse\<close> (a parse error throws), then the loop over \<open>sprInfo["Sets"]\<close>.  A
  thrown exception is uncaught and ends the run as a fault.
\<close>

definition parse_sprite_info :: "env \<Rightarrow> string \<Rightarrow> sprite_set_info list \<Rightarrow> sprite_set_info list
    \<Rightarrow> fault + bool \<times> sprite_set_info list \<times> sprite_set_info list" where
  "parse_sprite_info e root data cumulative =
     (case read_manifest e (root @ ''/spr_info.json'') of
        None \<Rightarrow> Inr (False, data, cumulative)
      | Some buf \<Rightarrow>
          (case json_parse e buf of
             None \<Rightarrow> Inl (Json_Exception Parse_Error)
           | Some doc \<Rightarrow>
               (case ebind (json_subscript doc ''Sets'')
                       (\<lambda>(doc1, sets). parse_sets_json root (json_items sets) (data, cumulative)) of
                  Inl err \<Rightarrow> Inl (Json_Exception err)
                | Inr (d, c) \<Rightarrow> Inr (True, d, c))))"

section \<open>The manifest as a JSON document\<close>

text \<open>
  The document a manifest stands for: an object with the key \<open>Sets\<close> holding an array of
  set objects (\<open>Name\<close>, \<open>Sprites\<close>), each sprite an object with \<open>File\<close>, \<open>Name\<close> and,
  unless the id is the default -1, \<open>InternalId\<close> as a JSON integer.  Keys are listed in
  \<open>std::map\<close> order.
\<close>

definition sprite_json :: "json_sprite \<Rightarrow> json" where
  "sprite_json js =
     JObject ([(''File'', JString (js_file js))] @
              (if js_internal_id js = -1 then [] else [(''InternalId'', JInteger (scast (js_internal_id js)))]) @
              [(''Name'', JString (js_name js))])"

definition set_json :: "json_set \<Rightarrow> json" where
  "set_json s = JObject [(''Name'', JString (jset_name s)), (''Sprites'', JArray (map sprite_json (jset_sprites s)))]"

definition manifest_json :: "json_set list \<Rightarrow> json" where
  "manifest_json sets = JObject [(''Sets'', JArray (map set_json sets))]"

section \<open>Decoding a rendered manifest\<close>

lemma decode_sprite_json_render: "decode_sprite_json (sprite_json js) = Inr js"
  by (simp add: decode_sprite_json_def sprite_json_def json_subscript_def json_get_string_def
      json_value_i32_def json_get_i32_integer)

lemma decode_sprites_json_render: "decode_sprites_json (map sprite_json jss) = Inr jss"
  by (induction jss) (simp_all add: decode_sprite_json_render)

lemma decode_set_json_render: "decode_set_json (set_json s) = Inr s"
  by (simp add: decode_set_json_def set_json_def json_subscript_def json_get_string_def json_items_def
      decode_sprites_json_render)

lemma parse_sets_json_render:
  "parse_sets_json root (map set_json sets) acc = Inr (fold (route_set root) sets acc)"
  by (induction sets arbitrary: acc) (simp_all add: decode_set_json_render)

lemma manifest_json_wf: "json_wf (manifest_json sets)"
  by (simp add: manifest_json_def set_json_def sprite_json_def)

text \<open>A document without sets: \<open>sprInfo["Sets"]\<close> is a null value, visited zero times.\<close>

lemma parse_sprite_info_without_sets:
  assumes "read_manifest e (root @ ''/spr_info.json'') = Some buf"
    and "json_parse e buf = Some doc"
    and "doc = JNull \<or> (\<exists>ps. doc = JObject ps \<and> obj_find ps ''Sets'' \<in> {None, Some JNull})"
  shows "parse_sprite_info e root d c = Inr (True, d, c)"
  using assms by (auto simp: parse_sprite_info_def json_subscript_def json_items_def)

text \<open>
  C9. Manifest routing: a set is collected as cumulative exactly when its name is a prefix of
  \<open>SPR_SEL_PVTMB\<close> (so \<open>SPR\<close> or \<open>SPR_SEL\<close> qualify, \<open>SPR_SEL_PVTMB_2\<close> does not);
  every other set is compiled with its own mod.
\<close>

theorem route_set_cumulative_prefix:
  assumes "CHR 0x00 \<notin> set (jset_name js)"
  shows "route_set root js (d, c) =
    (let filled = \<lparr>ss_name = jset_name js, ss_sprites = map (sprite_info_of_json root) (jset_sprites js)\<rparr>
     in if prefix (jset_name js) ''SPR_SEL_PVTMB'' then (d, c @ [filled]) else (d @ [filled], c))"
  using assms by (simp add: route_set_def cumulative_set_names_def strncmp_eq_prefix Let_def)

text \<open>
  C39. Refinement of the manifest routing: on a document that renders a manifest (a well
  formed JSON value), \<open>ParseSpriteInfo\<close> over the JSON library's calls succeeds and its two
  lists are the set-by-set routing of the manifest's sets, every field read back
  (the internal id through \<open>value("InternalId", -1)\<close> and the cast to \<open>int\<close>).
\<close>

theorem parse_sprite_info_refines_routing:
  assumes "read_manifest e (root @ ''/spr_info.json'') = Some buf"
    and "json_parse e buf = Some (manifest_json sets)"
  shows "json_wf (manifest_json sets) \<and>
         parse_sprite_info e root d c = Inr (True, fold (route_set root) sets (d, c))"
  using assms manifest_json_wf
  by (simp add: parse_sprite_info_def manifest_json_def json_subscript_def json_items_def parse_sets_json_render)

end
