(* ===== verification/Sprite_Db.thy ===== *)
theory Sprite_Db
  imports Manifest
begin

text \<open>
  The sprite compiler of \<open>sprite.cpp\<close> and \<open>main.cpp\<close> (its data in \<open>Sprite_Types\<close>,
  \<open>ParseSpriteInfo\<close> in \<open>Manifest\<close>): eligibility of a sprite set,
  packing, database registration with the process-wide id counter \<open>CurrentSpriteId\<close>,
  the merge with base-game data, and the driver loops.  The counter is threaded through
  every operation as a \<open>u32\<close> (it is a \<open>uint32_t\<close> and wraps).  The file system, the
  JSON parser, the image reader, the sprite packer, the database parser and the archive
  packer are external: they are fields of the environment record \<open>env\<close>.  The database
  types (\<open>diva_db.h\<close>) and \<open>Util::String\<close> are not in the repository and follow the
  spec.  Behaviour that is undefined or aborts in C++ (a null dereference, an
  out-of-range \<open>operator[]\<close>, a \<open>size_t\<close> underflow in a string constructor, a
  \<open>sprintf_s\<close> overflow) ends the run with a \<open>fault\<close>.
\<close>

section \<open>The steps of \<open>sprite.cpp\<close>\<close>

text \<open>\<open>CheckSetInfoEligibleForPacking\<close> (lines 52-63).\<close>

definition check_set_info_eligible :: "env \<Rightarrow> sprite_set_info \<Rightarrow> bool" where
  "check_set_info_eligible e si =
     list_all (\<lambda>spr. si_file spr \<noteq> [] \<and> file_exists e (si_file spr)) (ss_sprites si)"

text \<open>\<open>PackSpriteSet\<close> (lines 65-91): one markup per sprite, YCbCr textures disabled.\<close>

definition markup_of :: "env \<Rightarrow> sprite_info \<Rightarrow> spr_markup" where
  "markup_of e spr =
     (case read_image e (si_file spr) of (sz, px) \<Rightarrow>
        \<lparr>mk_name = si_name spr, mk_size = sz, mk_pixels = px,
         mk_screen_mode = HDTV1080, mk_flags = [SprMarkupFlags_Compress]\<rparr>)"

definition pack_sprite_set :: "env \<Rightarrow> sprite_set_info \<Rightarrow> spr_set" where
  "pack_sprite_set e si = sprite_packer e False (map (markup_of e) (ss_sprites si))"

text \<open>\<open>GetSpriteIndex\<close> (lines 93-104): the first sprite whose name the query prefixes.\<close>

fun sprite_index_from :: "nat \<Rightarrow> sprite list \<Rightarrow> string \<Rightarrow> u32" where
  "sprite_index_from idx [] name = -1"
| "sprite_index_from idx (s # ss) name =
     (if strncmp_eq name (spr_name s) (length name) then of_nat idx
      else sprite_index_from (Suc idx) ss name)"

definition get_sprite_index :: "spr_set \<Rightarrow> string \<Rightarrow> u32" where
  "get_sprite_index sp name = sprite_index_from 0 (sprites sp) name"

text \<open>
  \<open>GetTextureNameWithNewIndex\<close> (lines 106-113): the name up to its last underscore,
  then \<open>_\<close> and the index in \<open>%03zu\<close>, through a 256-byte \<open>sprintf_s\<close> buffer.  With no
  underscore the length -1 becomes \<open>SIZE_MAX\<close> in the string constructor.
\<close>

definition get_texture_name_with_new_index :: "string \<Rightarrow> nat \<Rightarrow> fault + string" where
  "get_texture_name_with_new_index org new_index =
     (let last_und = get_last_index org (CHR ''_'') in
      if last_und < 0 then Inl Bad_String_Length
      else
        (let stripped = take (nat last_und) org;
             out = takeWhile (\<lambda>c. c \<noteq> CHR 0x00) stripped @ ''_'' @ format_03zu new_index
         in if 0x100 \<le> Suc (length out) then Inl Format_Buffer_Overflow else Inr out))"

section \<open>Merging base-game data\<close>

text \<open>The loop over the base textures of \<open>MergeBaseSpriteData\<close> (lines 132-151).\<close>

fun merge_base_textures :: "nat \<Rightarrow> nat \<Rightarrow> tex list \<Rightarrow> sprite_data_info list \<Rightarrow> spr_set
    \<Rightarrow> db_set_info \<Rightarrow> u32 \<Rightarrow> fault + (spr_set \<times> db_set_info \<times> u32)" where
  "merge_base_textures idx tex_num [] base_infos sp info cur = Inr (sp, info, cur)"
| "merge_base_textures idx tex_num (t # ts) base_infos sp info cur =
     (case get_texture_name_with_new_index (tex_name t) (tex_num + idx) of
        Inl f \<Rightarrow> Inl f
      | Inr new_name \<Rightarrow>
          (let sp1 = sp\<lparr>tex_set := tex_set sp @
                 [tex_default\<lparr>tex_name := new_name, mip_maps_array := mip_maps_array t\<rparr>]\<rparr>
           in if length base_infos \<le> idx then Inl Index_Out_Of_Range
              else
                (case get_texture_name_with_new_index (sdi_name (base_infos ! idx)) (tex_num + idx) of
                   Inl f \<Rightarrow> Inl f
                 | Inr info_name \<Rightarrow>
                     merge_base_textures (Suc idx) tex_num ts base_infos sp1
                       (info\<lparr>dbs_textures := dbs_textures info @
                          [\<lparr>sdi_name = info_name, sdi_data_index = of_nat (tex_num + idx), sdi_id = cur\<rparr>]\<rparr>)
                       (cur + 1))))"

text \<open>\<open>newSpr.TextureIndex += texNum\<close> (line 162), wrapping at 32 bits.\<close>

definition shift_texture_index :: "nat \<Rightarrow> sprite \<Rightarrow> sprite" where
  "shift_texture_index tex_num s = s\<lparr>texture_index := texture_index s + of_nat tex_num\<rparr>"

text \<open>The loop over the base sprites (lines 154-172).\<close>

fun merge_base_sprites :: "nat \<Rightarrow> nat \<Rightarrow> nat \<Rightarrow> sprite list \<Rightarrow> sprite_data_info list \<Rightarrow> spr_set
    \<Rightarrow> db_set_info \<Rightarrow> u32 \<Rightarrow> fault + (spr_set \<times> db_set_info \<times> u32)" where
  "merge_base_sprites idx tex_num spr_num [] base_infos sp info cur = Inr (sp, info, cur)"
| "merge_base_sprites idx tex_num spr_num (s # ss) base_infos sp info cur =
     (let sp1 = sp\<lparr>sprites := sprites sp @ [shift_texture_index tex_num s]\<rparr>
      in if length base_infos \<le> idx then Inl Index_Out_Of_Range
         else merge_base_sprites (Suc idx) tex_num spr_num ss base_infos sp1
                (info\<lparr>dbs_sprites := dbs_sprites info @
                   [\<lparr>sdi_name = sdi_name (base_infos ! idx),
                     sdi_data_index = of_nat (spr_num + idx), sdi_id = cur\<rparr>]\<rparr>)
                (cur + 1))"

definition base_spr_set_path :: "string \<Rightarrow> string" where
  "base_spr_set_path n = base_data_path @ ''/base_'' @ to_lower n @ ''.bin''"

definition base_spr_db_path :: string where
  "base_spr_db_path = base_data_path @ ''/base_spr_db.bin''"

text \<open>
  \<open>MergeBaseSpriteData\<close> (lines 115-175).  \<open>LoadFile\<close> ignores the result of
  \<open>SprSet::Read\<close>; a set name absent from the base database is a null dereference.
\<close>

definition merge_base_sprite_data :: "env \<Rightarrow> spr_set \<Rightarrow> db_set_info \<Rightarrow> u32
    \<Rightarrow> fault + (bool \<times> spr_set \<times> db_set_info \<times> u32)" where
  "merge_base_sprite_data e sp info cur =
     (if \<not> file_exists e (base_spr_set_path (dbs_name info)) \<or> \<not> file_exists e base_spr_db_path
      then Inr (False, sp, info, cur)
      else
        (let base_spr = load_spr_set (file_data e (base_spr_set_path (dbs_name info)));
             base_db = parse_db e (file_data e base_spr_db_path)
         in case find_sprite_set_by_name (dbs_name info) base_db of
              None \<Rightarrow> Inl Null_Base_Set_Info
            | Some b \<Rightarrow>
                (let info1 = info\<lparr>dbs_id := dbs_id b\<rparr>; tex_num = length (tex_set sp)
                 in case merge_base_textures 0 tex_num (tex_set base_spr) (dbs_textures b) sp info1 cur of
                      Inl f \<Rightarrow> Inl f
                    | Inr (sp2, info2, cur2) \<Rightarrow>
                        (case merge_base_sprites 0 tex_num (length (sprites sp2)) (sprites base_spr)
                                (dbs_sprites b) sp2 info2 cur2 of
                           Inl f \<Rightarrow> Inl f
                         | Inr (sp3, info3, cur3) \<Rightarrow> Inr (True, sp3, info3, cur3)))))"

section \<open>Registration and the driver\<close>

text \<open>The sprite entries of a freshly packed set (lines 198-204).\<close>

fun register_sprites :: "string \<Rightarrow> spr_set \<Rightarrow> sprite_info list \<Rightarrow> u32
    \<Rightarrow> sprite_data_info list \<times> u32" where
  "register_sprites set_name sp [] cur = ([], cur)"
| "register_sprites set_name sp (si # sis) cur =
     (case register_sprites set_name sp sis (cur + 1) of
        (es, cur') \<Rightarrow>
          (\<lparr>sdi_name = set_name @ ''_'' @ si_name si,
            sdi_data_index = get_sprite_index sp (si_name si), sdi_id = cur\<rparr> # es, cur'))"

text \<open>The texture entries (lines 206-216); the set name loses its 4-character prefix.\<close>

fun register_textures :: "string \<Rightarrow> nat \<Rightarrow> tex list \<Rightarrow> u32
    \<Rightarrow> fault + sprite_data_info list \<times> u32" where
  "register_textures set_name idx [] cur = Inr ([], cur)"
| "register_textures set_name idx (t # ts) cur =
     (let name = (if tex_name t \<noteq> [] then tex_name t else ''MERGE_NOCOMP_0'')
      in if length set_name < 4 then Inl Bad_String_Length
         else (case register_textures set_name (Suc idx) ts (cur + 1) of
                 Inl f \<Rightarrow> Inl f
               | Inr (es, cur') \<Rightarrow>
                   Inr (\<lparr>sdi_name = ''SPRTEX_'' @ drop 4 set_name @ ''_'' @ name,
                         sdi_data_index = of_nat idx, sdi_id = cur\<rparr> # es, cur')))"

text \<open>The state the driver threads: the id counter, the database being built, the archives written.\<close>

record compile_state =
  cs_id :: u32
  cs_db :: sprite_database
  cs_farcs :: "(string \<times> string \<times> bytes) list"

text \<open>One iteration of the loop of \<open>CompileSpriteSetsWithDB\<close> (lines 181-234).\<close>

definition compile_set :: "env \<Rightarrow> string \<Rightarrow> sprite_set_info \<Rightarrow> compile_state \<Rightarrow> fault + compile_state" where
  "compile_set e out si st =
     (if \<not> check_set_info_eligible e si then Inr st
      else
        (let sp = pack_sprite_set e si;
             info0 = \<lparr>dbs_name = ss_name si, dbs_filename = to_lower (ss_name si) @ ''.bin'',
                      dbs_id = cs_id st, dbs_textures = [], dbs_sprites = []\<rparr>
         in case register_sprites (ss_name si) sp (ss_sprites si) (cs_id st + 1) of
              (spr_entries, c1) \<Rightarrow>
                (case register_textures (ss_name si) 0 (tex_set sp) c1 of
                   Inl f \<Rightarrow> Inl f
                 | Inr (tex_entries, c2) \<Rightarrow>
                     (case merge_base_sprite_data e sp
                             (info0\<lparr>dbs_textures := tex_entries, dbs_sprites := spr_entries\<rparr>) c2 of
                        Inl f \<Rightarrow> Inl f
                      | Inr (merged, sp', info', c3) \<Rightarrow>
                          Inr \<lparr>cs_id = c3, cs_db = cs_db st @ [info'],
                               cs_farcs = cs_farcs st @
                                 [(out @ ''/'' @ to_lower (ss_name si) @ ''.farc'',
                                   to_lower (ss_name si) @ ''.bin'', spr_set_encode sp')]\<rparr>))))"

fun compile_sets :: "env \<Rightarrow> string \<Rightarrow> sprite_set_info list \<Rightarrow> compile_state \<Rightarrow> fault + compile_state" where
  "compile_sets e out [] st = Inr st"
| "compile_sets e out (si # sis) st =
     (case compile_set e out si st of Inl f \<Rightarrow> Inl f | Inr st' \<Rightarrow> compile_sets e out sis st')"

text \<open>
  \<open>CompileSpriteSetsWithDB\<close> (lines 177-240): a fresh database per call, the counter
  carried in and out; the database is written to \<open>mod_spr_db.bin\<close> in the output folder.
\<close>

definition compile_sprite_sets_with_db :: "env \<Rightarrow> string \<Rightarrow> sprite_set_info list \<Rightarrow> u32
    \<Rightarrow> fault + compile_state" where
  "compile_sprite_sets_with_db e out sets cur =
     compile_sets e out sets \<lparr>cs_id = cur, cs_db = [], cs_farcs = []\<rparr>"

text \<open>\<open>CompileSpriteData\<close> (lines 242-250): parse, then compile the non-cumulative sets.\<close>

definition compile_sprite_data :: "env \<Rightarrow> string \<Rightarrow> string \<Rightarrow> sprite_set_info list \<Rightarrow> u32
    \<Rightarrow> fault + bool \<times> sprite_set_info list \<times> u32 \<times> compile_state option" where
  "compile_sprite_data e root out cumulative cur =
     (case parse_sprite_info e root [] cumulative of
        Inl f \<Rightarrow> Inl f
      | Inr (False, _, cumulative') \<Rightarrow> Inr (False, cumulative', cur, None)
      | Inr (True, sets, cumulative') \<Rightarrow>
          (case compile_sprite_sets_with_db e out sets cur of
             Inl f \<Rightarrow> Inl f
           | Inr st \<Rightarrow> Inr (True, cumulative', cs_id st, Some st)))"

section \<open>The program: \<open>main.cpp\<close>\<close>

definition mods_folder :: string where
  "mods_folder = ''./mods_102''"

definition source_folder :: string where
  "source_folder = ''rom_src''"

text \<open>
  The enumeration of \<open>ModsFolder\<close> (lines 13-20): the entries of the directory iterator,
  each a path and whether it is a directory, in iteration order; entries that are not
  directories are skipped.
\<close>

definition mod_directories :: "(string \<times> bool) list \<Rightarrow> string list" where
  "mod_directories entries = map fst (filter snd entries)"

text \<open>
  The loop over the mod directories (lines 23-32): each mod's sprite data is compiled
  into its own \<open>rom/2d\<close>, cumulative sets are collected across mods; the result of
  \<open>CompileSpriteData\<close> is ignored.  The outputs are the compile states per folder.
\<close>

fun compile_mods :: "env \<Rightarrow> string list \<Rightarrow> sprite_set_info list \<Rightarrow> u32
    \<Rightarrow> fault + sprite_set_info list \<times> u32 \<times> (string \<times> compile_state) list" where
  "compile_mods e [] cumulative cur = Inr (cumulative, cur, [])"
| "compile_mods e (m # ms) cumulative cur =
     (let out = m @ ''/rom/2d'' in
      case compile_sprite_data e (m @ ''/'' @ source_folder @ ''/2d'') out cumulative cur of
        Inl f \<Rightarrow> Inl f
      | Inr (ok, cumulative', cur', st) \<Rightarrow>
          (case compile_mods e ms cumulative' cur' of
             Inl f \<Rightarrow> Inl f
           | Inr (cumulative'', cur'', outs) \<Rightarrow>
               Inr (cumulative'', cur'',
                    (case st of None \<Rightarrow> outs | Some s \<Rightarrow> (out, s) # outs))))"

text \<open>The rest of \<open>main\<close> (lines 22-41) on the list of mod directories, the counter at 85000.\<close>

definition main_run :: "env \<Rightarrow> string list \<Rightarrow> fault + u32 \<times> (string \<times> compile_state) list" where
  "main_run e mods =
     (case compile_mods e mods [] first_sprite_id of
        Inl f \<Rightarrow> Inl f
      | Inr (cumulative, cur, outs) \<Rightarrow>
          (let priority = mods_folder @ ''/AAA - MERGER PRIORITY/rom/2d'' in
           case compile_sprite_sets_with_db e priority cumulative cur of
             Inl f \<Rightarrow> Inl f
           | Inr st \<Rightarrow> Inr (cs_id st, outs @ [(priority, st)])))"

text \<open>\<open>main\<close> (lines 11-41) on the entries of \<open>ModsFolder\<close>.\<close>

definition main_program :: "env \<Rightarrow> (string \<times> bool) list \<Rightarrow> fault + u32 \<times> (string \<times> compile_state) list" where
  "main_program e entries = main_run e (mod_directories entries)"

section \<open>Library facts\<close>

lemma sprite_index_from_takeWhile:
  "sprite_index_from idx ss name =
     (let j = length (takeWhile (\<lambda>s. \<not> strncmp_eq name (spr_name s) (length name)) ss)
      in if j < length ss then of_nat (idx + j) else -1)"
  by (induction ss arbitrary: idx) (auto simp: Let_def)


lemma format_03zu_digits:
  assumes "n < 1000"
  shows "format_03zu n = [digit_char (n div 100), digit_char (n div 10 mod 10), digit_char (n mod 10)]"
proof -
  have zero: "digit_char 0 = CHR ''0''" by (simp add: digit_char_def)
  consider "n < 10" | "10 \<le> n \<and> n < 100" | "100 \<le> n" by fastforce
  then show ?thesis
  proof cases
    case 1
    then show ?thesis by (simp add: format_03zu_def dec_digits.simps [of n] zero numeral_2_eq_2)
  next
    case 2
    then have "n div 10 < 10" by auto
    with 2 show ?thesis
      by (simp add: format_03zu_def dec_digits.simps [of n] dec_digits.simps [of "n div 10"] zero)
  next
    case 3
    then have "10 \<le> n div 10" "n div 10 div 10 < 10" using assms by auto
    with 3 show ?thesis
      by (simp add: format_03zu_def dec_digits.simps [of n] dec_digits.simps [of "n div 10"]
            dec_digits.simps [of "n div 100"] div_mult2_eq [symmetric])
  qed
qed

lemma get_last_index_last:
  assumes "i < length s" and "s ! i = c" and "c \<notin> set (drop (Suc i) s)"
  shows "get_last_index s c = int i"
proof -
  have split: "[0..<length s] = [0..<Suc i] @ [Suc i..<length s]"
    using assms(1) by (metis Suc_leI le_add_diff_inverse upt_add_eq_append zero_le)
  have none: "filter (\<lambda>j. s ! j = c) [Suc i..<length s] = []"
  proof (rule filter_False, rule ballI)
    fix j assume "j \<in> set [Suc i..<length s]"
    then have "s ! j \<in> set (drop (Suc i) s)"
      by (auto simp: in_set_conv_nth intro!: exI [of _ "j - Suc i"])
    with assms(3) show "s ! j \<noteq> c" by auto
  qed
  have "filter (\<lambda>j. s ! j = c) [0..<length s] = filter (\<lambda>j. s ! j = c) [0..<i] @ [i]"
    using assms(2) by (simp add: split none)
  then show ?thesis
    by (simp add: get_last_index_def list.case_eq_if)
qed

section \<open>Properties of the merge\<close>

text \<open>
  The two loops of \<open>MergeBaseSpriteData\<close> characterised exactly: what they append to the
  sprite set and to the database entry, which ids they take, and when they fault.
\<close>

lemma shift_texture_index_eq:
  "shift_texture_index tn = (\<lambda>s. s\<lparr>texture_index := texture_index s + of_nat tn\<rparr>)"
  by (simp add: fun_eq_iff shift_texture_index_def)

lemma merge_base_sprites_Inr:
  "idx + length ss \<le> length infos \<Longrightarrow>
   merge_base_sprites idx tn sn ss infos sp info cur =
     Inr (sp\<lparr>sprites := sprites sp @ map (shift_texture_index tn) ss\<rparr>,
          info\<lparr>dbs_sprites := dbs_sprites info @
             map (\<lambda>k. \<lparr>sdi_name = sdi_name (infos ! (idx + k)), sdi_data_index = of_nat (sn + idx + k),
                       sdi_id = cur + of_nat k\<rparr>) [0..<length ss]\<rparr>,
          cur + of_nat (length ss))"
proof (induction ss arbitrary: idx sp info cur)
  case Nil
  then show ?case by simp
next
  case (Cons s ss)
  have "Suc idx + length ss \<le> length infos" using Cons.prems by simp
  note IH = Cons.IH [OF this]
  show ?case
    using Cons.prems
    by (simp add: IH shift_texture_index_def upt_conv_Cons map_Suc_upt [symmetric] del: upt_Suc)
qed

lemma merge_base_sprites_fault:
  "idx \<le> length infos \<Longrightarrow> length infos < idx + length ss \<Longrightarrow>
   merge_base_sprites idx tn sn ss infos sp info cur = Inl Index_Out_Of_Range"
  by (induction ss arbitrary: idx sp info cur) (auto simp: Suc_le_eq)

lemma merge_base_textures_Inr:
  assumes "idx \<le> length infos" and "merge_base_textures idx tn ts infos sp info cur = Inr r"
  shows "\<exists>names info_names.
     length names = length ts \<and> length info_names = length ts \<and> idx + length ts \<le> length infos \<and>
     (\<forall>k < length ts.
        get_texture_name_with_new_index (tex_name (ts ! k)) (tn + idx + k) = Inr (names ! k) \<and>
        get_texture_name_with_new_index (sdi_name (infos ! (idx + k))) (tn + idx + k) = Inr (info_names ! k)) \<and>
     r = (sp\<lparr>tex_set := tex_set sp @
            map (\<lambda>(t, n). tex_default\<lparr>tex_name := n, mip_maps_array := mip_maps_array t\<rparr>) (zip ts names)\<rparr>,
          info\<lparr>dbs_textures := dbs_textures info @
            map (\<lambda>k. \<lparr>sdi_name = info_names ! k, sdi_data_index = of_nat (tn + idx + k),
                      sdi_id = cur + of_nat k\<rparr>) [0..<length ts]\<rparr>,
          cur + of_nat (length ts))"
  using assms
proof (induction ts arbitrary: idx sp info cur)
  case Nil
  then show ?case by simp
next
  case (Cons t ts)
  from Cons.prems obtain n n' where
    n: "get_texture_name_with_new_index (tex_name t) (tn + idx) = Inr n" and
    len: "idx < length infos" and
    n': "get_texture_name_with_new_index (sdi_name (infos ! idx)) (tn + idx) = Inr n'" and
    rest: "merge_base_textures (Suc idx) tn ts infos
             (sp\<lparr>tex_set := tex_set sp @ [tex_default\<lparr>tex_name := n, mip_maps_array := mip_maps_array t\<rparr>]\<rparr>)
             (info\<lparr>dbs_textures := dbs_textures info @
                [\<lparr>sdi_name = n', sdi_data_index = of_nat (tn + idx), sdi_id = cur\<rparr>]\<rparr>)
             (cur + 1) = Inr r"
    by (auto split: sum.splits if_splits)
  from Cons.IH [OF _ rest] len obtain names info_names where
    IH: "length names = length ts" "length info_names = length ts" "Suc idx + length ts \<le> length infos"
        "\<forall>k < length ts.
           get_texture_name_with_new_index (tex_name (ts ! k)) (tn + Suc idx + k) = Inr (names ! k) \<and>
           get_texture_name_with_new_index (sdi_name (infos ! (Suc idx + k))) (tn + Suc idx + k) = Inr (info_names ! k)"
        "r = (sp\<lparr>tex_set := (tex_set sp @ [tex_default\<lparr>tex_name := n, mip_maps_array := mip_maps_array t\<rparr>]) @
            map (\<lambda>(t, n). tex_default\<lparr>tex_name := n, mip_maps_array := mip_maps_array t\<rparr>) (zip ts names)\<rparr>,
          info\<lparr>dbs_textures := (dbs_textures info @
                [\<lparr>sdi_name = n', sdi_data_index = of_nat (tn + idx), sdi_id = cur\<rparr>]) @
            map (\<lambda>k. \<lparr>sdi_name = info_names ! k, sdi_data_index = of_nat (tn + Suc idx + k),
                      sdi_id = (cur + 1) + of_nat k\<rparr>) [0..<length ts]\<rparr>,
          (cur + 1) + of_nat (length ts))"
    by auto
  show ?case
  proof (intro exI conjI)
    show "length (n # names) = length (t # ts)" and "length (n' # info_names) = length (t # ts)"
      and "idx + length (t # ts) \<le> length infos"
      using IH by simp_all
    show "\<forall>k < length (t # ts).
        get_texture_name_with_new_index (tex_name ((t # ts) ! k)) (tn + idx + k) = Inr ((n # names) ! k) \<and>
        get_texture_name_with_new_index (sdi_name (infos ! (idx + k))) (tn + idx + k) = Inr ((n' # info_names) ! k)"
      using IH(4) n n' by (auto simp: nth_Cons split: nat.splits)
    show "r = (sp\<lparr>tex_set := tex_set sp @
            map (\<lambda>(t, n). tex_default\<lparr>tex_name := n, mip_maps_array := mip_maps_array t\<rparr>) (zip (t # ts) (n # names))\<rparr>,
          info\<lparr>dbs_textures := dbs_textures info @
            map (\<lambda>k. \<lparr>sdi_name = (n' # info_names) ! k, sdi_data_index = of_nat (tn + idx + k),
                      sdi_id = cur + of_nat k\<rparr>) [0..<length (t # ts)]\<rparr>,
          cur + of_nat (length (t # ts)))"
      using IH(5) by (simp add: upt_conv_Cons map_Suc_upt [symmetric] del: upt_Suc)
  qed
qed

lemma merge_base_sprites_Inr_iff:
  assumes "merge_base_sprites 0 tn sn ss infos sp info cur = Inr r"
  shows "length ss \<le> length infos"
  using merge_base_sprites_fault [of 0 infos ss tn sn sp info cur] assms by fastforce

lemma merge_base_textures_sprites:
  assumes "idx \<le> length infos" and "merge_base_textures idx tn ts infos sp info cur = Inr (sp', info', cur')"
  shows "sprites sp' = sprites sp"
  using merge_base_textures_Inr [OF assms] by auto

lemma merge_base_sprite_data_TrueE:
  assumes "merge_base_sprite_data e sp info cur = Inr (True, sp', info', cur')"
  obtains b sp2 info2 cur2 where
    "find_sprite_set_by_name (dbs_name info) (parse_db e (file_data e base_spr_db_path)) = Some b"
    "merge_base_textures 0 (length (tex_set sp))
        (tex_set (load_spr_set (file_data e (base_spr_set_path (dbs_name info))))) (dbs_textures b) sp
        (info\<lparr>dbs_id := dbs_id b\<rparr>) cur = Inr (sp2, info2, cur2)"
    "merge_base_sprites 0 (length (tex_set sp)) (length (sprites sp2))
        (sprites (load_spr_set (file_data e (base_spr_set_path (dbs_name info))))) (dbs_sprites b) sp2 info2 cur2
       = Inr (sp', info', cur')"
  using assms unfolding merge_base_sprite_data_def
  by (auto simp: Let_def split: if_splits option.splits sum.splits prod.splits)


text \<open>
  C3. Merge index shift: after a merge, the sprite list is the freshly packed sprites,
  unchanged and first, followed by the base set's sprites in base order, each with its
  texture index shifted by the number of freshly packed textures (a 32-bit addition, as
  \<open>TextureIndex += texNum\<close> is).
\<close>

theorem merge_shifts_base_sprites:
  assumes "merge_base_sprite_data e sp info cur = Inr (True, sp', info', cur')"
  shows "sprites sp' = sprites sp @
           map (\<lambda>s. s\<lparr>texture_index := texture_index s + of_nat (length (tex_set sp))\<rparr>)
           (sprites (load_spr_set (file_data e (base_spr_set_path (dbs_name info)))))"
proof -
  let ?base = "load_spr_set (file_data e (base_spr_set_path (dbs_name info)))"
  from assms obtain b sp2 info2 cur2 where
    b: "find_sprite_set_by_name (dbs_name info) (parse_db e (file_data e base_spr_db_path)) = Some b" and
    tex: "merge_base_textures 0 (length (tex_set sp)) (tex_set ?base) (dbs_textures b) sp
            (info\<lparr>dbs_id := dbs_id b\<rparr>) cur = Inr (sp2, info2, cur2)" and
    spr: "merge_base_sprites 0 (length (tex_set sp)) (length (sprites sp2)) (sprites ?base)
            (dbs_sprites b) sp2 info2 cur2 = Inr (sp', info', cur')"
    unfolding merge_base_sprite_data_def
    by (auto simp: Let_def split: if_splits option.splits sum.splits prod.splits)
  have "sprites sp2 = sprites sp"
    using tex by (rule merge_base_textures_sprites [rotated]) simp
  moreover have "length (sprites ?base) \<le> length (dbs_sprites b)"
    using spr by (rule merge_base_sprites_Inr_iff)
  ultimately show ?thesis
    using spr by (auto simp: merge_base_sprites_Inr shift_texture_index_eq)
qed
text \<open>
  C4. Merge of base textures: after a merge, the texture set is the freshly packed textures,
  unchanged and first, followed by one new texture per base texture, in base order, that
  carries the base texture's mipmaps and the name \<open>GetTextureNameWithNewIndex\<close> gives it
  for its new position.
\<close>

theorem merge_appends_renamed_textures:
  assumes "merge_base_sprite_data e sp info cur = Inr (True, sp', info', cur')"
  shows "\<exists>names. length names = length (tex_set (load_spr_set (file_data e (base_spr_set_path (dbs_name info))))) \<and>
           tex_set sp' = tex_set sp @
             map (\<lambda>(t, n). tex_default\<lparr>tex_name := n, mip_maps_array := mip_maps_array t\<rparr>)
               (zip (tex_set (load_spr_set (file_data e (base_spr_set_path (dbs_name info))))) names) \<and>
           (\<forall>k < length (tex_set (load_spr_set (file_data e (base_spr_set_path (dbs_name info))))).
              get_texture_name_with_new_index
                (tex_name (tex_set (load_spr_set (file_data e (base_spr_set_path (dbs_name info)))) ! k))
                (length (tex_set sp) + k) = Inr (names ! k))"
proof -
  obtain b sp2 info2 cur2 where
    "find_sprite_set_by_name (dbs_name info) (parse_db e (file_data e base_spr_db_path)) = Some b" and
    tex: "merge_base_textures 0 (length (tex_set sp))
        (tex_set (load_spr_set (file_data e (base_spr_set_path (dbs_name info))))) (dbs_textures b) sp
        (info\<lparr>dbs_id := dbs_id b\<rparr>) cur = Inr (sp2, info2, cur2)" and
    spr: "merge_base_sprites 0 (length (tex_set sp)) (length (sprites sp2))
        (sprites (load_spr_set (file_data e (base_spr_set_path (dbs_name info))))) (dbs_sprites b) sp2 info2 cur2
       = Inr (sp', info', cur')"
    by (rule merge_base_sprite_data_TrueE [OF assms])
  have "tex_set sp' = tex_set sp2"
    using spr merge_base_sprites_Inr_iff [OF spr] by (auto simp: merge_base_sprites_Inr)
  with merge_base_textures_Inr [OF _ tex] show ?thesis by fastforce
qed


text \<open>
  C5. Index stability of the merged database entries: each sprite or texture entry the merge
  appends has the data index of the merged element it describes, and that element is the
  corresponding base sprite (index-shifted) or base texture (same mipmaps).
\<close>

theorem merge_entries_index_merged_data:
  assumes "merge_base_sprite_data e sp info cur = Inr (True, sp', info', cur')"
  defines "base \<equiv> load_spr_set (file_data e (base_spr_set_path (dbs_name info)))"
  shows "length (dbs_sprites info') = length (dbs_sprites info) + length (sprites base) \<and>
    (\<forall>k < length (sprites base).
       sdi_data_index (dbs_sprites info' ! (length (dbs_sprites info) + k)) = of_nat (length (sprites sp) + k) \<and>
       sprites sp' ! (length (sprites sp) + k) =
         (sprites base ! k)\<lparr>texture_index := texture_index (sprites base ! k) + of_nat (length (tex_set sp))\<rparr>) \<and>
    length (dbs_textures info') = length (dbs_textures info) + length (tex_set base) \<and>
    (\<forall>k < length (tex_set base).
       sdi_data_index (dbs_textures info' ! (length (dbs_textures info) + k)) = of_nat (length (tex_set sp) + k) \<and>
       mip_maps_array (tex_set sp' ! (length (tex_set sp) + k)) = mip_maps_array (tex_set base ! k))"
proof -
  obtain b sp2 info2 cur2 where
    "find_sprite_set_by_name (dbs_name info) (parse_db e (file_data e base_spr_db_path)) = Some b" and
    tex: "merge_base_textures 0 (length (tex_set sp)) (tex_set base) (dbs_textures b) sp
        (info\<lparr>dbs_id := dbs_id b\<rparr>) cur = Inr (sp2, info2, cur2)" and
    spr: "merge_base_sprites 0 (length (tex_set sp)) (length (sprites sp2)) (sprites base) (dbs_sprites b)
        sp2 info2 cur2 = Inr (sp', info', cur')"
    unfolding base_def by (rule merge_base_sprite_data_TrueE [OF assms(1)])
  obtain names info_names where
    lens: "length names = length (tex_set base)" "length info_names = length (tex_set base)" and
    r: "(sp2, info2, cur2) = (sp\<lparr>tex_set := tex_set sp @
            map (\<lambda>(t, n). tex_default\<lparr>tex_name := n, mip_maps_array := mip_maps_array t\<rparr>) (zip (tex_set base) names)\<rparr>,
          info\<lparr>dbs_id := dbs_id b, dbs_textures := dbs_textures info @
            map (\<lambda>k. \<lparr>sdi_name = info_names ! k, sdi_data_index = of_nat (length (tex_set sp) + k),
                      sdi_id = cur + of_nat k\<rparr>) [0..<length (tex_set base)]\<rparr>,
          cur + of_nat (length (tex_set base)))"
    using merge_base_textures_Inr [OF _ tex] by fastforce
  have fits: "length (sprites base) \<le> length (dbs_sprites b)"
    using spr by (rule merge_base_sprites_Inr_iff)
  have sp': "sp' = sp2\<lparr>sprites := sprites sp2 @ map (shift_texture_index (length (tex_set sp))) (sprites base)\<rparr>"
    and info': "info' = info2\<lparr>dbs_sprites := dbs_sprites info2 @
             map (\<lambda>k. \<lparr>sdi_name = sdi_name (dbs_sprites b ! k), sdi_data_index = of_nat (length (sprites sp2) + k),
                       sdi_id = cur2 + of_nat k\<rparr>) [0..<length (sprites base)]\<rparr>"
    using spr fits by (simp_all add: merge_base_sprites_Inr)
  show ?thesis
    using r lens by (auto simp: sp' info' nth_append shift_texture_index_def)
qed

section \<open>Properties of registration\<close>

lemma register_sprites_ids:
  "register_sprites n sp sis cur = (es, cur') \<Longrightarrow>
   length es = length sis \<and> map sdi_id es = map (\<lambda>k. cur + of_nat k) [0..<length sis] \<and>
   cur' = cur + of_nat (length sis)"
proof (induction sis arbitrary: cur es)
  case Nil
  then show ?case by simp
next
  case (Cons si sis)
  then obtain es' where es': "register_sprites n sp sis (cur + 1) = (es', cur')"
    and es: "es = \<lparr>sdi_name = n @ ''_'' @ si_name si, sdi_data_index = get_sprite_index sp (si_name si),
                    sdi_id = cur\<rparr> # es'"
    by (auto split: prod.splits)
  from Cons.IH [OF es'] show ?case
    by (simp add: es upt_conv_Cons map_Suc_upt [symmetric] del: upt_Suc)
qed

lemma register_textures_ids:
  "register_textures n idx ts cur = Inr (es, cur') \<Longrightarrow>
   length es = length ts \<and> map sdi_id es = map (\<lambda>k. cur + of_nat k) [0..<length ts] \<and>
   map sdi_data_index es = map (\<lambda>k. of_nat (idx + k)) [0..<length ts] \<and>
   cur' = cur + of_nat (length ts)"
proof (induction ts arbitrary: idx cur es)
  case Nil
  then show ?case by simp
next
  case (Cons t ts)
  then obtain es' where es': "register_textures n (Suc idx) ts (cur + 1) = Inr (es', cur')"
    and es: "es = \<lparr>sdi_name = ''SPRTEX_'' @ drop 4 n @ ''_'' @ (if tex_name t \<noteq> [] then tex_name t else ''MERGE_NOCOMP_0''),
                    sdi_data_index = of_nat idx, sdi_id = cur\<rparr> # es'"
    by (auto simp: Let_def split: if_splits sum.splits prod.splits)
  from Cons.IH [OF es'] show ?case
    by (simp add: es upt_conv_Cons map_Suc_upt [symmetric] del: upt_Suc)
qed

lemma register_textures_fault:
  "register_textures n idx ts cur = Inl f \<longleftrightarrow> ts \<noteq> [] \<and> length n < 4 \<and> f = Bad_String_Length"
  by (induction ts arbitrary: idx cur) (auto simp: Let_def split: sum.splits prod.splits)

lemma merge_base_sprite_data_name:
  assumes "merge_base_sprite_data e sp info cur = Inr (m, sp', info', cur')"
  shows "dbs_name info' = dbs_name info"
proof (cases m)
  case True
  obtain b sp2 info2 cur2 where
    "find_sprite_set_by_name (dbs_name info) (parse_db e (file_data e base_spr_db_path)) = Some b" and
    tex: "merge_base_textures 0 (length (tex_set sp))
        (tex_set (load_spr_set (file_data e (base_spr_set_path (dbs_name info))))) (dbs_textures b) sp
        (info\<lparr>dbs_id := dbs_id b\<rparr>) cur = Inr (sp2, info2, cur2)" and
    spr: "merge_base_sprites 0 (length (tex_set sp)) (length (sprites sp2))
        (sprites (load_spr_set (file_data e (base_spr_set_path (dbs_name info))))) (dbs_sprites b) sp2 info2 cur2
       = Inr (sp', info', cur')"
    using assms True by (auto elim: merge_base_sprite_data_TrueE)
  have "dbs_name info2 = dbs_name info"
    using merge_base_textures_Inr [OF _ tex] by auto
  then show ?thesis
    using spr merge_base_sprites_Inr_iff [OF spr] by (auto simp: merge_base_sprites_Inr)
next
  case False
  with assms show ?thesis
    unfolding merge_base_sprite_data_def
    by (auto simp: Let_def split: if_splits option.splits sum.splits prod.splits)
qed

lemma compile_set_eligible:
  "compile_set e out si st = Inr st' \<Longrightarrow> check_set_info_eligible e si \<Longrightarrow>
   map dbs_name (cs_db st') = map dbs_name (cs_db st) @ [ss_name si] \<and>
   length (cs_farcs st') = Suc (length (cs_farcs st))"
  unfolding compile_set_def
  by (auto simp: Let_def dest!: merge_base_sprite_data_name split: sum.splits prod.splits)



definition db_entry_ids :: "sprite_database \<Rightarrow> u32 list" where
  "db_entry_ids db = concat (map (\<lambda>s. map sdi_id (dbs_sprites s) @ map sdi_id (dbs_textures s)) db)"

lemma merge_base_sprite_data_ids:
  assumes "merge_base_sprite_data e sp info cur = Inr (m, sp', info', cur')"
  shows "\<exists>mt ms. cur' = cur + of_nat (mt + ms) \<and>
    map sdi_id (dbs_textures info') = map sdi_id (dbs_textures info) @ map (\<lambda>k. cur + of_nat k) [0..<mt] \<and>
    map sdi_id (dbs_sprites info') = map sdi_id (dbs_sprites info) @ map (\<lambda>k. cur + of_nat (mt + k)) [0..<ms]"
proof (cases m)
  case True
  obtain b sp2 info2 cur2 where
    "find_sprite_set_by_name (dbs_name info) (parse_db e (file_data e base_spr_db_path)) = Some b" and
    tex: "merge_base_textures 0 (length (tex_set sp))
        (tex_set (load_spr_set (file_data e (base_spr_set_path (dbs_name info))))) (dbs_textures b) sp
        (info\<lparr>dbs_id := dbs_id b\<rparr>) cur = Inr (sp2, info2, cur2)" and
    spr: "merge_base_sprites 0 (length (tex_set sp)) (length (sprites sp2))
        (sprites (load_spr_set (file_data e (base_spr_set_path (dbs_name info))))) (dbs_sprites b) sp2 info2 cur2
       = Inr (sp', info', cur')"
    using assms True by (auto elim: merge_base_sprite_data_TrueE)
  let ?mt = "length (tex_set (load_spr_set (file_data e (base_spr_set_path (dbs_name info)))))"
  let ?ms = "length (sprites (load_spr_set (file_data e (base_spr_set_path (dbs_name info)))))"
  obtain names info_names where
    r: "(sp2, info2, cur2) = (sp\<lparr>tex_set := tex_set sp @
            map (\<lambda>(t, n). tex_default\<lparr>tex_name := n, mip_maps_array := mip_maps_array t\<rparr>)
              (zip (tex_set (load_spr_set (file_data e (base_spr_set_path (dbs_name info))))) names)\<rparr>,
          info\<lparr>dbs_id := dbs_id b, dbs_textures := dbs_textures info @
            map (\<lambda>k. \<lparr>sdi_name = info_names ! k, sdi_data_index = of_nat (length (tex_set sp) + k),
                      sdi_id = cur + of_nat k\<rparr>) [0..<?mt]\<rparr>,
          cur + of_nat ?mt)"
    using merge_base_textures_Inr [OF _ tex] by fastforce
  have "?ms \<le> length (dbs_sprites b)"
    using spr by (rule merge_base_sprites_Inr_iff)
  with spr r have "info' = info2\<lparr>dbs_sprites := dbs_sprites info2 @
             map (\<lambda>k. \<lparr>sdi_name = sdi_name (dbs_sprites b ! k), sdi_data_index = of_nat (length (sprites sp2) + k),
                       sdi_id = cur2 + of_nat k\<rparr>) [0..<?ms]\<rparr>" and "cur' = cur2 + of_nat ?ms"
    by (simp_all add: merge_base_sprites_Inr)
  with r show ?thesis
    by (intro exI [of _ ?mt] exI [of _ ?ms]) (simp add: comp_def algebra_simps)
next
  case False
  with assms have "info' = info \<and> cur' = cur"
    unfolding merge_base_sprite_data_def
    by (auto simp: Let_def split: if_splits option.splits sum.splits prod.splits)
  then show ?thesis by (intro exI [of _ 0]) simp
qed

lemma compile_set_ids:
  assumes "compile_set e out si st = Inr st'"
  shows "\<exists>N ks. cs_id st' = cs_id st + of_nat N \<and> distinct ks \<and> (\<forall>k \<in> set ks. k < N) \<and>
     db_entry_ids (cs_db st') = db_entry_ids (cs_db st) @ map (\<lambda>k. cs_id st + of_nat k) ks"
proof (cases "check_set_info_eligible e si")
  case False
  with assms have "st' = st" by (simp add: compile_set_def)
  then show ?thesis by (intro exI [of _ 0] exI [of _ "[]"]) simp
next
  case True
  let ?c = "cs_id st"
  let ?sp = "pack_sprite_set e si"
  obtain spr_entries c1 where rs: "register_sprites (ss_name si) ?sp (ss_sprites si) (?c + 1) = (spr_entries, c1)"
    by (cases "register_sprites (ss_name si) ?sp (ss_sprites si) (?c + 1)")
  obtain tex_entries c2 m sp' info' c3 where
    rt: "register_textures (ss_name si) 0 (tex_set ?sp) c1 = Inr (tex_entries, c2)" and
    mg: "merge_base_sprite_data e ?sp
           (\<lparr>dbs_name = ss_name si, dbs_filename = to_lower (ss_name si) @ ''.bin'', dbs_id = ?c,
              dbs_textures = tex_entries, dbs_sprites = spr_entries\<rparr>) c2 = Inr (m, sp', info', c3)" and
    st': "st' = \<lparr>cs_id = c3, cs_db = cs_db st @ [info'],
             cs_farcs = cs_farcs st @ [(out @ ''/'' @ to_lower (ss_name si) @ ''.farc'',
                                       to_lower (ss_name si) @ ''.bin'', spr_set_encode sp')]\<rparr>"
    using assms True rs unfolding compile_set_def
    by (auto simp: Let_def split: sum.splits prod.splits)
  let ?ns = "length (ss_sprites si)"
  let ?nt = "length (tex_set ?sp)"
  from register_sprites_ids [OF rs] have
    s_ids: "map sdi_id spr_entries = map (\<lambda>k. ?c + 1 + of_nat k) [0..<?ns]" and c1: "c1 = ?c + 1 + of_nat ?ns"
    by simp_all
  from register_textures_ids [OF rt] have
    t_ids: "map sdi_id tex_entries = map (\<lambda>k. c1 + of_nat k) [0..<?nt]" and c2: "c2 = c1 + of_nat ?nt"
    by simp_all
  from merge_base_sprite_data_ids [OF mg] obtain mt ms where
    c3: "c3 = c2 + of_nat (mt + ms)" and
    mt_ids: "map sdi_id (dbs_textures info') = map sdi_id tex_entries @ map (\<lambda>k. c2 + of_nat k) [0..<mt]" and
    ms_ids: "map sdi_id (dbs_sprites info') = map sdi_id spr_entries @ map (\<lambda>k. c2 + of_nat (mt + k)) [0..<ms]"
    by auto
  let ?ks = "[Suc 0..<Suc 0 + ?ns] @ [Suc (?ns + ?nt + mt)..<Suc (?ns + ?nt + mt) + ms]
             @ [Suc ?ns..<Suc ?ns + ?nt] @ [Suc (?ns + ?nt)..<Suc (?ns + ?nt) + mt]"
  show ?thesis
  proof (intro exI [of _ "Suc (?ns + ?nt + mt + ms)"] exI [of _ ?ks] conjI)
    show "cs_id st' = ?c + of_nat (Suc (?ns + ?nt + mt + ms))"
      by (simp add: st' c3 c2 c1 algebra_simps)
    show "distinct ?ks" by auto
    show "\<forall>k \<in> set ?ks. k < Suc (?ns + ?nt + mt + ms)" by auto
    show "db_entry_ids (cs_db st') = db_entry_ids (cs_db st) @ map (\<lambda>k. ?c + of_nat k) ?ks"
      unfolding map_append map_upt_add
      by (simp add: st' db_entry_ids_def ms_ids mt_ids s_ids t_ids c1 c2 algebra_simps del: upt_Suc)
  qed
qed


lemma compile_sets_ids:
  "compile_sets e out sis st = Inr st' \<Longrightarrow>
   \<exists>N ks. cs_id st' = cs_id st + of_nat N \<and> distinct ks \<and> (\<forall>k \<in> set ks. k < N) \<and>
     db_entry_ids (cs_db st') = db_entry_ids (cs_db st) @ map (\<lambda>k. cs_id st + of_nat k) ks"
proof (induction sis arbitrary: st)
  case Nil
  then show ?case by (intro exI [of _ 0] exI [of _ "[]"]) simp
next
  case (Cons si sis)
  then obtain st1 where st1: "compile_set e out si st = Inr st1" and rest: "compile_sets e out sis st1 = Inr st'"
    by (auto split: sum.splits)
  obtain N1 ks1 where 1: "cs_id st1 = cs_id st + of_nat N1" "distinct ks1" "\<forall>k \<in> set ks1. k < N1"
      "db_entry_ids (cs_db st1) = db_entry_ids (cs_db st) @ map (\<lambda>k. cs_id st + of_nat k) ks1"
    using compile_set_ids [OF st1] by blast
  obtain N2 ks2 where 2: "cs_id st' = cs_id st1 + of_nat N2" "distinct ks2" "\<forall>k \<in> set ks2. k < N2"
      "db_entry_ids (cs_db st') = db_entry_ids (cs_db st1) @ map (\<lambda>k. cs_id st1 + of_nat k) ks2"
    using Cons.IH [OF rest] by blast
  show ?case
  proof (intro exI [of _ "N1 + N2"] exI [of _ "ks1 @ map ((+) N1) ks2"] conjI)
    show "cs_id st' = cs_id st + of_nat (N1 + N2)" using 1 2 by (simp add: algebra_simps)
    show "distinct (ks1 @ map ((+) N1) ks2)" using 1 2 by (auto simp: distinct_map)
    show "\<forall>k \<in> set (ks1 @ map ((+) N1) ks2). k < N1 + N2" using 1 2 by auto
    show "db_entry_ids (cs_db st') = db_entry_ids (cs_db st) @ map (\<lambda>k. cs_id st + of_nat k) (ks1 @ map ((+) N1) ks2)"
      using 1 2 by (simp add: comp_def algebra_simps)
  qed
qed



section \<open>Properties of the driver\<close>

text \<open>
  C40. Error behaviour on a manifest without sets: a document that is \<open>null\<close>, or an
  object whose \<open>Sets\<close> is absent or \<open>null\<close>, raises no error; \<open>sprInfo["Sets"]\<close> yields a
  null value that the loop visits zero times, so \<open>ParseSpriteInfo\<close> reports success with
  no sets and \<open>CompileSpriteData\<close> compiles nothing and allocates no id.
\<close>

theorem compile_sprite_data_without_sets:
  assumes "read_manifest e (root @ ''/spr_info.json'') = Some buf"
    and "json_parse e buf = Some doc"
    and "doc = JNull \<or> (\<exists>ps. doc = JObject ps \<and> obj_find ps ''Sets'' \<in> {None, Some JNull})"
  shows "parse_sprite_info e root [] c = Inr (True, [], c) \<and>
         compile_sprite_data e root out c cur = Inr (True, c, cur, Some \<lparr>cs_id = cur, cs_db = [], cs_farcs = []\<rparr>)"
proof -
  have "parse_sprite_info e root [] c = Inr (True, [], c)"
    using assms by (rule parse_sprite_info_without_sets)
  then show ?thesis
    by (simp add: compile_sprite_data_def compile_sprite_sets_with_db_def)
qed

section \<open>Properties of names\<close>

text \<open>
  C8. \<open>GetSpriteIndex\<close> returns the position of the first sprite whose name starts with the
  queried name (a prefix match, not an equality), and -1 when no name does.
\<close>

theorem get_sprite_index_first_prefix:
  assumes "CHR 0x00 \<notin> set name" and "\<forall>s \<in> set (sprites sp). CHR 0x00 \<notin> set (spr_name s)"
  shows "get_sprite_index sp name =
    (if \<exists>s \<in> set (sprites sp). prefix name (spr_name s)
     then of_nat (length (takeWhile (\<lambda>s. \<not> prefix name (spr_name s)) (sprites sp))) else -1)"
proof -
  have eq: "takeWhile (\<lambda>s. \<not> strncmp_eq name (spr_name s) (length name)) (sprites sp) =
            takeWhile (\<lambda>s. \<not> prefix name (spr_name s)) (sprites sp)"
    using assms by (intro takeWhile_cong) (simp_all add: strncmp_eq_prefix)
  have "(length (takeWhile (\<lambda>s. \<not> prefix name (spr_name s)) (sprites sp)) < length (sprites sp)) =
        (\<exists>s \<in> set (sprites sp). prefix name (spr_name s))"
    by (simp add: length_takeWhile_less_iff)
  with eq show ?thesis
    by (simp add: get_sprite_index_def sprite_index_from_takeWhile Let_def)
qed


text \<open>
  C10. Texture renaming: for a name whose last underscore is at position \<open>i\<close>, and an index
  below 1000, \<open>GetTextureNameWithNewIndex\<close> returns the name up to that underscore, an
  underscore and the index as three zero-padded decimal digits.
\<close>

theorem get_texture_name_with_new_index_format:
  assumes "i < length org" and "org ! i = CHR ''_''" and "CHR ''_'' \<notin> set (drop (Suc i) org)"
    and "CHR 0x00 \<notin> set org" and "n < 1000" and "i + 5 < 256"
  shows "get_texture_name_with_new_index org n =
    Inr (take i org @ ''_'' @ [digit_char (n div 100), digit_char (n div 10 mod 10), digit_char (n mod 10)])"
proof -
  have "CHR 0x00 \<notin> set (take i org)" using assms(4) by (meson in_set_takeD)
  then have tw: "takeWhile (\<lambda>c. c \<noteq> CHR 0x00) (take i org) = take i org"
    by (auto simp: takeWhile_eq_all_conv)
  from assms show ?thesis
    by (simp add: get_texture_name_with_new_index_def get_last_index_last format_03zu_digits Let_def tw)
qed

text \<open>
  C11. Texture renaming without an underscore: \<open>GetLastIndex\<close> returns -1, which the string
  constructor takes as a length of \<open>SIZE_MAX\<close>: the rename faults.
\<close>

theorem get_texture_name_without_underscore:
  "CHR ''_'' \<notin> set org \<Longrightarrow> get_texture_name_with_new_index org n = Inl Bad_String_Length"
  by (simp add: get_texture_name_with_new_index_def get_last_index_def filter_empty_conv in_set_conv_nth)

end
