(* ===== verification/Writer_Frame.thy ===== *)
theory Writer_Frame
  imports IO_Writer
begin

text \<open>
  The frame of the writer of \<open>IO_Writer\<close>: which bytes of its buffer are final.  A
  writer state is well formed (\<open>wwf\<close>) when its cursor lies inside the buffer and the
  4-byte slots it still has to patch (\<open>slots\<close>: the queued bodies' and strings' slots) are
  distinct, disjoint and below the cursor.  \<open>pend x\<close> is the set of bytes of those
  slots.  \<open>settled E x d\<close> says that the bytes \<open>d\<close> of the finished file agree with the
  buffer of \<open>x\<close> on every byte below the cursor that is not pending and not in the
  exception set \<open>E\<close> (the bytes the caller patches itself after the writer is done, as
  \<open>SprSet::Write\<close> patches the texture-set pointer).  Every writer operation preserves
  \<open>wwf\<close>, and \<open>settled\<close> propagates backwards through every operation: the writer only
  writes at its cursor or into a pending slot, so what is final stays final.
\<close>

definition slots :: "writer \<Rightarrow> nat list" where
  "slots x = map fst (w_sched x) @ map fst (w_strs x)"

definition pend :: "writer \<Rightarrow> nat set" where
  "pend x = (\<Union>a \<in> set (slots x). {a..<a + 4})"

definition wwf :: "writer \<Rightarrow> bool" where
  "wwf x \<longleftrightarrow> w_pos x \<le> length (w_buf x) \<and> distinct (slots x) \<and> (\<forall>a \<in> set (slots x). a + 4 \<le> w_pos x) \<and>
     (\<forall>a \<in> set (slots x). \<forall>b \<in> set (slots x). a \<noteq> b \<longrightarrow> a + 4 \<le> b \<or> b + 4 \<le> a)"

definition settled :: "nat set \<Rightarrow> writer \<Rightarrow> bytes \<Rightarrow> bool" where
  "settled E x d \<longleftrightarrow> w_pos x \<le> length d \<and>
     (\<forall>i < w_pos x. i \<notin> pend x \<longrightarrow> i \<notin> E \<longrightarrow> d ! i = w_buf x ! i)"


section \<open>Well-formed writer states\<close>

lemma slots_simps [simp]:
  "slots (x\<lparr>w_buf := b\<rparr>) = slots x" "slots (x\<lparr>w_pos := p\<rparr>) = slots x"
  "slots (x\<lparr>w_sched := q\<rparr>) = map fst q @ map fst (w_strs x)"
  "slots (x\<lparr>w_strs := q'\<rparr>) = map fst (w_sched x) @ map fst q'"
  by (simp_all add: slots_def)

lemma pend_simps [simp]:
  "pend (x\<lparr>w_buf := b\<rparr>) = pend x" "pend (x\<lparr>w_pos := p\<rparr>) = pend x"
  by (simp_all add: pend_def)

lemma write_raw_wwf: "wwf x \<Longrightarrow> wwf (write_raw bs x)"
  by (fastforce simp: wwf_def write_raw_def)

lemma write_raw_settled: "settled E (write_raw bs x) d \<Longrightarrow> wwf x \<Longrightarrow> settled E x d"
  unfolding settled_def wwf_def write_raw_def
  by (auto simp: nth_overwrite_before)


lemma wwf_extend:
  assumes x: "wwf x" and set: "set (slots y) = insert (w_pos x) (set (slots x))"
    and len: "length (slots y) = Suc (length (slots x))"
    and pos: "w_pos y = w_pos x + 4" and buf: "w_pos y \<le> length (w_buf y)"
  shows "wwf y"
proof -
  have notin: "w_pos x \<notin> set (slots x)" using x by (fastforce simp: wwf_def)
  have "card (set (slots y)) = length (slots y)"
    using x notin by (simp add: set len wwf_def distinct_card)
  then have "distinct (slots y)" by (rule card_distinct)
  moreover have "\<forall>a \<in> set (slots y). a + 4 \<le> w_pos y" using x by (auto simp: set pos wwf_def)
  moreover have "\<forall>a \<in> set (slots y). \<forall>b \<in> set (slots y). a \<noteq> b \<longrightarrow> a + 4 \<le> b \<or> b + 4 \<le> a"
    using x unfolding set wwf_def by fastforce
  ultimately show ?thesis using buf by (simp add: wwf_def)
qed

lemma exec_cmd_sched_shape:
  "slots (exec_cmd s (W_Sched b body) x) = map fst (w_sched x) @ [w_pos x] @ map fst (w_strs x) \<and>
   w_pos (exec_cmd s (W_Sched b body) x) = w_pos x + 4 \<and>
   length (w_buf (exec_cmd s (W_Sched b body) x)) = max (length (w_buf x)) (w_pos x + 4)"
  "slots (exec_cmd s (W_Sched_Str str) x) = map fst (w_sched x) @ map fst (w_strs x) @ [w_pos x] \<and>
   w_pos (exec_cmd s (W_Sched_Str str) x) = w_pos x + 4 \<and>
   length (w_buf (exec_cmd s (W_Sched_Str str) x)) = max (length (w_buf x)) (w_pos x + 4)"
  by (simp_all add: schedule_write_offset_def schedule_write_string_offset_def write_u32_def write_raw_def slots_def)

lemma exec_cmd_wwf: "wwf x \<Longrightarrow> wwf (exec_cmd s c x)"
proof (cases c)
  case (W_Sched b body)
  assume x: "wwf x"
  have sh: "slots (exec_cmd s c x) = map fst (w_sched x) @ [w_pos x] @ map fst (w_strs x)"
    "w_pos (exec_cmd s c x) = w_pos x + 4"
    "length (w_buf (exec_cmd s c x)) = max (length (w_buf x)) (w_pos x + 4)"
    using exec_cmd_sched_shape(1) [of s b body x] unfolding W_Sched by simp_all
  show ?thesis
  proof (rule wwf_extend [OF x])
    show "set (slots (exec_cmd s c x)) = insert (w_pos x) (set (slots x))"
      unfolding sh(1) by (auto simp: slots_def)
    show "length (slots (exec_cmd s c x)) = Suc (length (slots x))"
      unfolding sh(1) by (simp add: slots_def)
  qed (simp_all add: sh)
next
  case (W_Sched_Str str)
  assume x: "wwf x"
  have sh: "slots (exec_cmd s c x) = map fst (w_sched x) @ map fst (w_strs x) @ [w_pos x]"
    "w_pos (exec_cmd s c x) = w_pos x + 4"
    "length (w_buf (exec_cmd s c x)) = max (length (w_buf x)) (w_pos x + 4)"
    using exec_cmd_sched_shape(2) [of s str x] unfolding W_Sched_Str by simp_all
  show ?thesis
  proof (rule wwf_extend [OF x])
    show "set (slots (exec_cmd s c x)) = insert (w_pos x) (set (slots x))"
      unfolding sh(1) by (auto simp: slots_def)
    show "length (slots (exec_cmd s c x)) = Suc (length (slots x))"
      unfolding sh(1) by (simp add: slots_def)
  qed (simp_all add: sh)
qed (simp_all add: write_u8_def write_u32_def write_raw_wwf)

section \<open>Settled bytes propagate backwards\<close>

text \<open>
  An operation that only writes at or above the cursor of \<open>x\<close>, or into slots pending in
  \<open>x\<close>, cannot change what \<open>x\<close> has settled.
\<close>

lemma settled_back:
  assumes "settled E y d" and "w_pos x \<le> w_pos y" and "\<And>i. i < w_pos x \<Longrightarrow> i \<in> pend y \<Longrightarrow> i \<in> pend x"
    and "\<And>i. i < w_pos x \<Longrightarrow> i \<notin> pend x \<Longrightarrow> w_buf y ! i = w_buf x ! i"
  shows "settled E x d"
  using assms unfolding settled_def by (metis order_less_le_trans order_trans)

lemma pend_slots: "set (slots y) = insert p (set (slots x)) \<Longrightarrow> pend y = pend x \<union> {p..<p + 4}"
  by (auto simp: pend_def)

lemma exec_cmd_settled: "settled E (exec_cmd s c x) d \<Longrightarrow> wwf x \<Longrightarrow> settled E x d"
proof (cases c)
  case (W_Sched b body)
  assume y: "settled E (exec_cmd s c x) d" and x: "wwf x"
  have "pend (exec_cmd s c x) = pend x \<union> {w_pos x..<w_pos x + 4}"
    using exec_cmd_sched_shape(1) [of s b body x] unfolding W_Sched by (intro pend_slots) (auto simp: slots_def)
  moreover have "w_buf (exec_cmd s c x) = overwrite (w_buf x) (w_pos x) (u32_le 0)"
    by (simp add: W_Sched schedule_write_offset_def write_u32_def write_raw_def)
  ultimately show ?thesis
    using x by (intro settled_back [OF y]) (auto simp: W_Sched schedule_write_offset_def write_u32_def write_raw_def wwf_def nth_overwrite_before)
next
  case (W_Sched_Str str)
  assume y: "settled E (exec_cmd s c x) d" and x: "wwf x"
  have "pend (exec_cmd s c x) = pend x \<union> {w_pos x..<w_pos x + 4}"
    using exec_cmd_sched_shape(2) [of s str x] unfolding W_Sched_Str by (intro pend_slots) (auto simp: slots_def)
  moreover have "w_buf (exec_cmd s c x) = overwrite (w_buf x) (w_pos x) (u32_le 0)"
    by (simp add: W_Sched_Str schedule_write_string_offset_def write_u32_def write_raw_def)
  ultimately show ?thesis
    using x by (intro settled_back [OF y]) (auto simp: W_Sched_Str schedule_write_string_offset_def write_u32_def write_raw_def wwf_def nth_overwrite_before)
qed (simp_all add: write_u8_def write_u32_def write_raw_settled)

lemma exec_cmds_wwf: "wwf x \<Longrightarrow> wwf (exec_cmds s cs x)"
  unfolding exec_cmds_def by (induction cs arbitrary: x) (simp_all add: exec_cmd_wwf)

lemma exec_cmds_settled: "settled E (exec_cmds s cs x) d \<Longrightarrow> wwf x \<Longrightarrow> settled E x d"
  unfolding exec_cmds_def
  by (induction cs arbitrary: x) (auto dest: exec_cmd_settled intro: exec_cmd_wwf)


lemma patch_wwf:
  assumes "wwf x" and "slot \<in> set (slots x)" and "distinct (slots x')" and "set (slots x') \<subseteq> set (slots x)"
    and "w_buf x' = w_buf x" and "w_pos x' = w_pos x"
  shows "wwf (patch_u32 slot v x')"
proof -
  have "slot + 4 \<le> w_pos x" using assms(1,2) by (auto simp: wwf_def)
  then show ?thesis
    using assms unfolding wwf_def by (auto simp: patch_u32_def)
qed

lemma patch_settled:
  assumes y: "settled E (patch_u32 slot v x') d" and x: "wwf x" and sl: "slot \<in> set (slots x)"
    and sub: "set (slots x') \<subseteq> set (slots x)" and b: "w_buf x' = w_buf x" and p: "w_pos x' = w_pos x"
  shows "settled E x d"
proof (rule settled_back [OF y])
  have slot: "slot + 4 \<le> w_pos x" "w_pos x \<le> length (w_buf x)" using x sl by (auto simp: wwf_def)
  show "\<And>i. i < w_pos x \<Longrightarrow> i \<in> pend (patch_u32 slot v x') \<Longrightarrow> i \<in> pend x"
    using sub by (auto simp: pend_def patch_u32_def)
  have inslot: "{slot..<slot + 4} \<subseteq> pend x" using sl by (auto simp: pend_def)
  show "\<And>i. i < w_pos x \<Longrightarrow> i \<notin> pend x \<Longrightarrow> w_buf (patch_u32 slot v x') ! i = w_buf x ! i"
  proof -
    fix i assume i: "i < w_pos x" "i \<notin> pend x"
    have "i \<notin> {slot..<slot + 4}" using i(2) inslot by blast
    then have "i < slot \<or> slot + 4 \<le> i" by auto
    with i slot b show "w_buf (patch_u32 slot v x') ! i = w_buf x ! i"
      by (auto simp: patch_u32_def nth_overwrite_before nth_overwrite_after)
  qed
qed (simp add: patch_u32_def p)

lemma patch_head_wwf:
  assumes "wwf x" and "w_sched x = (slot, base, body) # rest"
  shows "wwf (patch_u32 slot v (x\<lparr>w_sched := rest\<rparr>))"
  using assms by (intro patch_wwf [OF assms(1)]) (auto simp: slots_def wwf_def)

lemma patch_head_settled:
  assumes "settled E (patch_u32 slot v (x\<lparr>w_sched := rest\<rparr>)) d" and "wwf x"
    and "w_sched x = (slot, base, body) # rest"
  shows "settled E x d"
  using assms by (intro patch_settled [OF assms(1,2)]) (auto simp: slots_def)

lemma flush_scheduled_writes_wwf_settled:
  "wwf x \<Longrightarrow> wwf (flush_scheduled_writes x) \<and> (settled E (flush_scheduled_writes x) d \<longrightarrow> settled E x d)"
proof (induction x rule: flush_scheduled_writes.induct)
  case (1 x)
  show ?case
  proof (cases "w_sched x")
    case Nil
    then show ?thesis using "1.prems" by (simp add: flush_scheduled_writes.simps [of x])
  next
    case (Cons e rest)
    obtain slot base body where e: "e = (slot, base, body)" by (cases e)
    let ?x1 = "patch_u32 slot (offset_value (w_pos x) base) (x\<lparr>w_sched := rest\<rparr>)"
    have w1: "wwf ?x1" using patch_head_wwf "1.prems" Cons e by simp
    have w2: "wwf (exec_cmds (w_pos x) body ?x1)" using exec_cmds_wwf [OF w1] .
    have flush: "flush_scheduled_writes x = flush_scheduled_writes (exec_cmds (w_pos x) body ?x1)"
      using Cons e by (simp add: flush_scheduled_writes.simps [of x])
    have ih: "wwf (flush_scheduled_writes x)"
      "settled E (flush_scheduled_writes x) d \<Longrightarrow> settled E (exec_cmds (w_pos x) body ?x1) d"
      using "1.IH" [OF Cons e [symmetric] refl w2] flush by simp_all
    show ?thesis
      using ih exec_cmds_settled [OF _ w1] patch_head_settled [where E = E and d = d, OF _ "1.prems"] Cons e
      by blast
  qed
qed


lemma patch_strs_commute:
  "patch_u32 slot v (w\<lparr>w_strs := q\<rparr>) = (patch_u32 slot v w)\<lparr>w_strs := q\<rparr>"
  "write_raw bs (w\<lparr>w_strs := q\<rparr>) = (write_raw bs w)\<lparr>w_strs := q\<rparr>"
  by (simp_all add: patch_u32_def write_raw_def)

lemma flush_strings_wwf_settled:
  "wwf (w\<lparr>w_strs := q\<rparr>) \<Longrightarrow> w_strs w = [] \<Longrightarrow>
   wwf (flush_strings pool q w) \<and> w_strs (flush_strings pool q w) = [] \<and>
   (settled E (flush_strings pool q w) d \<longrightarrow> settled E (w\<lparr>w_strs := q\<rparr>) d)"
proof (induction pool q w rule: flush_strings.induct)
  case (1 pool w)
  then have "w\<lparr>w_strs := []\<rparr> = w" by (cases w) simp
  with 1 show ?case by (simp only:) simp
next
  case (2 pool slot s rest w)
  let ?v = "w\<lparr>w_strs := (slot, s) # rest\<rparr>"
  have patch_step: "wwf ((patch_u32 slot a u)\<lparr>w_strs := rest\<rparr>) \<and>
      (settled E ((patch_u32 slot a u)\<lparr>w_strs := rest\<rparr>) d \<longrightarrow> settled E (u\<lparr>w_strs := (slot, s) # rest\<rparr>) d)"
    if u: "wwf (u\<lparr>w_strs := (slot, s) # rest\<rparr>)" for a u
  proof -
    have "wwf (patch_u32 slot a (u\<lparr>w_strs := rest\<rparr>))"
      using u by (intro patch_wwf [OF u]) (auto simp: slots_def wwf_def)
    moreover have "settled E (patch_u32 slot a (u\<lparr>w_strs := rest\<rparr>)) d \<Longrightarrow>
        settled E (u\<lparr>w_strs := (slot, s) # rest\<rparr>) d"
      by (rule patch_settled [where x' = "u\<lparr>w_strs := rest\<rparr>", OF _ u]) (auto simp: slots_def)
    ultimately show ?thesis by (simp add: patch_strs_commute)
  qed
  show ?case
  proof (cases "pool s")
    case (Some a)
    let ?w1 = "patch_u32 slot (offset_value a 0) w"
    have "wwf (?w1\<lparr>w_strs := rest\<rparr>)" "settled E (?w1\<lparr>w_strs := rest\<rparr>) d \<Longrightarrow> settled E ?v d"
      using patch_step [OF "2.prems"(1)] by simp_all
    moreover have "w_strs ?w1 = []" using "2.prems"(2) by (simp add: patch_u32_def)
    ultimately show ?thesis
      using "2.IH"(2) [OF Some] Some by simp
  next
    case None
    let ?w0 = "write_raw (cstr_bytes s) w"
    let ?w1 = "patch_u32 slot (offset_value (w_pos w) 0) ?w0"
    have v0: "wwf (?w0\<lparr>w_strs := (slot, s) # rest\<rparr>)"
      using write_raw_wwf [OF "2.prems"(1)] by (simp add: patch_strs_commute)
    have s2: "settled E (?w0\<lparr>w_strs := (slot, s) # rest\<rparr>) d \<Longrightarrow> settled E ?v d"
      using write_raw_settled [of E "cstr_bytes s" ?v d] "2.prems"(1) by (simp add: patch_strs_commute)
    have "wwf (?w1\<lparr>w_strs := rest\<rparr>)" "settled E (?w1\<lparr>w_strs := rest\<rparr>) d \<Longrightarrow> settled E ?v d"
      using patch_step [OF v0] s2 by simp_all
    moreover have "w_strs ?w1 = []" using "2.prems"(2) by (simp add: patch_u32_def write_raw_def)
    ultimately show ?thesis
      using "2.IH"(1) [OF None] None by (simp add: fun_upd_def)
  qed
qed

lemma flush_scheduled_strings_wwf_settled:
  "wwf w \<Longrightarrow> wwf (flush_scheduled_strings w) \<and> w_strs (flush_scheduled_strings w) = [] \<and>
   (settled E (flush_scheduled_strings w) d \<longrightarrow> settled E w d)"
  using flush_strings_wwf_settled [where w = "w\<lparr>w_strs := []\<rparr>" and q = "w_strs w" and pool = Map.empty and E = E and d = d]
  by (simp add: flush_scheduled_strings_def)

lemma pad_wwf_settled: "wwf w \<Longrightarrow> wwf (pad n w) \<and> (settled E (pad n w) d \<longrightarrow> settled E w d)"
  by (simp add: pad_def write_raw_wwf write_raw_settled)

section \<open>Reading settled bytes back\<close>

text \<open>
  What a body wrote at its start cursor is still in the finished file, because nothing
  queued after it points below that cursor.
\<close>

lemma settled_bytes_at:
  assumes "settled E y d" and "wwf y" and "a + n \<le> w_pos y"
    and "\<And>i. a \<le> i \<Longrightarrow> i < a + n \<Longrightarrow> i \<notin> pend y \<and> i \<notin> E"
  shows "bytes_at d a n = bytes_at (w_buf y) a n"
proof (rule nth_equalityI)
  fix k assume "k < length (bytes_at d a n)"
  then have k: "k < n" by simp
  then have "a + k < w_pos y" "w_pos y \<le> length d" "w_pos y \<le> length (w_buf y)"
    using assms(1,2,3) by (auto simp: settled_def wwf_def)
  moreover have "d ! (a + k) = w_buf y ! (a + k)"
    using assms(1,3) assms(4) [of "a + k"] k by (simp add: settled_def)
  ultimately show "bytes_at d a n ! k = bytes_at (w_buf y) a n ! k"
    using k by (simp add: bytes_at_def)
qed simp

lemma exec_cmds_take:
  "w_pos x \<le> length (w_buf x) \<Longrightarrow> take (w_pos x) (w_buf (exec_cmds s cs x)) = take (w_pos x) (w_buf x)"
  using exec_cmds_image [of x s cs] by (simp add: take_overwrite_below)

lemma exec_cmd_queues:
  "\<exists>q q'. w_sched (exec_cmd s c x) = w_sched x @ q \<and> w_strs (exec_cmd s c x) = w_strs x @ q' \<and>
     (\<forall>e \<in> set q. w_pos x \<le> fst e) \<and> (\<forall>e \<in> set q'. w_pos x \<le> fst e)"
  by (cases c) (auto simp: write_u8_def write_u32_def write_raw_def schedule_write_offset_def
      schedule_write_string_offset_def)

lemma exec_cmds_queues:
  "\<exists>q q'. w_sched (exec_cmds s cs x) = w_sched x @ q \<and> w_strs (exec_cmds s cs x) = w_strs x @ q' \<and>
     (\<forall>e \<in> set q. w_pos x \<le> fst e) \<and> (\<forall>e \<in> set q'. w_pos x \<le> fst e)"
  unfolding exec_cmds_def
proof (induction cs arbitrary: x)
  case Nil
  then show ?case by simp
next
  case (Cons c cs)
  obtain q1 q1' where 1: "w_sched (exec_cmd s c x) = w_sched x @ q1" "w_strs (exec_cmd s c x) = w_strs x @ q1'"
    "\<forall>e \<in> set q1. w_pos x \<le> fst e" "\<forall>e \<in> set q1'. w_pos x \<le> fst e"
    using exec_cmd_queues by blast
  obtain q2 q2' where 2: "w_sched (fold (exec_cmd s) cs (exec_cmd s c x)) = w_sched (exec_cmd s c x) @ q2"
    "w_strs (fold (exec_cmd s) cs (exec_cmd s c x)) = w_strs (exec_cmd s c x) @ q2'"
    "\<forall>e \<in> set q2. w_pos (exec_cmd s c x) \<le> fst e" "\<forall>e \<in> set q2'. w_pos (exec_cmd s c x) \<le> fst e"
    using Cons.IH by blast
  have "w_pos x \<le> w_pos (exec_cmd s c x)" using exec_cmds_pos_mono [of x s "[c]"] by (simp add: exec_cmds_def)
  then show ?case using 1 2 by (intro exI [of _ "q1 @ q2"] exI [of _ "q1' @ q2'"]) auto
qed

lemma exec_cmds_pend:
  "i \<in> pend (exec_cmds s cs x) \<Longrightarrow> i \<in> pend x \<or> w_pos x \<le> i"
  using exec_cmds_queues [of s cs x] by (fastforce simp: pend_def slots_def)


lemma pend_below: "wwf x \<Longrightarrow> i \<in> pend x \<Longrightarrow> i < w_pos x"
  by (fastforce simp: wwf_def pend_def)

lemma exec_cmd_data_slots:
  "(\<And>b body. c \<noteq> W_Sched b body) \<Longrightarrow> (\<And>str. c \<noteq> W_Sched_Str str) \<Longrightarrow> pend (exec_cmd s c x) = pend x"
  by (cases c) (auto simp: write_u8_def write_u32_def write_raw_def pend_def slots_def)

lemma exec_cmd_data_region:
  assumes x: "wwf x" and y: "settled E (exec_cmds s cs (exec_cmd s c x)) d" and E: "\<forall>i \<in> E. i < w_pos x"
    and data: "\<And>b body. c \<noteq> W_Sched b body" "\<And>str. c \<noteq> W_Sched_Str str"
  shows "bytes_at d (w_pos x) (length (cmd_bytes c)) = cmd_bytes c \<and> w_pos x + length (cmd_bytes c) \<le> length d"
proof -
  let ?x' = "exec_cmd s c x" and ?y = "exec_cmds s cs (exec_cmd s c x)"
  have x': "wwf ?x'" "w_pos ?x' = w_pos x + length (cmd_bytes c)"
    "w_buf ?x' = overwrite (w_buf x) (w_pos x) (cmd_bytes c)"
    using exec_cmd_wwf [OF x] exec_cmd_image [of s c x] by simp_all
  have wy: "wwf ?y" and py: "w_pos ?x' \<le> w_pos ?y" using exec_cmds_wwf [OF x'(1)] exec_cmds_pos_mono by simp_all
  have region: "i \<notin> pend ?y \<and> i \<notin> E" if "w_pos x \<le> i" "i < w_pos x + length (cmd_bytes c)" for i
  proof
    show "i \<notin> pend ?y"
    proof
      assume "i \<in> pend ?y"
      then have "i \<in> pend ?x' \<or> w_pos ?x' \<le> i" by (rule exec_cmds_pend)
      then show False
        using that pend_below [OF x, of i] exec_cmd_data_slots [OF data] x'(2) by auto
    qed
    show "i \<notin> E" using E that by auto
  qed
  have "bytes_at d (w_pos x) (length (cmd_bytes c)) = bytes_at (w_buf ?y) (w_pos x) (length (cmd_bytes c))"
    using region py x'(2) by (intro settled_bytes_at [OF y wy]) auto
  also have "\<dots> = bytes_at (w_buf ?x') (w_pos x) (length (cmd_bytes c))"
    using exec_cmds_take [of ?x' s cs] x'(1) x'(2) by (intro bytes_at_take_eq [of "w_pos ?x'"]) (simp_all add: wwf_def)
  also have "\<dots> = cmd_bytes c" by (simp add: x'(3) bytes_at_overwrite_same)
  finally show ?thesis using py x'(2) y by (auto simp: settled_def)
qed

lemma exec_cmds_Cons: "exec_cmds s (c # cs) x = exec_cmds s cs (exec_cmd s c x)"
  by (simp add: exec_cmds_def)


lemma flush_scheduled_writes_strs:
  "set (w_strs x) \<subseteq> set (w_strs (flush_scheduled_writes x))"
proof (induction x rule: flush_scheduled_writes.induct)
  case (1 x)
  show ?case
  proof (cases "w_sched x")
    case (Cons e rest)
    obtain slot base body where e: "e = (slot, base, body)" by (cases e)
    let ?x1 = "patch_u32 slot (offset_value (w_pos x) base) (x\<lparr>w_sched := rest\<rparr>)"
    have "set (w_strs x) \<subseteq> set (w_strs (exec_cmds (w_pos x) body ?x1))"
      using exec_cmds_queues [of "w_pos x" body ?x1] by (auto simp: patch_u32_def)
    then show ?thesis
      using "1.IH" [OF Cons e [symmetric] refl] Cons e by (simp add: flush_scheduled_writes.simps [of x])
  qed (simp add: flush_scheduled_writes.simps [of x])
qed

lemma head_slot_free:
  assumes "wwf x" "w_sched x = (slot, base, body) # rest" "slot \<le> i" "i < slot + 4"
  shows "i \<notin> pend (x\<lparr>w_sched := rest\<rparr>)"
proof
  assume "i \<in> pend (x\<lparr>w_sched := rest\<rparr>)"
  then obtain a where a: "a \<in> set (map fst rest @ map fst (w_strs x))" "a \<le> i" "i < a + 4"
    by (auto simp: pend_def)
  have "distinct (slot # map fst rest @ map fst (w_strs x))"
    "\<forall>a \<in> set (slot # map fst rest @ map fst (w_strs x)). \<forall>b \<in> set (slot # map fst rest @ map fst (w_strs x)).
       a \<noteq> b \<longrightarrow> a + 4 \<le> b \<or> b + 4 \<le> a"
    using assms(1,2) by (simp_all add: wwf_def slots_def)
  then have "a \<noteq> slot" using a(1) by auto
  then have "a + 4 \<le> slot \<or> slot + 4 \<le> a" using a(1) \<open>\<forall>a \<in> _. _\<close> by (meson list.set_intros)
  then show False using a(2,3) assms(3,4) by linarith
qed



lemma slot_free:
  assumes "wwf x" "slot \<in> set (slots x)" "set (slots x') \<subseteq> set (slots x) - {slot}" "slot \<le> i" "i < slot + 4"
  shows "i \<notin> pend x'"
proof
  assume "i \<in> pend x'"
  then obtain a where a: "a \<in> set (slots x)" "a \<noteq> slot" "a \<le> i" "i < a + 4"
    using assms(3) by (auto simp: pend_def)
  then have "a + 4 \<le> slot \<or> slot + 4 \<le> a" using assms(1,2) by (simp add: wwf_def)
  then show False using a(3,4) assms(4,5) by linarith
qed

lemma strs_patch_wwf:
  assumes u: "wwf (u\<lparr>w_strs := (slot, str) # rest\<rparr>)"
  shows "wwf ((patch_u32 slot v u)\<lparr>w_strs := rest\<rparr>)"
  using patch_wwf [OF u, of slot "u\<lparr>w_strs := rest\<rparr>" v] u
  by (auto simp: slots_def wwf_def patch_strs_commute)

lemma pend_write_raw [simp]: "pend (write_raw bs x) = pend x"
  by (simp add: write_raw_def)


lemma settled_self: "w_pos x \<le> length (w_buf x) \<Longrightarrow> settled E x (w_buf x)"
  by (simp add: settled_def)


section \<open>Every writer operation keeps the writer well formed\<close>

lemma writer_ops_wwf:
  "wwf writer_init \<and>
   (wwf w \<longrightarrow> wwf (write_u8 b w) \<and> wwf (write_u32 v w) \<and> wwf (write_raw bs w) \<and>
      wwf (schedule_write_offset base body w) \<and> wwf (schedule_write_string_offset str w) \<and>
      wwf (pad n w) \<and> wwf (flush_scheduled_writes w) \<and> wwf (flush_scheduled_strings w))"
proof (intro conjI impI)
  show "wwf writer_init" by (simp add: wwf_def slots_def writer_init_def)
  assume w: "wwf w"
  note cmd = exec_cmd_wwf [OF w, of 0]
  show "wwf (write_u8 b w)" using cmd [of "W_U8 b"] by simp
  show "wwf (write_u32 v w)" using cmd [of "W_U32 v"] by simp
  show "wwf (write_raw bs w)" using cmd [of "W_Bytes bs"] by simp
  show "wwf (schedule_write_offset base body w)" using cmd [of "W_Sched (Base_Abs base) body"] by (simp add: base_value_def)
  show "wwf (schedule_write_string_offset str w)" using cmd [of "W_Sched_Str str"] by simp
  show "wwf (pad n w)" using pad_wwf_settled [OF w] by simp
  show "wwf (flush_scheduled_writes w)" using flush_scheduled_writes_wwf_settled [OF w] by simp
  show "wwf (flush_scheduled_strings w)" using flush_scheduled_strings_wwf_settled [OF w] by simp
qed

end
