(* ===== verification/Writer_Layout.thy ===== *)
theory Writer_Layout
  imports Writer_Frame
begin

text \<open>
  What the writer's flushes leave in the finished file.  \<open>laid_out d s a cmds\<close> says that
  the commands of a body that started at \<open>s\<close> can be found in the bytes \<open>d\<close> from
  position \<open>a\<close> on: each scalar and byte run at its place, each offset slot holding the
  distance (from the slot's base) to a later position where the scheduled body is laid
  out in turn, and each string slot holding the address of the string's null-terminated
  bytes.  \<open>laid_entry\<close> and \<open>laid_str\<close> state the same for one queued entry.  The main
  results: a body whose bytes are settled is laid out (\<open>exec_cmds_laid_out\<close>); after
  \<open>FlushScheduledWrites\<close> every body that was queued is laid out
  (\<open>flush_scheduled_writes_laid_out\<close>), after \<open>FlushScheduledStrings\<close> every queued string
  (\<open>flush_strings_laid_out\<close>), and both together.  These are the facts the
  decoder's round trip consumes.
\<close>

fun laid_out :: "bytes \<Rightarrow> nat \<Rightarrow> nat \<Rightarrow> wcmd list \<Rightarrow> bool" where
  "laid_out d s a [] = True"
| "laid_out d s a (W_U8 b # cs) = (a < length d \<and> bytes_at d a 1 = [b] \<and> laid_out d s (Suc a) cs)"
| "laid_out d s a (W_U32 v # cs) = (a + 4 \<le> length d \<and> bytes_at d a 4 = u32_le v \<and> laid_out d s (a + 4) cs)"
| "laid_out d s a (W_Bytes bs # cs) =
     (a + length bs \<le> length d \<and> bytes_at d a (length bs) = bs \<and> laid_out d s (a + length bs) cs)"
| "laid_out d s a (W_Sched b body # cs) =
     (a + 4 \<le> length d \<and>
      (\<exists>A. a < A \<and> A \<le> length d \<and> bytes_at d a 4 = u32_le (offset_value A (base_value s b)) \<and>
           laid_out d A A body) \<and>
      laid_out d s (a + 4) cs)"
| "laid_out d s a (W_Sched_Str str # cs) =
     (a + 4 \<le> length d \<and>
      (\<exists>A. 0 < A \<and> A + Suc (length str) \<le> length d \<and> bytes_at d a 4 = u32_le (offset_value A 0) \<and>
           bytes_at d A (Suc (length str)) = cstr_bytes str) \<and>
      laid_out d s (a + 4) cs)"

definition laid_entry :: "bytes \<Rightarrow> nat \<Rightarrow> nat \<Rightarrow> wcmd list \<Rightarrow> bool" where
  "laid_entry d slot base body \<longleftrightarrow> slot + 4 \<le> length d \<and>
     (\<exists>A. slot < A \<and> A \<le> length d \<and> bytes_at d slot 4 = u32_le (offset_value A base) \<and> laid_out d A A body)"

definition laid_str :: "bytes \<Rightarrow> nat \<Rightarrow> string \<Rightarrow> bool" where
  "laid_str d slot str \<longleftrightarrow> slot + 4 \<le> length d \<and>
     (\<exists>A. 0 < A \<and> A + Suc (length str) \<le> length d \<and> bytes_at d slot 4 = u32_le (offset_value A 0) \<and>
          bytes_at d A (Suc (length str)) = cstr_bytes str)"

definition laid_cstr :: "bytes \<Rightarrow> nat \<Rightarrow> string \<Rightarrow> bool" where
  "laid_cstr d a str \<longleftrightarrow> 0 < a \<and> a + Suc (length str) \<le> length d \<and> bytes_at d a (Suc (length str)) = cstr_bytes str"


section \<open>Layout of a body\<close>

lemma laid_out_sched:
  "laid_out d s a (W_Sched b body # cs) = (laid_entry d a (base_value s b) body \<and> laid_out d s (a + 4) cs)"
  "laid_out d s a (W_Sched_Str str # cs) = (laid_str d a str \<and> laid_out d s (a + 4) cs)"
  by (auto simp: laid_entry_def laid_str_def)

text \<open>From here on a slot command unfolds to its entry, not to the entry's definition.\<close>

declare laid_out.simps(5,6) [simp del] laid_out_sched [simp]

lemma laid_out_append:
  "laid_out d s a (cs @ cs') \<longleftrightarrow> laid_out d s a cs \<and> laid_out d s (a + length (cmds_bytes cs)) cs'"
proof (induction cs arbitrary: a)
  case (Cons c cs)
  then show ?case by (cases c) (auto simp: cmds_bytes_def add.assoc simp del: u32_le_0)
qed (simp add: cmds_bytes_def)

lemma exec_cmds_laid_out:
  assumes "wwf x" "settled E (exec_cmds s cs x) d" "\<forall>i\<in>E. i < w_pos x"
    "\<forall>(slot, base, body) \<in> set (w_sched (exec_cmds s cs x)). w_pos x \<le> slot \<longrightarrow> laid_entry d slot base body"
    "\<forall>(slot, str) \<in> set (w_strs (exec_cmds s cs x)). w_pos x \<le> slot \<longrightarrow> laid_str d slot str"
  shows "laid_out d s (w_pos x) cs"
  using assms
proof (induction cs arbitrary: x)
  case (Cons c cs)
  let ?x' = "exec_cmd s c x"
  have y: "exec_cmds s (c # cs) x = exec_cmds s cs ?x'" by (rule exec_cmds_Cons)
  have pos: "w_pos ?x' = w_pos x + length (cmd_bytes c)" using exec_cmd_image [of s c x] by simp
  have tail: "laid_out d s (w_pos ?x') cs"
  proof (rule Cons.IH)
    show "wwf ?x'" by (rule exec_cmd_wwf [OF Cons.prems(1)])
    show "settled E (exec_cmds s cs ?x') d" using Cons.prems(2) y by simp
    show "\<forall>i\<in>E. i < w_pos ?x'" using Cons.prems(3) pos by auto
    show "\<forall>(slot, base, body) \<in> set (w_sched (exec_cmds s cs ?x')). w_pos ?x' \<le> slot \<longrightarrow> laid_entry d slot base body"
      using Cons.prems(4) pos unfolding y by fastforce
    show "\<forall>(slot, str) \<in> set (w_strs (exec_cmds s cs ?x')). w_pos ?x' \<le> slot \<longrightarrow> laid_str d slot str"
      using Cons.prems(5) pos unfolding y by fastforce
  qed
  have queued: "set (w_sched ?x') \<subseteq> set (w_sched (exec_cmds s cs ?x'))"
    "set (w_strs ?x') \<subseteq> set (w_strs (exec_cmds s cs ?x'))"
    using exec_cmds_queues [of s cs ?x'] by auto
  have data: "bytes_at d (w_pos x) (length (cmd_bytes c)) = cmd_bytes c \<and> w_pos x + length (cmd_bytes c) \<le> length d"
    if "\<And>b body. c \<noteq> W_Sched b body" "\<And>str. c \<noteq> W_Sched_Str str"
    using exec_cmd_data_region [OF Cons.prems(1) _ Cons.prems(3) that] Cons.prems(2) y by simp
  show ?case
  proof (cases c)
    case (W_Sched b body)
    have "(w_pos x, base_value s b, body) \<in> set (w_sched (exec_cmds s cs ?x'))"
      using queued W_Sched by (auto simp: schedule_write_offset_def write_u32_def write_raw_def)
    then have "laid_entry d (w_pos x) (base_value s b) body" using Cons.prems(4) y by fastforce
    then show ?thesis using tail pos W_Sched by (simp only: laid_out_sched) (simp add: eval_nat_numeral)
  next
    case (W_Sched_Str str)
    have "(w_pos x, str) \<in> set (w_strs (exec_cmds s cs ?x'))"
      using queued W_Sched_Str by (auto simp: schedule_write_string_offset_def write_u32_def write_raw_def)
    then have "laid_str d (w_pos x) str" using Cons.prems(5) y by fastforce
    then show ?thesis using tail pos W_Sched_Str by (simp only: laid_out_sched) (simp add: eval_nat_numeral)
  qed (use data tail pos in auto)
qed simp

section \<open>The breadth-first flush lays out every queued body\<close>

lemma flush_scheduled_writes_laid_out:
  assumes "wwf x" "settled E (flush_scheduled_writes x) d" "\<forall>i\<in>E. i < w_pos x" "E \<inter> pend x = {}"
    "\<forall>(slot, str) \<in> set (w_strs (flush_scheduled_writes x)). laid_str d slot str"
  shows "\<forall>(slot, base, body) \<in> set (w_sched x). laid_entry d slot base body"
  using assms
proof (induction x rule: flush_scheduled_writes.induct)
  case (1 x)
  show ?case
  proof (cases "w_sched x")
    case (Cons e rest)
    obtain slot base body where e: "e = (slot, base, body)" by (cases e)
    let ?x1 = "patch_u32 slot (offset_value (w_pos x) base) (x\<lparr>w_sched := rest\<rparr>)"
    let ?x2 = "exec_cmds (w_pos x) body ?x1"
    have flush: "flush_scheduled_writes x = flush_scheduled_writes ?x2"
      using Cons e by (simp add: flush_scheduled_writes.simps [of x])
    have w1: "wwf ?x1" using patch_head_wwf "1.prems"(1) Cons e by simp
    have w2: "wwf ?x2" by (rule exec_cmds_wwf [OF w1])
    have p1: "w_pos ?x1 = w_pos x" "w_buf ?x1 = overwrite (w_buf x) slot (u32_le (offset_value (w_pos x) base))"
      by (simp_all add: patch_u32_def)
    have p2: "w_pos x \<le> w_pos ?x2" using exec_cmds_pos_mono [of ?x1] p1 by simp
    have s2: "settled E ?x2 d"
      using flush_scheduled_writes_wwf_settled [OF w2] "1.prems"(2) flush by simp
    have pend2: "i \<in> pend (x\<lparr>w_sched := rest\<rparr>) \<or> w_pos x \<le> i" if "i \<in> pend ?x2" for i
      using exec_cmds_pend [OF that] p1 by (simp add: patch_u32_def)
    have pend_sub: "pend (x\<lparr>w_sched := rest\<rparr>) \<subseteq> pend x" using Cons by (auto simp: pend_def slots_def)
    have ih: "\<forall>(slot, base, body) \<in> set (w_sched ?x2). laid_entry d slot base body"
    proof (rule "1.IH" [OF Cons e [symmetric] refl w2])
      show "settled E (flush_scheduled_writes ?x2) d" using "1.prems"(2) flush by simp
      show "\<forall>i\<in>E. i < w_pos ?x2" using "1.prems"(3) p2 by fastforce
      show "E \<inter> pend ?x2 = {}" using "1.prems"(3,4) pend2 pend_sub by fastforce
      show "\<forall>(slot, str) \<in> set (w_strs (flush_scheduled_writes ?x2)). laid_str d slot str"
        using "1.prems"(5) flush by simp
    qed
    have sched2: "set rest \<subseteq> set (w_sched ?x2)"
      using exec_cmds_queues [of "w_pos x" body ?x1] by (auto simp: patch_u32_def)
    have slot: "slot + 4 \<le> w_pos x" "w_pos x \<le> length (w_buf x)"
      using "1.prems"(1) Cons e by (auto simp: wwf_def slots_def)
    have len: "w_pos x \<le> length d" using s2 p2 by (simp add: settled_def)
    have body: "laid_out d (w_pos x) (w_pos x) body"
    proof -
      have "laid_out d (w_pos x) (w_pos ?x1) body"
      proof (rule exec_cmds_laid_out [OF w1 s2])
        show "\<forall>i\<in>E. i < w_pos ?x1" using "1.prems"(3) p1 by simp
        show "\<forall>(slot, base, body) \<in> set (w_sched ?x2). w_pos ?x1 \<le> slot \<longrightarrow> laid_entry d slot base body"
          using ih by fastforce
        have "set (w_strs ?x2) \<subseteq> set (w_strs (flush_scheduled_writes x))"
          using flush_scheduled_writes_strs [of ?x2] flush by simp
        then show "\<forall>(slot, str) \<in> set (w_strs ?x2). w_pos ?x1 \<le> slot \<longrightarrow> laid_str d slot str"
          using "1.prems"(5) by fastforce
      qed
      then show ?thesis using p1 by simp
    qed
    have free: "i \<notin> pend ?x2 \<and> i \<notin> E" if "slot \<le> i" "i < slot + 4" for i
    proof
      show "i \<notin> pend ?x2" using pend2 head_slot_free [OF "1.prems"(1) Cons [unfolded e] that] slot that by force
      have "i \<in> pend x" using Cons e that by (auto simp: pend_def slots_def)
      then show "i \<notin> E" using "1.prems"(4) by blast
    qed
    have "bytes_at d slot 4 = bytes_at (w_buf ?x2) slot 4"
      using slot p2 free by (intro settled_bytes_at [OF s2 w2]) auto
    also have "\<dots> = bytes_at (w_buf ?x1) slot 4"
      using exec_cmds_take [of ?x1 "w_pos x" body] w1 slot p1
      by (intro bytes_at_take_eq [of "w_pos x"]) (simp_all add: wwf_def)
    also have "\<dots> = u32_le (offset_value (w_pos x) base)"
      using bytes_at_overwrite_same [of "w_buf x" slot "u32_le (offset_value (w_pos x) base)"] by (simp add: p1)
    finally have "laid_entry d slot base body"
      unfolding laid_entry_def using slot len body by (intro conjI exI [of _ "w_pos x"]) auto
    then show ?thesis using ih sched2 Cons e by auto
  qed simp
qed

section \<open>The string pool lays out every queued string\<close>

lemma strs_head_patch:
  assumes u: "wwf (u\<lparr>w_strs := (slot, str) # rest\<rparr>)"
    and y: "settled E ((patch_u32 slot v u)\<lparr>w_strs := rest\<rparr>) d"
    and E: "E \<inter> pend (u\<lparr>w_strs := (slot, str) # rest\<rparr>) = {}"
  shows "slot + 4 \<le> length d \<and> bytes_at d slot 4 = u32_le v"
proof -
  let ?x = "u\<lparr>w_strs := (slot, str) # rest\<rparr>" and ?y = "(patch_u32 slot v u)\<lparr>w_strs := rest\<rparr>"
  have sl: "slot \<in> set (slots ?x)" by (simp add: slots_def)
  have sub: "set (slots ?y) \<subseteq> set (slots ?x) - {slot}"
    using u by (auto simp: slots_def wwf_def patch_u32_def)
  have wy: "wwf ?y" by (rule strs_patch_wwf [OF u])
  have slot: "slot + 4 \<le> w_pos u" using u by (simp add: wwf_def slots_def)
  have "bytes_at d slot 4 = bytes_at (w_buf ?y) slot 4"
  proof (rule settled_bytes_at [OF y wy])
    show "slot + 4 \<le> w_pos ?y" using slot by (simp add: patch_u32_def)
    fix i assume i: "slot \<le> i" "i < slot + 4"
    show "i \<notin> pend ?y \<and> i \<notin> E"
      using slot_free [OF u sl sub i] E i by (auto simp: pend_def slots_def)
  qed
  also have "\<dots> = u32_le v"
    using bytes_at_overwrite_same [of "w_buf u" slot "u32_le v"] by (simp add: patch_u32_def)
  finally show ?thesis using y slot by (auto simp: settled_def patch_u32_def)
qed

lemma flush_strings_laid_out:
  assumes "wwf (w\<lparr>w_strs := q\<rparr>)" "w_strs w = []" "settled E (flush_strings pool q w) d"
    "\<forall>i\<in>E. i < w_pos w" "E \<inter> pend (w\<lparr>w_strs := q\<rparr>) = {}"
    "\<forall>str a. pool str = Some a \<longrightarrow> laid_cstr d a str"
  shows "\<forall>(slot, str) \<in> set q. laid_str d slot str"
  using assms
proof (induction pool q w rule: flush_strings.induct)
  case (2 pool slot str rest w)
  let ?x = "w\<lparr>w_strs := (slot, str) # rest\<rparr>"
  have pend_rest: "pend (u\<lparr>w_strs := rest\<rparr>) \<subseteq> pend ?x" if "w_sched u = w_sched w" for u
    using that by (auto simp: pend_def slots_def)
  have below: "i < w_pos w" if "i \<in> pend ?x" for i using pend_below [OF "2.prems"(1) that] by simp
  show ?case
  proof (cases "pool str")
    case (Some a)
    let ?w1 = "patch_u32 slot (offset_value a 0) w"
    have wy1: "wwf (?w1\<lparr>w_strs := rest\<rparr>)" by (rule strs_patch_wwf [OF "2.prems"(1)])
    have strs1: "w_strs ?w1 = []" using "2.prems"(2) by (simp add: patch_u32_def)
    have s1: "settled E (flush_strings pool rest ?w1) d" using "2.prems"(3) Some by simp
    have st1: "settled E (?w1\<lparr>w_strs := rest\<rparr>) d"
      using flush_strings_wwf_settled [OF wy1 strs1, of pool E d] s1 by simp
    have head: "laid_str d slot str"
      using strs_head_patch [OF "2.prems"(1) st1 "2.prems"(5)] "2.prems"(6) Some
      by (auto simp: laid_str_def laid_cstr_def)
    have "\<forall>(slot, str) \<in> set rest. laid_str d slot str"
    proof (rule "2.IH"(2) [OF Some wy1 strs1 s1])
      show "\<forall>i\<in>E. i < w_pos ?w1" using "2.prems"(4) by (simp add: patch_u32_def)
      show "E \<inter> pend (?w1\<lparr>w_strs := rest\<rparr>) = {}"
        using "2.prems"(5) pend_rest [of ?w1] by (auto simp: patch_u32_def)
    qed (use "2.prems"(6) in simp)
    then show ?thesis using head by simp
  next
    case None
    let ?w0 = "write_raw (cstr_bytes str) w"
    let ?w1 = "patch_u32 slot (offset_value (w_pos w) 0) ?w0"
    let ?pool = "pool(str \<mapsto> w_pos w)"
    have v0: "wwf (?w0\<lparr>w_strs := (slot, str) # rest\<rparr>)"
      using write_raw_wwf [OF "2.prems"(1)] by (simp add: patch_strs_commute)
    have E0: "E \<inter> pend (?w0\<lparr>w_strs := (slot, str) # rest\<rparr>) = {}"
      using "2.prems"(5) by (simp add: pend_def slots_def write_raw_def)
    have wy1: "wwf (?w1\<lparr>w_strs := rest\<rparr>)" by (rule strs_patch_wwf [OF v0])
    have strs1: "w_strs ?w1 = []" using "2.prems"(2) by (simp add: patch_u32_def write_raw_def)
    have s1: "settled E (flush_strings ?pool rest ?w1) d" using "2.prems"(3) None by simp
    have st1: "settled E (?w1\<lparr>w_strs := rest\<rparr>) d"
      using flush_strings_wwf_settled [OF wy1 strs1, of ?pool E d] s1 by simp
    have slot: "slot + 4 \<le> w_pos w" using "2.prems"(1) by (simp add: wwf_def slots_def)
    have pos1: "w_pos (?w1\<lparr>w_strs := rest\<rparr>) = w_pos w + Suc (length str)"
      by (simp add: patch_u32_def write_raw_def)
    have "bytes_at d (w_pos w) (Suc (length str)) = bytes_at (w_buf (?w1\<lparr>w_strs := rest\<rparr>)) (w_pos w) (Suc (length str))"
    proof (rule settled_bytes_at [OF st1 wy1])
      show "w_pos w + Suc (length str) \<le> w_pos (?w1\<lparr>w_strs := rest\<rparr>)" by (simp add: pos1)
      fix i assume i: "w_pos w \<le> i" "i < w_pos w + Suc (length str)"
      have "i \<notin> pend ?x" using below i(1) by fastforce
      moreover have "pend (?w1\<lparr>w_strs := rest\<rparr>) \<subseteq> pend ?x"
        using pend_rest [of ?w1] by (simp add: patch_u32_def write_raw_def)
      moreover have "i \<notin> E" using "2.prems"(4) i(1) by auto
      ultimately show "i \<notin> pend (?w1\<lparr>w_strs := rest\<rparr>) \<and> i \<notin> E" by blast
    qed
    also have "\<dots> = cstr_bytes str"
      using slot bytes_at_overwrite_same [of "w_buf w" "w_pos w" "cstr_bytes str"]
      by (simp add: patch_u32_def write_raw_def bytes_at_overwrite_after)
    finally have cstr: "laid_cstr d (w_pos w) str"
      using st1 pos1 slot by (simp add: laid_cstr_def settled_def)
    have head: "laid_str d slot str"
      using strs_head_patch [OF v0 st1 E0] cstr by (auto simp: laid_str_def laid_cstr_def)
    have "\<forall>(slot, str) \<in> set rest. laid_str d slot str"
    proof (rule "2.IH"(1) [OF None wy1 strs1 s1])
      show "\<forall>i\<in>E. i < w_pos ?w1" using "2.prems"(4) by (auto simp: patch_u32_def write_raw_def)
      show "E \<inter> pend (?w1\<lparr>w_strs := rest\<rparr>) = {}"
        using "2.prems"(5) pend_rest [of ?w1] by (auto simp: patch_u32_def write_raw_def)
      show "\<forall>s a. ?pool s = Some a \<longrightarrow> laid_cstr d a s" using "2.prems"(6) cstr by auto
    qed
    then show ?thesis using head by simp
  qed
qed simp

section \<open>Both flushes together\<close>

text \<open>
  Starting from a well-formed writer, \<open>FlushScheduledWrites\<close> followed by
  \<open>FlushScheduledStrings\<close> lays out every queued body and string, also those queued by
  bodies.
\<close>

lemma flush_all_laid_out:
  assumes x: "wwf x"
  shows "(\<forall>(slot, base, body) \<in> set (w_sched x).
            laid_entry (w_buf (flush_scheduled_strings (flush_scheduled_writes x))) slot base body) \<and>
         (\<forall>(slot, str) \<in> set (w_strs x).
            laid_str (w_buf (flush_scheduled_strings (flush_scheduled_writes x))) slot str)"
proof -
  let ?y = "flush_scheduled_writes x"
  let ?z = "flush_scheduled_strings ?y"
  let ?d = "w_buf ?z"
  have y: "wwf ?y" using flush_scheduled_writes_wwf_settled [OF x] by simp
  have z: "wwf ?z" "settled {} ?z ?d"
    using flush_scheduled_strings_wwf_settled [OF y] settled_self by (simp_all add: wwf_def)
  have sy: "settled {} ?y ?d" using flush_scheduled_strings_wwf_settled [OF y] z(2) by simp
  have strs: "\<forall>(slot, str) \<in> set (w_strs ?y). laid_str ?d slot str"
  proof -
    have "wwf ((?y\<lparr>w_strs := []\<rparr>)\<lparr>w_strs := w_strs ?y\<rparr>)" using y by simp
    from flush_strings_laid_out [OF this _ _ _ _, where pool = Map.empty and E = "{}" and d = ?d] z(2)
    show ?thesis by (simp add: flush_scheduled_strings_def)
  qed
  have "\<forall>(slot, base, body) \<in> set (w_sched x). laid_entry ?d slot base body"
    using flush_scheduled_writes_laid_out [OF x sy _ _ strs] by simp
  moreover have "\<forall>(slot, str) \<in> set (w_strs x). laid_str ?d slot str"
    using strs flush_scheduled_writes_strs [of x] by blast
  ultimately show ?thesis by blast
qed

end
