(* ===== verification/Codec_Layout.thy ===== *)
theory Codec_Layout
  imports Spr_Codec Writer_Layout
begin

text \<open>
  The writer's layout facts (\<open>Writer_Layout\<close>) applied to the codec's writers.
  \<open>TexSet::Write\<close> is the header commands and one texture slot per texture
  (\<open>tex_set_cmds\<close>) followed by the flush and \<open>Pad(16)\<close>; \<open>SprSet::Write\<close> is
  the flags and a placeholder, the header commands (\<open>spr_header_cmds\<close>: the two counts
  and the four body slots), the flush, the string pool, the padding, the texture set and
  the final patch of the texture-set pointer (\<open>spr_set_encode_stages\<close>).  None of the
  codec's texture bodies queues a string (\<open>str_free\<close>), so the texture set leaves the
  string queue alone.  The results: every codec writer keeps the writer well formed
  (C18), every body \<open>TexSet::Write\<close> schedules is laid out where its slot points (C17),
  and the bytes \<open>SprSet::Write\<close> produces hold the header, the four bodies and the texture
  set where the header's pointers say (\<open>spr_set_layout\<close>).
\<close>

fun str_free :: "wcmd \<Rightarrow> bool" where
  "str_free (W_Sched b body) = (\<forall>c \<in> set body. str_free c)"
| "str_free (W_Sched_Str str) = False"
| "str_free _ = True"

definition sched_str_free :: "writer \<Rightarrow> bool" where
  "sched_str_free w \<longleftrightarrow> (\<forall>(slot, base, body) \<in> set (w_sched w). \<forall>c \<in> set body. str_free c)"

definition tex_set_cmds :: "nat \<Rightarrow> tex list \<Rightarrow> wcmd list" where
  "tex_set_cmds p texs =
     [W_U32 (txp_sig_value Txp_TexSet), W_U32 (of_nat (length texs)), W_U32 (of_nat (length texs) OR 0x01010100)]
     @ map (\<lambda>t. W_Sched (Base_Abs p) (tex_body t)) texs"

definition slots_from :: "nat \<Rightarrow> writer \<Rightarrow> bool" where
  "slots_from lo x \<longleftrightarrow> lo \<le> w_pos x \<and> (\<forall>a \<in> set (slots x). lo \<le> a)"

definition spr_header_cmds :: "spr_set \<Rightarrow> wcmd list" where
  "spr_header_cmds s =
     [W_U32 (of_nat (length (tex_set s))), W_U32 (of_nat (length (sprites s))),
      W_Sched (Base_Abs 0) (sprites_body (sprites s)), W_Sched (Base_Abs 0) (tex_names_body (tex_set s)),
      W_Sched (Base_Abs 0) (sprite_names_body (sprites s)), W_Sched (Base_Abs 0) (sprite_extra_body (sprites s))]"

definition spr_head :: "spr_set \<Rightarrow> writer" where
  "spr_head s = exec_cmds 0 (spr_header_cmds s) (write_u32 0 (write_u32 (spr_flags s) writer_init))"

definition spr_body_end :: "spr_set \<Rightarrow> writer" where
  "spr_body_end s = pad 16 (flush_scheduled_strings (pad 16 (flush_scheduled_writes (spr_head s))))"

section \<open>Evaluating the flush on a known queue\<close>

lemma flush_scheduled_writes_Nil: "w_sched w = [] \<Longrightarrow> flush_scheduled_writes w = w"
  by (simp add: flush_scheduled_writes.simps [of w])

lemma flush_scheduled_writes_Cons:
  "w_sched w = (slot, base, body) # rest \<Longrightarrow> flush_scheduled_writes w =
     flush_scheduled_writes (exec_cmds (w_pos w) body (patch_u32 slot (offset_value (w_pos w) base) (w\<lparr>w_sched := rest\<rparr>)))"
  by (simp add: flush_scheduled_writes.simps [of w])

section \<open>Bodies that queue no string\<close>

lemma exec_cmds_append: "exec_cmds s (cs @ cs') w = exec_cmds s cs' (exec_cmds s cs w)"
  by (simp add: exec_cmds_def)

lemma exec_cmd_str_free:
  "str_free c \<Longrightarrow> sched_str_free w \<Longrightarrow> w_strs (exec_cmd s c w) = w_strs w \<and> sched_str_free (exec_cmd s c w)"
  by (cases c) (auto simp: sched_str_free_def write_u8_def write_u32_def write_raw_def schedule_write_offset_def)

lemma exec_cmds_str_free:
  "\<forall>c \<in> set cs. str_free c \<Longrightarrow> sched_str_free w \<Longrightarrow>
   w_strs (exec_cmds s cs w) = w_strs w \<and> sched_str_free (exec_cmds s cs w)"
  unfolding exec_cmds_def
proof (induction cs arbitrary: w)
  case (Cons c cs)
  then show ?case using exec_cmd_str_free [of c w s] by simp
qed simp

lemma flush_scheduled_writes_str_free:
  "sched_str_free w \<Longrightarrow> w_strs (flush_scheduled_writes w) = w_strs w"
proof (induction w rule: flush_scheduled_writes.induct)
  case (1 w)
  show ?case
  proof (cases "w_sched w")
    case (Cons e rest)
    obtain slot base body where e: "e = (slot, base, body)" by (cases e)
    let ?w1 = "patch_u32 slot (offset_value (w_pos w) base) (w\<lparr>w_sched := rest\<rparr>)"
    have "\<forall>c \<in> set body. str_free c" "sched_str_free ?w1"
      using "1.prems" Cons e by (auto simp: sched_str_free_def patch_u32_def)
    from exec_cmds_str_free [OF this, of "w_pos w"] show ?thesis
      using "1.IH" [OF Cons e [symmetric] refl] Cons e
      by (simp add: flush_scheduled_writes.simps [of w] patch_u32_def)
  qed (simp add: flush_scheduled_writes.simps [of w])
qed

lemma tex_body_str_free: "\<forall>c \<in> set (tex_body t). str_free c"
  by (auto simp: tex_body_def mip_map_body_def)

section \<open>TexSet::Write as a list of writer commands\<close>

lemma tex_set_write_cmds:
  "tex_set_write texs w = pad 16 (flush_scheduled_writes (exec_cmds s (tex_set_cmds (w_pos w) texs) w))"
  by (simp add: tex_set_write_def Let_def tex_set_cmds_def exec_cmds_append fold_schedule_exec_cmds [where s = s])
     (simp add: exec_cmds_def)

lemma tex_set_write_wwf: "wwf w \<Longrightarrow> wwf (tex_set_write texs w)"
  using exec_cmds_wwf [of w "w_pos w" "tex_set_cmds (w_pos w) texs"]
    flush_scheduled_writes_wwf_settled pad_wwf_settled
  by (simp add: tex_set_write_cmds [where s = "w_pos w"])

lemma tex_set_write_pos: "w_pos w \<le> w_pos (tex_set_write texs w)"
  using exec_cmds_pos_mono [of w "w_pos w" "tex_set_cmds (w_pos w) texs"]
    flush_scheduled_writes_sched_pos [of "exec_cmds (w_pos w) (tex_set_cmds (w_pos w) texs) w"]
    pad_sched_pos [of 16 "flush_scheduled_writes (exec_cmds (w_pos w) (tex_set_cmds (w_pos w) texs) w)"]
  by (simp add: tex_set_write_cmds [where s = "w_pos w"])

lemma pad_queues: "w_sched (pad n w) = w_sched w \<and> w_strs (pad n w) = w_strs w \<and> pend (pad n w) = pend w"
  by (simp add: pad_def write_raw_def pend_def slots_def)

lemma tex_set_write_queues:
  "w_sched w = [] \<Longrightarrow> w_sched (tex_set_write texs w) = [] \<and> w_strs (tex_set_write texs w) = w_strs w"
proof -
  assume w: "w_sched w = []"
  let ?x = "exec_cmds (w_pos w) (tex_set_cmds (w_pos w) texs) w"
  have free: "\<forall>c \<in> set (tex_set_cmds (w_pos w) texs). str_free c" "sched_str_free w"
    using tex_body_str_free w by (auto simp: tex_set_cmds_def sched_str_free_def)
  note x = exec_cmds_str_free [OF free, of "w_pos w"]
  show ?thesis
    using flush_scheduled_writes_str_free [OF x [THEN conjunct2]] x flush_scheduled_writes_sched_pos [of ?x]
      pad_queues [of 16 "flush_scheduled_writes ?x"]
    by (simp add: tex_set_write_cmds [where s = "w_pos w"])
qed

lemma tex_set_write_settled: "wwf w \<Longrightarrow> settled E (tex_set_write texs w) d \<Longrightarrow> settled E w d"
  using exec_cmds_wwf [of w "w_pos w" "tex_set_cmds (w_pos w) texs"]
    flush_scheduled_writes_wwf_settled [of "exec_cmds (w_pos w) (tex_set_cmds (w_pos w) texs) w" E d]
    pad_wwf_settled [of "flush_scheduled_writes (exec_cmds (w_pos w) (tex_set_cmds (w_pos w) texs) w)" 16 E d]
    exec_cmds_settled [of E "w_pos w" "tex_set_cmds (w_pos w) texs" w d]
  by (simp add: tex_set_write_cmds [where s = "w_pos w"])

lemma tex_set_write_laid_out:
  assumes w: "wwf w" "w_sched w = []" "w_strs w = []"
    and d: "settled E (tex_set_write texs w) d" and E: "\<forall>i\<in>E. i < w_pos w"
  shows "laid_out d (w_pos w) (w_pos w) (tex_set_cmds (w_pos w) texs)"
proof -
  let ?x = "exec_cmds (w_pos w) (tex_set_cmds (w_pos w) texs) w"
  have x: "wwf ?x" by (rule exec_cmds_wwf [OF w(1)])
  have fx: "wwf (flush_scheduled_writes ?x)" "settled E (flush_scheduled_writes ?x) d"
    using flush_scheduled_writes_wwf_settled [OF x] pad_wwf_settled [of "flush_scheduled_writes ?x"] d
    by (simp_all add: tex_set_write_cmds [where s = "w_pos w"])
  have sx: "settled E ?x d" using flush_scheduled_writes_wwf_settled [OF x] fx(2) by simp
  have free: "\<forall>c \<in> set (tex_set_cmds (w_pos w) texs). str_free c" "sched_str_free w"
    using tex_body_str_free w(2) by (auto simp: tex_set_cmds_def sched_str_free_def)
  have strs: "w_strs ?x = []" "w_strs (flush_scheduled_writes ?x) = []"
    using exec_cmds_str_free [OF free] flush_scheduled_writes_str_free [of ?x] w(3) by simp_all
  have pend: "E \<inter> pend ?x = {}"
  proof -
    have "pend w = {}" using w(2,3) by (simp add: pend_def slots_def)
    then show ?thesis using exec_cmds_pend [of _ "w_pos w" _ w] E by fastforce
  qed
  have "\<forall>i\<in>E. i < w_pos ?x" using E exec_cmds_pos_mono [of w "w_pos w" "tex_set_cmds (w_pos w) texs"] by fastforce
  from flush_scheduled_writes_laid_out [OF x fx(2) this pend] strs(2)
  have "\<forall>(slot, base, body) \<in> set (w_sched ?x). laid_entry d slot base body" by simp
  then show ?thesis
    using exec_cmds_laid_out [OF w(1) sx E] strs(1) by fastforce
qed

section \<open>SprSet::Write in stages\<close>

lemma slots_from_pend: "slots_from lo x \<Longrightarrow> i \<in> pend x \<Longrightarrow> lo \<le> i"
  by (auto simp: slots_from_def pend_def)

lemma exec_cmds_slots_from: "slots_from lo x \<Longrightarrow> slots_from lo (exec_cmds s cs x)"
  using exec_cmds_queues [of s cs x] exec_cmds_pos_mono [of x s cs]
  by (fastforce simp: slots_from_def slots_def)

lemma flush_scheduled_writes_slots_from: "slots_from lo x \<Longrightarrow> slots_from lo (flush_scheduled_writes x)"
proof (induction x rule: flush_scheduled_writes.induct)
  case (1 x)
  show ?case
  proof (cases "w_sched x")
    case (Cons e rest)
    obtain slot base body where e: "e = (slot, base, body)" by (cases e)
    let ?x1 = "patch_u32 slot (offset_value (w_pos x) base) (x\<lparr>w_sched := rest\<rparr>)"
    have "slots_from lo ?x1" using "1.prems" Cons e by (auto simp: slots_from_def slots_def patch_u32_def)
    then show ?thesis
      using "1.IH" [OF Cons e [symmetric] refl exec_cmds_slots_from] Cons e
      by (simp add: flush_scheduled_writes.simps [of x])
  qed (use "1.prems" in \<open>simp add: flush_scheduled_writes.simps [of x]\<close>)
qed

lemma spr_set_encode_stages:
  "spr_set_encode s = overwrite (w_buf (tex_set_write (tex_set s) (spr_body_end s))) 4
     (u32_le (of_nat (w_pos (spr_body_end s))))"
proof -
  have p1: "w_pos (write_u32 (spr_flags s) writer_init) = 4"
    by (simp add: write_u32_def write_raw_def writer_init_def)
  have h: "spr_head s = schedule_write_offset 0 (sprite_extra_body (sprites s))
    (schedule_write_offset 0 (sprite_names_body (sprites s))
    (schedule_write_offset 0 (tex_names_body (tex_set s))
    (schedule_write_offset 0 (sprites_body (sprites s))
    (write_u32 (of_nat (length (sprites s))) (write_u32 (of_nat (length (tex_set s)))
    (write_u32 0 (write_u32 (spr_flags s) writer_init)))))))"
    by (simp add: spr_head_def spr_header_cmds_def exec_cmds_def base_value_def)
  show ?thesis
    unfolding spr_set_encode_def spr_set_write_def Let_def p1 spr_body_end_def h
    by (simp add: write_u32_def write_raw_def seek_def)
qed

lemma spr_set_write_stages:
  "spr_set_write s w0 =
     (let w8 = exec_cmds 0 (spr_header_cmds s) (write_u32 0 (write_u32 (spr_flags s) w0));
          w9 = pad 16 (flush_scheduled_strings (pad 16 (flush_scheduled_writes w8)))
      in write_u32 (of_nat (w_pos w9)) (seek (w_pos w0 + 4) (tex_set_write (tex_set s) w9)))"
proof -
  have p1: "w_pos (write_u32 (spr_flags s) w0) = w_pos w0 + 4"
    by (simp add: write_u32_def write_raw_def)
  have h: "exec_cmds 0 (spr_header_cmds s) (write_u32 0 (write_u32 (spr_flags s) w0)) =
    schedule_write_offset 0 (sprite_extra_body (sprites s))
    (schedule_write_offset 0 (sprite_names_body (sprites s))
    (schedule_write_offset 0 (tex_names_body (tex_set s))
    (schedule_write_offset 0 (sprites_body (sprites s))
    (write_u32 (of_nat (length (sprites s))) (write_u32 (of_nat (length (tex_set s)))
    (write_u32 0 (write_u32 (spr_flags s) w0)))))))"
    by (simp add: spr_header_cmds_def exec_cmds_def base_value_def)
  show ?thesis unfolding spr_set_write_def Let_def p1 h ..
qed

lemma spr_base_writer:
  "w_buf (write_u32 0 (write_u32 f writer_init)) = u32_le f @ u32_le 0 \<and>
   w_pos (write_u32 0 (write_u32 f writer_init)) = 8 \<and>
   w_sched (write_u32 0 (write_u32 f writer_init)) = [] \<and> w_strs (write_u32 0 (write_u32 f writer_init)) = []"
  by (simp add: write_u32_def write_raw_def writer_init_def overwrite_def del: u32_le_0)

lemma spr_set_write_wwf: "wwf w0 \<Longrightarrow> wwf (spr_set_write s w0)"
proof -
  assume w0: "wwf w0"
  define w8 where "w8 = exec_cmds 0 (spr_header_cmds s) (write_u32 0 (write_u32 (spr_flags s) w0))"
  define w9 where "w9 = pad 16 (flush_scheduled_strings (pad 16 (flush_scheduled_writes w8)))"
  let ?w10 = "tex_set_write (tex_set s) w9"
  have "wwf (write_u32 0 (write_u32 (spr_flags s) w0))"
    using exec_cmd_wwf [OF exec_cmd_wwf [OF w0, of 0 "W_U32 (spr_flags s)"], of 0 "W_U32 0"] by simp
  then have w8: "wwf w8" unfolding w8_def by (rule exec_cmds_wwf)
  then have wy: "wwf (flush_scheduled_writes w8)" "w_sched (flush_scheduled_writes w8) = []"
    using flush_scheduled_writes_wwf_settled [OF w8] flush_scheduled_writes_sched_pos [of w8] by simp_all
  then have w9: "wwf w9" "w_sched w9 = []" "w_strs w9 = []"
    using pad_wwf_settled [OF wy(1)] pad_queues [of 16 "flush_scheduled_writes w8"]
      flush_scheduled_strings_wwf_settled [of "pad 16 (flush_scheduled_writes w8)"]
      flush_scheduled_strings_sched_pos [of "pad 16 (flush_scheduled_writes w8)"]
      pad_wwf_settled [of "flush_scheduled_strings (pad 16 (flush_scheduled_writes w8))"]
      pad_queues [of 16 "flush_scheduled_strings (pad 16 (flush_scheduled_writes w8))"]
    unfolding w9_def by simp_all
  have w10: "w_sched ?w10 = []" "w_strs ?w10 = []" using tex_set_write_queues [OF w9(2)] w9(3) by simp_all
  show ?thesis
    using w10 unfolding spr_set_write_stages [of s w0] Let_def w8_def [symmetric] w9_def [symmetric]
    by (simp add: wwf_def slots_def write_u32_def write_raw_def seek_def)
qed

section \<open>Every codec writer keeps the writer well formed\<close>


section \<open>The layout of an encoded sprite set\<close>

lemma spr_set_layout:
  "bytes_at (spr_set_encode s) 0 4 = u32_le (spr_flags s) \<and>
   bytes_at (spr_set_encode s) 4 4 = u32_le (of_nat (w_pos (spr_body_end s))) \<and> 32 \<le> w_pos (spr_body_end s) \<and>
   laid_out (spr_set_encode s) 0 8 (spr_header_cmds s) \<and>
   laid_out (spr_set_encode s) (w_pos (spr_body_end s)) (w_pos (spr_body_end s)) (tex_set_cmds (w_pos (spr_body_end s)) (tex_set s))"
proof -
  define d where "d = spr_set_encode s"
  define P where "P = w_pos (spr_body_end s)"
  let ?E = "{4..<8} :: nat set"
  let ?w2 = "write_u32 0 (write_u32 (spr_flags s) writer_init)"
  let ?w8 = "spr_head s" and ?y = "flush_scheduled_writes (spr_head s)"
  let ?y1 = "pad 16 (flush_scheduled_writes (spr_head s))"
  let ?z = "flush_scheduled_strings ?y1" and ?w9 = "spr_body_end s"
  let ?w10 = "tex_set_write (tex_set s) (spr_body_end s)"
  have b2: "w_buf ?w2 = u32_le (spr_flags s) @ u32_le 0" "w_pos ?w2 = 8" "w_sched ?w2 = []" "w_strs ?w2 = []"
    using spr_base_writer by simp_all
  have w2: "wwf ?w2" "slots_from 8 ?w2" using b2 by (simp_all add: wwf_def slots_def slots_from_def)
  have w8: "wwf ?w8" "slots_from 8 ?w8" unfolding spr_head_def
    by (simp_all add: exec_cmds_wwf [OF w2(1)] exec_cmds_slots_from [OF w2(2)])
  have p8: "w_pos ?w8 = 32" using b2 exec_cmds_image [of ?w2 0 "spr_header_cmds s"]
    by (simp add: spr_head_def spr_header_cmds_def cmds_bytes_def)
  have wy: "wwf ?y" "slots_from 8 ?y"
    using flush_scheduled_writes_wwf_settled [OF w8(1)] flush_scheduled_writes_slots_from [OF w8(2)] by simp_all
  have wy1: "wwf ?y1" "w_strs ?y1 = w_strs ?y" "pend ?y1 = pend ?y" "w_pos ?y \<le> w_pos ?y1"
    using pad_wwf_settled [OF wy(1)] pad_sched_pos [of 16 ?y] pad_queues [of 16 ?y] by simp_all
  have wz: "wwf ?z" "w_strs ?z = []" "w_sched ?z = []" "w_pos ?y1 \<le> w_pos ?z"
    using flush_scheduled_strings_wwf_settled [OF wy1(1)] flush_scheduled_strings_sched_pos [of ?y1]
      pad_sched_pos [of 16 ?y] flush_scheduled_writes_sched_pos [of ?w8] by simp_all
  have w9: "wwf ?w9" "w_strs ?w9 = []" "w_sched ?w9 = []" "w_pos ?z \<le> w_pos ?w9"
    using pad_wwf_settled [OF wz(1)] pad_sched_pos [of 16 ?z] pad_queues [of 16 ?z] wz(2,3)
    unfolding spr_body_end_def by simp_all
  have pos: "32 \<le> w_pos ?y" "32 \<le> P"
    using p8 flush_scheduled_writes_sched_pos [of ?w8] wy1(4) wz(4) w9(4) unfolding P_def by simp_all
  have w10: "wwf ?w10" by (rule tex_set_write_wwf [OF w9(1)])
  have dd: "d = overwrite (w_buf ?w10) 4 (u32_le (of_nat P))"
    unfolding d_def P_def by (rule spr_set_encode_stages)
  have len10: "8 \<le> length (w_buf ?w10)"
    using w10 pos(2) tex_set_write_pos [of ?w9 "tex_set s"] unfolding P_def wwf_def by linarith
  have s10: "settled ?E ?w10 d"
    unfolding settled_def
  proof (intro conjI allI impI)
    have "w_pos ?w10 \<le> length (w_buf ?w10)" using w10 by (simp add: wwf_def)
    then show "w_pos ?w10 \<le> length d" by (simp add: dd)
    fix i assume i: "i < w_pos ?w10" "i \<notin> pend ?w10" "i \<notin> ?E"
    then have "i < length (w_buf ?w10)" using w10 by (simp add: wwf_def)
    then show "d ! i = w_buf ?w10 ! i"
      using i(3) by (cases "i < 4") (auto simp: dd nth_overwrite_before nth_overwrite_after)
  qed
  have E32: "\<forall>i \<in> ?E. i < 32" by simp
  have tex: "laid_out d P P (tex_set_cmds P (tex_set s))"
    using tex_set_write_laid_out [OF w9(1) w9(3) w9(2) s10] pos(2) unfolding P_def by auto
  have s9: "settled ?E ?w9 d" by (rule tex_set_write_settled [OF w9(1) s10])
  have sz: "settled ?E ?z d" using pad_wwf_settled [OF wz(1)] s9 unfolding spr_body_end_def by simp
  have sy1: "settled ?E ?y1 d" using flush_scheduled_strings_wwf_settled [OF wy1(1)] sz by simp
  have sy: "settled ?E ?y d" using pad_wwf_settled [OF wy(1)] sy1 by simp
  have Ey: "?E \<inter> pend ?y = {}" using slots_from_pend [OF wy(2)] by fastforce
  have strs: "\<forall>(slot, str) \<in> set (w_strs ?y). laid_str d slot str"
  proof -
    have v: "wwf ((?y1\<lparr>w_strs := []\<rparr>)\<lparr>w_strs := w_strs ?y1\<rparr>)" using wy1(1) by simp
    have "settled ?E (flush_strings Map.empty (w_strs ?y1) (?y1\<lparr>w_strs := []\<rparr>)) d"
      using sz by (simp add: flush_scheduled_strings_def)
    moreover have "\<forall>i \<in> ?E. i < w_pos (?y1\<lparr>w_strs := []\<rparr>)" using pos(1) wy1(4) by auto
    moreover have "?E \<inter> pend ((?y1\<lparr>w_strs := []\<rparr>)\<lparr>w_strs := w_strs ?y1\<rparr>) = {}" using Ey wy1(3) by simp
    ultimately show ?thesis
      using flush_strings_laid_out [OF v, where pool = Map.empty and E = ?E and d = d] wy1(2) by simp
  qed
  have e8: "\<forall>(slot, base, body) \<in> set (w_sched ?w8). laid_entry d slot base body"
  proof (rule flush_scheduled_writes_laid_out [OF w8(1) sy])
    show "\<forall>i \<in> ?E. i < w_pos ?w8" using p8 by simp
    show "?E \<inter> pend ?w8 = {}" using slots_from_pend [OF w8(2)] by fastforce
  qed (use strs in simp)
  have s8: "settled ?E ?w8 d" using flush_scheduled_writes_wwf_settled [OF w8(1)] sy by simp
  have hdr: "laid_out d 0 8 (spr_header_cmds s)"
  proof -
    have "laid_out d 0 (w_pos ?w2) (spr_header_cmds s)"
    proof (rule exec_cmds_laid_out [OF w2(1)])
      show "settled ?E (exec_cmds 0 (spr_header_cmds s) ?w2) d" using s8 by (simp add: spr_head_def)
      show "\<forall>i \<in> ?E. i < w_pos ?w2" using b2 by simp
      show "\<forall>(slot, base, body) \<in> set (w_sched (exec_cmds 0 (spr_header_cmds s) ?w2)). w_pos ?w2 \<le> slot \<longrightarrow>
          laid_entry d slot base body" using e8 by (auto simp: spr_head_def)
      have "set (w_strs ?w8) \<subseteq> set (w_strs ?y)" by (rule flush_scheduled_writes_strs)
      then show "\<forall>(slot, str) \<in> set (w_strs (exec_cmds 0 (spr_header_cmds s) ?w2)). w_pos ?w2 \<le> slot \<longrightarrow>
          laid_str d slot str" using strs by (auto simp: spr_head_def)
    qed
    then show ?thesis using b2 by simp
  qed
  have "bytes_at d 0 4 = bytes_at (w_buf ?w8) 0 4"
  proof (rule settled_bytes_at [OF s8 w8(1)])
    show "0 + 4 \<le> w_pos ?w8" using p8 by simp
    fix i :: nat assume "0 \<le> i" "i < 0 + 4"
    then show "i \<notin> pend ?w8 \<and> i \<notin> ?E" using slots_from_pend [OF w8(2), of i] by auto
  qed
  also have "\<dots> = bytes_at (w_buf ?w2) 0 4"
    using exec_cmds_take [of ?w2 0 "spr_header_cmds s"] b2
    by (intro bytes_at_take_eq [of 8]) (simp_all add: spr_head_def)
  also have "\<dots> = u32_le (spr_flags s)" using b2 by (simp add: bytes_at_append_take del: u32_le_0)
  finally have flags: "bytes_at d 0 4 = u32_le (spr_flags s)" .
  have ptr: "bytes_at d 4 4 = u32_le (of_nat P)"
    using bytes_at_overwrite_same [of "w_buf ?w10" 4 "u32_le (of_nat P)"] by (simp add: dd)
  show ?thesis using flags ptr pos(2) hdr tex unfolding d_def P_def by simp
qed

section \<open>TexSet::Write performs every write it schedules\<close>


end
