(* ===== verification/Tex_Roundtrip.thy ===== *)
theory Tex_Roundtrip
  imports Codec_Layout
begin

text \<open>
  Decoding what \<open>TexSet::Write\<close> wrote.  Reader lemmas turn layout facts into runs of the
  decoder: a data-only body is a contiguous byte image (\<open>laid_out_data\<close>); an offset read
  from a slot reaches the body's position when the file is shorter than 2 GiB, so that
  the signed 32-bit offset is positive (\<open>sint_offset_value\<close>); \<open>ReadAtOffset\<close> then
  restores the cursor and the base stack (\<open>read_at_offset_laid\<close>).  From these, the mipmap
  callback, the level and slice loops, \<open>Tex::Read\<close>, the texture loop and
  \<open>TexSet::Read\<close> decode their bodies (\<open>read_mip_map_laid\<close> to \<open>tex_set_read_laid\<close>).

  A texture decodes back when it is well formed (\<open>tex_wf\<close>): a 2D or cube-map signature,
  fewer than 256 slices of the same number (below 256) of levels, data as long as its
  size field, and a level count that \<open>Tex::Read\<close> recovers from the header (a cube map, at
  most one slice, or no levels; see C16).  \<open>Tex::Read\<close> never stores the signature it
  reads, so the decoded texture is \<open>tex_reset t\<close>: the default texture with the mipmaps.
\<close>

fun is_data :: "wcmd \<Rightarrow> bool" where
  "is_data (W_U8 b) = True"
| "is_data (W_U32 v) = True"
| "is_data (W_Bytes bs) = True"
| "is_data _ = False"

definition tex_wf :: "tex \<Rightarrow> bool" where
  "tex_wf t \<longleftrightarrow>
     (tex_signature t = Txp_Texture2D \<or> tex_signature t = Txp_CubeMap) \<and>
     length (mip_maps_array t) < 256 \<and>
     (\<forall>sl \<in> set (mip_maps_array t). length sl = length (hd (mip_maps_array t)) \<and> length sl < 256 \<and>
        (\<forall>m \<in> set sl. length (mm_data m) = unat (mm_data_size m))) \<and>
     (tex_signature t = Txp_CubeMap \<or> length (mip_maps_array t) \<le> 1 \<or> (\<forall>sl \<in> set (mip_maps_array t). sl = []))"

definition tex_levels :: "tex \<Rightarrow> nat" where
  "tex_levels t = (if mip_maps_array t = [] then 0 else length (hd (mip_maps_array t)))"

definition tex_reset :: "tex \<Rightarrow> tex" where
  "tex_reset t = tex_default\<lparr>mip_maps_array := mip_maps_array t\<rparr>"

section \<open>Byte images of data commands\<close>

lemma bytes_at_add: "bytes_at d a (m + n) = bytes_at d a m @ bytes_at d (a + m) n"
proof -
  have "[a..<a + m + n] = [a..<a + m] @ [a + m..<a + m + n]"
    by (rule upt_add_eq_append) simp
  then show ?thesis unfolding bytes_at_def add.assoc [symmetric] by simp
qed

lemma laid_out_data_Cons:
  "is_data c \<Longrightarrow> laid_out d s a (c # cs) \<longleftrightarrow> a + length (cmd_bytes c) \<le> length d \<and>
      bytes_at d a (length (cmd_bytes c)) = cmd_bytes c \<and> laid_out d s (a + length (cmd_bytes c)) cs"
  by (cases c) (auto simp: Suc_le_eq)

lemma laid_out_data:
  "cs \<noteq> [] \<Longrightarrow> \<forall>c \<in> set cs. is_data c \<Longrightarrow>
   laid_out d s a cs \<longleftrightarrow> a + length (cmds_bytes cs) \<le> length d \<and> bytes_at d a (length (cmds_bytes cs)) = cmds_bytes cs"
proof (induction cs arbitrary: a rule: list_nonempty_induct)
  case (single c)
  then show ?case by (simp add: laid_out_data_Cons cmds_bytes_def)
next
  case (cons c cs)
  then show ?case
    by (auto simp: laid_out_data_Cons cmds_bytes_def bytes_at_add add.assoc)
qed

lemma bytes_at_split:
  assumes "a + n \<le> length d" and "bytes_at d a n = bs"
  shows "d = take a d @ bs @ drop (a + n) d"
proof -
  have "bytes_at d a n = take n (drop a d)"
    using assms(1) by (intro nth_equalityI) (auto simp: bytes_at_def)
  then show ?thesis using assms(2)
    by (metis append.assoc append_take_drop_id drop_drop add.commute)
qed

lemma laid_out_Cons_length:
  "laid_out d s a (c # cs) \<Longrightarrow> a + length (cmd_bytes c) \<le> length d \<and> laid_out d s (a + length (cmd_bytes c)) cs"
  by (cases c) (auto simp: laid_entry_def laid_str_def simp del: u32_le_0)

lemma laid_out_length:
  "laid_out d s a cs \<Longrightarrow> cs \<noteq> [] \<Longrightarrow> a + length (cmds_bytes cs) \<le> length d"
proof (induction cs arbitrary: a)
  case (Cons c cs)
  then show ?case using laid_out_Cons_length [OF Cons.prems(1)] Cons.IH [of "a + length (cmd_bytes c)"]
    by (cases "cs = []") (auto simp: cmds_bytes_def add.assoc)
qed simp

lemma cmds_bytes_sched_length: "length (cmds_bytes (map (\<lambda>k. W_Sched b (h k)) ks)) = 4 * length ks"
  by (induction ks) (simp_all add: cmds_bytes_def)

lemma cmds_bytes_tex_set_cmds: "length (cmds_bytes (tex_set_cmds P texs)) = 12 + 4 * length texs"
proof -
  let ?h = "[W_U32 (txp_sig_value Txp_TexSet), W_U32 (of_nat (length texs)), W_U32 (of_nat (length texs) OR 0x01010100)]"
  have "cmds_bytes (tex_set_cmds P texs) = cmds_bytes ?h @ cmds_bytes (map (\<lambda>t. W_Sched (Base_Abs P) (tex_body t)) texs)"
    by (simp add: tex_set_cmds_def cmds_bytes_def)
  moreover have "length (cmds_bytes ?h) = 12" by (simp add: cmds_bytes_def)
  ultimately show ?thesis by (simp add: cmds_bytes_sched_length)
qed

section \<open>Following an offset\<close>

lemma sint_offset_value:
  assumes "b \<le> A" and "A < 2 ^ 31"
  shows "sint (offset_value A b) = int A - int b"
proof -
  have "sint (offset_value A b) = signed_take_bit 31 (int A - int b)"
    by (simp only: offset_value_def sint_sbintrunc') simp
  also have "\<dots> = int A - int b"
    using assms by (intro signed_take_bit_int_eq_self) simp_all
  finally show ?thesis .
qed

lemma read_at_offset_laid:
  assumes "b \<le> A" "A < 2 ^ 31"
    and "f (\<lparr>r_data = d, r_pos = A, r_bases = (if nb then A # b # bs else b # bs)\<rparr>) =
         (x, \<lparr>r_data = d, r_pos = q, r_bases = (if nb then A # b # bs else b # bs)\<rparr>)"
  shows "read_at_offset (offset_value A b) f nb \<lparr>r_data = d, r_pos = p, r_bases = b # bs\<rparr> =
         (x, \<lparr>r_data = d, r_pos = p, r_bases = b # bs\<rparr>)"
  using assms sint_offset_value [OF assms(1,2)]
  by (cases nb) (simp_all add: read_at_offset_def offset_target_def base_offset_def push_base_offset_def
      pop_base_offset_def)

lemma read_at_offset_laid_top:
  assumes "A < 2 ^ 31"
    and "f (\<lparr>r_data = d, r_pos = A, r_bases = []\<rparr>) = (x, \<lparr>r_data = d, r_pos = q, r_bases = []\<rparr>)"
  shows "read_at_offset (offset_value A 0) f False \<lparr>r_data = d, r_pos = p, r_bases = []\<rparr> =
         (x, \<lparr>r_data = d, r_pos = p, r_bases = []\<rparr>)"
  using assms sint_offset_value [of 0 A]
  by (simp add: read_at_offset_def offset_target_def base_offset_def)

lemma laid_entry_target:
  assumes "laid_entry d slot base body" and "base \<le> slot" and "length d < 2 ^ 31"
  obtains A where "slot < A" "A \<le> length d" "slot + 4 \<le> length d" "laid_out d A A body"
    "read_u32 \<lparr>r_data = d, r_pos = slot, r_bases = bs\<rparr> =
       (offset_value A base, \<lparr>r_data = d, r_pos = slot + 4, r_bases = bs\<rparr>)"
    "sint (offset_value A base) = int A - int base" "0 < sint (offset_value A base)"
proof -
  obtain A where A: "slot < A" "A \<le> length d" "slot + 4 \<le> length d"
    "bytes_at d slot 4 = u32_le (offset_value A base)" "laid_out d A A body"
    using assms(1) by (auto simp: laid_entry_def)
  have s: "sint (offset_value A base) = int A - int base"
    using A(1,2) assms(2,3) by (intro sint_offset_value) simp_all
  show ?thesis
    using that [OF A(1,2,3,5)] A(1,4) assms(2) s by (simp add: read_u32_def read_raw_def)
qed

lemma read_u32_laid:
  "bytes_at d p 4 = u32_le v \<Longrightarrow>
   read_u32 \<lparr>r_data = d, r_pos = p, r_bases = bs\<rparr> = (v, \<lparr>r_data = d, r_pos = p + 4, r_bases = bs\<rparr>)"
  by (simp add: read_u32_def read_raw_def)

section \<open>Mipmaps, slices and textures\<close>

lemma read_mip_map_laid:
  assumes "laid_out d s A (mip_map_body ai mi m)" and "length (mm_data m) = unat (mm_data_size m)"
  shows "read_mip_map \<lparr>r_data = d, r_pos = A, r_bases = bs\<rparr> =
    ((Success, Some m), \<lparr>r_data = d, r_pos = A + length (cmds_bytes (mip_map_body ai mi m)), r_bases = bs\<rparr>)"
proof -
  let ?B = "cmds_bytes (mip_map_body ai mi m)"
  have "mip_map_body ai mi m \<noteq> []" "\<forall>c \<in> set (mip_map_body ai mi m). is_data c"
    by (simp_all add: mip_map_body_def)
  from laid_out_data [OF this] assms(1)
  have "A + length ?B \<le> length d" "bytes_at d A (length ?B) = ?B" by blast+
  then have d: "d = take A d @ ?B @ drop (A + length ?B) d" by (rule bytes_at_split)
  have "length (take A d) = A" using \<open>A + length ?B \<le> length d\<close> by simp
  then show ?thesis
    using read_mip_map_image [OF assms(2), of "take A d" ai mi "drop (A + length ?B) d" bs] d by simp
qed

lemma read_levels_laid:
  assumes "laid_out d s p (map (\<lambda>k. W_Sched Base_Body (mip_map_body ai (of_nat k) (f k))) ks)"
    and "\<forall>k \<in> set ks. length (mm_data (f k)) = unat (mm_data_size (f k))"
    and "s \<le> p" and "length d < 2 ^ 31"
  shows "read_levels (length ks) acc \<lparr>r_data = d, r_pos = p, r_bases = s # bs\<rparr> =
    ((Success, acc @ map f ks), \<lparr>r_data = d, r_pos = p + 4 * length ks, r_bases = s # bs\<rparr>)"
  using assms(1-3)
proof (induction ks arbitrary: p acc)
  case (Cons k ks)
  have e: "laid_entry d p s (mip_map_body ai (of_nat k) (f k))"
    and rest: "laid_out d s (p + 4) (map (\<lambda>k. W_Sched Base_Body (mip_map_body ai (of_nat k) (f k))) ks)"
    using Cons.prems(1) unfolding list.map laid_out_sched by (simp_all add: base_value_def)
  obtain A where A0: "p < A" "A \<le> length d" "laid_out d A A (mip_map_body ai (of_nat k) (f k))"
    "read_u32 \<lparr>r_data = d, r_pos = p, r_bases = s # bs\<rparr> =
       (offset_value A s, \<lparr>r_data = d, r_pos = p + 4, r_bases = s # bs\<rparr>)"
    "0 < sint (offset_value A s)"
    using laid_entry_target [OF e Cons.prems(3) assms(4)] by blast
  have A: "laid_out d A A (mip_map_body ai (of_nat k) (f k))"
    "read_u32 \<lparr>r_data = d, r_pos = p, r_bases = s # bs\<rparr> =
       (offset_value A s, \<lparr>r_data = d, r_pos = p + 4, r_bases = s # bs\<rparr>)"
    "0 < sint (offset_value A s)" "s \<le> A" "A < 2 ^ 31"
    using A0 Cons.prems(3) assms(4) by simp_all
  have r2: "read_at_offset (offset_value A s) read_mip_map True \<lparr>r_data = d, r_pos = p + 4, r_bases = s # bs\<rparr> =
      ((Success, Some (f k)), \<lparr>r_data = d, r_pos = p + 4, r_bases = s # bs\<rparr>)"
    using Cons.prems(2) by (intro read_at_offset_laid [OF A(4,5)]) (simp add: read_mip_map_laid [OF A(1)])
  have ih: "read_levels (length ks) (acc @ [f k]) \<lparr>r_data = d, r_pos = p + 4, r_bases = s # bs\<rparr> =
      ((Success, acc @ [f k] @ map f ks), \<lparr>r_data = d, r_pos = p + 4 + 4 * length ks, r_bases = s # bs\<rparr>)"
    using Cons.IH [OF rest] Cons.prems(2,3) by simp
  have step: "read_levels (length (k # ks)) acc \<lparr>r_data = d, r_pos = p, r_bases = s # bs\<rparr> =
      read_levels (length ks) (acc @ [f k]) \<lparr>r_data = d, r_pos = p + 4, r_bases = s # bs\<rparr>"
    using A(2,3) r2 by (simp add: Let_def)
  show ?case unfolding step ih by simp
qed simp

lemma read_slices_laid:
  assumes "laid_out d s p (concat (map (\<lambda>a. map (\<lambda>m. W_Sched Base_Body (mip_map_body (of_nat a) (of_nat m) (g a m))) [0..<L]) as))"
    and "\<forall>a \<in> set as. \<forall>m < L. length (mm_data (g a m)) = unat (mm_data_size (g a m))"
    and "s \<le> p" and "length d < 2 ^ 31"
  shows "read_slices (length as) L acc \<lparr>r_data = d, r_pos = p, r_bases = s # bs\<rparr> =
    ((Success, acc @ map (\<lambda>a. map (g a) [0..<L]) as), \<lparr>r_data = d, r_pos = p + 4 * L * length as, r_bases = s # bs\<rparr>)"
  using assms(1-3)
proof (induction as arbitrary: p acc)
  case (Cons a as)
  let ?F = "\<lambda>a. map (\<lambda>m. W_Sched Base_Body (mip_map_body (of_nat a) (of_nat m) (g a m))) [0..<L]"
  have l: "laid_out d s p (?F a)" "laid_out d s (p + 4 * L) (concat (map ?F as))"
    using Cons.prems(1) by (simp_all add: laid_out_append cmds_bytes_sched_length)
  have lv: "read_levels L [] \<lparr>r_data = d, r_pos = p, r_bases = s # bs\<rparr> =
      ((Success, map (g a) [0..<L]), \<lparr>r_data = d, r_pos = p + 4 * L, r_bases = s # bs\<rparr>)"
    using Cons.prems(2) read_levels_laid [where ks = "[0..<L]" and f = "g a" and acc = "[]" and ai = "of_nat a", OF l(1) _ Cons.prems(3) assms(4)]
    by simp
  have ih: "read_slices (length as) L (acc @ [map (g a) [0..<L]]) \<lparr>r_data = d, r_pos = p + 4 * L, r_bases = s # bs\<rparr> =
      ((Success, acc @ [map (g a) [0..<L]] @ map (\<lambda>a. map (g a) [0..<L]) as),
       \<lparr>r_data = d, r_pos = p + 4 * L + 4 * L * length as, r_bases = s # bs\<rparr>)"
    using Cons.IH [OF l(2)] Cons.prems(2,3) by simp
  show ?case using lv ih by (simp add: algebra_simps)
qed simp

lemma tex_adjusted_levels:
  assumes z: "tex_array_size t = 0 \<Longrightarrow> tex_mip_levels t = 0"
    and c: "tex_signature t = Txp_CubeMap \<or> tex_array_size t \<le> 1 \<or> tex_mip_levels t = 0"
  shows "adjusted_mip_levels (txp_sig_value (tex_signature t)) (ucast (tex_array_size t) * ucast (tex_mip_levels t))
        (tex_array_size t) = ucast (tex_mip_levels t)"
proof (cases "tex_signature t = Txp_CubeMap")
  case True
  then show ?thesis by (simp add: adjusted_mip_levels_def u8_product_div [OF z])
next
  case False
  then have "txp_sig_value (tex_signature t) \<noteq> txp_sig_value Txp_CubeMap"
    by (cases "tex_signature t") (simp_all add: txp_sig_value_def)
  then show ?thesis using c False by (simp add: adjusted_mip_levels_def u8_product_eq [OF z])
qed

lemma tex_wf_sizes:
  assumes "tex_wf t"
  shows "unat (tex_array_size t) = length (mip_maps_array t)" "unat (tex_mip_levels t) = tex_levels t"
    "unat (adjusted_mip_levels (txp_sig_value (tex_signature t)) (ucast (tex_array_size t) * ucast (tex_mip_levels t))
        (tex_array_size t)) = tex_levels t"
proof -
  let ?xs = "mip_maps_array t"
  have n: "length ?xs < 256" using assms by (simp add: tex_wf_def)
  show a: "unat (tex_array_size t) = length ?xs"
    using n by (simp add: tex_array_size_def unat_of_nat take_bit_nat_eq_self)
  have pos: "0 < tex_array_size t \<longleftrightarrow> ?xs \<noteq> []"
    using a by (metis length_greater_0_conv unat_gt_0 word_neq_0_conv)
  show l: "unat (tex_mip_levels t) = tex_levels t"
  proof (cases "?xs = []")
    case False
    have "\<forall>sl \<in> set ?xs. length sl < 256" using assms unfolding tex_wf_def by blast
    then have "length (hd ?xs) < 256" using False by simp
    then show ?thesis using False pos by (simp add: tex_mip_levels_def tex_levels_def unat_of_nat take_bit_nat_eq_self)
  qed (use pos in \<open>simp add: tex_mip_levels_def tex_levels_def\<close>)
  have z: "tex_array_size t = 0 \<Longrightarrow> tex_mip_levels t = 0" by (simp add: tex_mip_levels_def)
  have c0: "tex_signature t = Txp_CubeMap \<or> length ?xs \<le> 1 \<or> (\<forall>sl \<in> set ?xs. sl = [])"
    using assms by (simp add: tex_wf_def)
  have "length ?xs \<le> 1 \<Longrightarrow> tex_array_size t \<le> 1" using a by (simp add: word_le_nat_alt)
  moreover have "\<forall>sl \<in> set ?xs. sl = [] \<Longrightarrow> tex_mip_levels t = 0"
    using l by (cases ?xs) (simp_all add: tex_levels_def unat_eq_zero)
  ultimately have "tex_signature t = Txp_CubeMap \<or> tex_array_size t \<le> 1 \<or> tex_mip_levels t = 0"
    using c0 by blast
  from tex_adjusted_levels [OF z this]
  show "unat (adjusted_mip_levels (txp_sig_value (tex_signature t)) (ucast (tex_array_size t) * ucast (tex_mip_levels t))
        (tex_array_size t)) = tex_levels t" using l by simp
qed

lemma map_uniform_nth:
  assumes "\<forall>sl \<in> set xs. length sl = L"
  shows "map (\<lambda>a. map (\<lambda>m. xs ! a ! m) [0..<L]) [0..<length xs] = xs"
proof (rule nth_equalityI)
  fix a assume "a < length (map (\<lambda>a. map (\<lambda>m. xs ! a ! m) [0..<L]) [0..<length xs])"
  then have a: "a < length xs" by simp
  then have "L = length (xs ! a)" using assms by simp
  then have "map (\<lambda>m. xs ! a ! m) [0..<L] = xs ! a" by (simp only: map_nth)
  then show "map (\<lambda>a. map (\<lambda>m. xs ! a ! m) [0..<L]) [0..<length xs] ! a = xs ! a" using a by simp
qed simp

lemma tex_wf_slice_facts:
  assumes "tex_wf t"
  shows "\<forall>sl \<in> set (mip_maps_array t). length sl = length (hd (mip_maps_array t)) \<and> length sl < 256 \<and>
        (\<forall>m \<in> set sl. length (mm_data m) = unat (mm_data_size m))"
  using assms [unfolded tex_wf_def] by (elim conjE)

lemma tex_wf_slices:
  assumes "tex_wf t"
  shows "\<forall>sl \<in> set (mip_maps_array t). length sl = tex_levels t"
    "\<forall>a \<in> set [0..<length (mip_maps_array t)]. \<forall>m < tex_levels t.
       length (mm_data (mip_maps_array t ! a ! m)) = unat (mm_data_size (mip_maps_array t ! a ! m))"
proof -
  note w = tex_wf_slice_facts [OF assms]
  show u: "\<forall>sl \<in> set (mip_maps_array t). length sl = tex_levels t"
  proof
    fix sl assume sl: "sl \<in> set (mip_maps_array t)"
    then have "mip_maps_array t \<noteq> []" by auto
    moreover have "length sl = length (hd (mip_maps_array t))" using w sl by blast
    ultimately show "length sl = tex_levels t" by (simp add: tex_levels_def)
  qed
  show "\<forall>a \<in> set [0..<length (mip_maps_array t)]. \<forall>m < tex_levels t.
       length (mm_data (mip_maps_array t ! a ! m)) = unat (mm_data_size (mip_maps_array t ! a ! m))"
  proof (intro ballI allI impI)
    fix a m assume a: "a \<in> set [0..<length (mip_maps_array t)]" and m: "m < tex_levels t"
    then have sl: "mip_maps_array t ! a \<in> set (mip_maps_array t)" by simp
    then have "m < length (mip_maps_array t ! a)" using u m by simp
    then have "mip_maps_array t ! a ! m \<in> set (mip_maps_array t ! a)" by simp
    then show "length (mm_data (mip_maps_array t ! a ! m)) = unat (mm_data_size (mip_maps_array t ! a ! m))"
      using w sl by blast
  qed
qed

lemma tex_body_split:
  assumes "tex_wf t"
  shows "tex_body t =
    [W_U32 (txp_sig_value (tex_signature t)), W_U32 (ucast (tex_array_size t) * ucast (tex_mip_levels t)),
     W_U8 (tex_mip_levels t), W_U8 (tex_array_size t), W_U8 1, W_U8 1]
    @ concat (map (\<lambda>a. map (\<lambda>m. W_Sched Base_Body (mip_map_body (of_nat a) (of_nat m) (mip_maps_array t ! a ! m)))
         [0..<tex_levels t]) [0..<length (mip_maps_array t)])"
  using tex_wf_sizes [OF assms] by (simp add: tex_body_def)

lemma tex_read_laid:
  assumes l: "laid_out d A A (tex_body t)" and t: "tex_wf t" and len: "length d < 2 ^ 31"
  shows "tex_read t0 \<lparr>r_data = d, r_pos = A, r_bases = bs\<rparr> =
    ((Success, t0\<lparr>mip_maps_array := mip_maps_array t0 @ mip_maps_array t\<rparr>),
     \<lparr>r_data = d, r_pos = A + 12 + 4 * tex_levels t * length (mip_maps_array t), r_bases = bs\<rparr>)"
proof -
  let ?xs = "mip_maps_array t" and ?L = "tex_levels t"
  let ?sig = "txp_sig_value (tex_signature t)" and ?cnt = "ucast (tex_array_size t) * ucast (tex_mip_levels t) :: u32"
  let ?S = "concat (map (\<lambda>a. map (\<lambda>m. W_Sched Base_Body (mip_map_body (of_nat a) (of_nat m) (?xs ! a ! m)))
         [0..<?L]) [0..<length ?xs])"
  have parts: "laid_out d A A [W_U32 ?sig, W_U32 ?cnt, W_U8 (tex_mip_levels t), W_U8 (tex_array_size t), W_U8 1, W_U8 1]"
    "laid_out d A (A + 12) ?S"
    using l unfolding tex_body_split [OF t] by (simp_all add: laid_out_append cmds_bytes_def add.commute)
  then have h: "bytes_at d A 4 = u32_le ?sig" "bytes_at d (A + 4) 4 = u32_le ?cnt"
    "bytes_at d (A + 8) 1 = [tex_mip_levels t]" "bytes_at d (A + 9) 1 = [tex_array_size t]"
    by (simp_all add: add.commute)
  have sl: "read_slices (length ?xs) ?L [] \<lparr>r_data = d, r_pos = A + 12, r_bases = A # bs\<rparr> =
      ((Success, ?xs), \<lparr>r_data = d, r_pos = A + 12 + 4 * ?L * length ?xs, r_bases = A # bs\<rparr>)"
    using read_slices_laid [where g = "\<lambda>a m. ?xs ! a ! m" and as = "[0..<length ?xs]", OF parts(2) _ _ len]
      tex_wf_slices [OF t] map_uniform_nth [of ?xs ?L] by simp
  have sig: "\<not> (?sig \<noteq> txp_sig_value Txp_Texture2D \<and> ?sig \<noteq> txp_sig_value Txp_CubeMap)"
    using t unfolding tex_wf_def by auto
  show ?thesis
    using h sl tex_wf_sizes [OF t] sig
    by (simp add: tex_read_def Let_def read_u32_def read_u8_def read_raw_def push_base_offset_def
        pop_base_offset_def add.commute)
qed

section \<open>The texture set\<close>

lemma read_textures_laid:
  assumes "laid_out d s p (map (\<lambda>t. W_Sched (Base_Abs s) (tex_body t)) ts)"
    and "\<forall>t \<in> set ts. tex_wf t" and "s \<le> p" and "length d < 2 ^ 31"
  shows "read_textures (length ts) acc \<lparr>r_data = d, r_pos = p, r_bases = s # bs\<rparr> =
    ((Success, acc @ map tex_reset ts), \<lparr>r_data = d, r_pos = p + 4 * length ts, r_bases = s # bs\<rparr>)"
  using assms(1-3)
proof (induction ts arbitrary: p acc)
  case (Cons t ts)
  have e: "laid_entry d p s (tex_body t)"
    and rest: "laid_out d s (p + 4) (map (\<lambda>t. W_Sched (Base_Abs s) (tex_body t)) ts)"
    using Cons.prems(1) unfolding list.map laid_out_sched by (simp_all add: base_value_def)
  obtain A where A0: "p < A" "A \<le> length d" "laid_out d A A (tex_body t)"
    "read_u32 \<lparr>r_data = d, r_pos = p, r_bases = s # bs\<rparr> =
       (offset_value A s, \<lparr>r_data = d, r_pos = p + 4, r_bases = s # bs\<rparr>)"
    "0 < sint (offset_value A s)"
    using laid_entry_target [OF e Cons.prems(3) assms(4)] by blast
  have A: "s \<le> A" "A < 2 ^ 31" using A0(1,2) Cons.prems(3) assms(4) by simp_all
  have r2: "read_at_offset (offset_value A s) (tex_read tex_default) True \<lparr>r_data = d, r_pos = p + 4, r_bases = s # bs\<rparr> =
      ((Success, tex_reset t), \<lparr>r_data = d, r_pos = p + 4, r_bases = s # bs\<rparr>)"
    using Cons.prems(2) tex_read_laid [OF A0(3) _ assms(4), of tex_default "A # s # bs"]
    by (intro read_at_offset_laid [OF A]) (simp add: tex_reset_def tex_default_def)
  have step: "read_textures (length (t # ts)) acc \<lparr>r_data = d, r_pos = p, r_bases = s # bs\<rparr> =
      read_textures (length ts) (acc @ [tex_reset t]) \<lparr>r_data = d, r_pos = p + 4, r_bases = s # bs\<rparr>"
    using A0(4,5) r2 by simp
  have ih: "read_textures (length ts) (acc @ [tex_reset t]) \<lparr>r_data = d, r_pos = p + 4, r_bases = s # bs\<rparr> =
      ((Success, acc @ [tex_reset t] @ map tex_reset ts), \<lparr>r_data = d, r_pos = p + 4 + 4 * length ts, r_bases = s # bs\<rparr>)"
    using Cons.IH [OF rest] Cons.prems(2,3) by simp
  show ?case unfolding step ih by simp
qed simp

lemma tex_set_read_laid:
  assumes l: "laid_out d p p (tex_set_cmds p texs)" and t: "\<forall>t \<in> set texs. tex_wf t" and len: "length d < 2 ^ 31"
  shows "tex_set_read acc \<lparr>r_data = d, r_pos = p, r_bases = bs\<rparr> =
    ((Success, acc @ map tex_reset texs), \<lparr>r_data = d, r_pos = p + 12 + 4 * length texs, r_bases = bs\<rparr>)"
proof -
  let ?n = "of_nat (length texs) :: u32"
  have parts: "laid_out d p p [W_U32 (txp_sig_value Txp_TexSet), W_U32 ?n, W_U32 (?n OR 0x01010100)]"
    "laid_out d p (p + 12) (map (\<lambda>t. W_Sched (Base_Abs p) (tex_body t)) texs)"
    using l unfolding tex_set_cmds_def by (simp_all add: laid_out_append cmds_bytes_def add.commute)
  then have h: "bytes_at d p 4 = u32_le (txp_sig_value Txp_TexSet)" "bytes_at d (p + 4) 4 = u32_le ?n"
    by (simp_all add: add.commute)
  have n: "unat ?n = length texs"
  proof (cases "texs = []")
    case False
    then have "p + 12 + length (cmds_bytes (map (\<lambda>t. W_Sched (Base_Abs p) (tex_body t)) texs)) \<le> length d"
      using laid_out_length [OF parts(2)] by simp
    then have "length texs < 2 ^ 32" using len by (simp add: cmds_bytes_sched_length)
    then show ?thesis by (simp add: unat_of_nat take_bit_nat_eq_self)
  qed simp
  have rt: "read_textures (length texs) acc \<lparr>r_data = d, r_pos = p + 12, r_bases = p # bs\<rparr> =
      ((Success, acc @ map tex_reset texs), \<lparr>r_data = d, r_pos = p + 12 + 4 * length texs, r_bases = p # bs\<rparr>)"
    using read_textures_laid [OF parts(2) t _ len] by simp
  show ?thesis
    using h n rt
    by (simp add: tex_set_read_def Let_def read_u32_def read_raw_def push_base_offset_def
        pop_base_offset_def add.commute)
qed

text \<open>
  C2. Texture-set round trip: when every texture is well formed and the file is shorter than
  2 GiB, \<open>TexSet::Read\<close> started where \<open>TexSet::Write\<close> started, on a writer with nothing
  pending, returns \<open>Success\<close> and appends every written texture with its mipmaps (and the
  default signature and name), and ends past the texture pointers with its base stack as
  it found it.
\<close>

theorem tex_set_roundtrip:
  assumes "wwf w" and "w_sched w = []" and "w_strs w = []" and "\<forall>t \<in> set texs. tex_wf t"
    and "length (w_buf (tex_set_write texs w)) < 2 ^ 31"
  shows "tex_set_read acc \<lparr>r_data = w_buf (tex_set_write texs w), r_pos = w_pos w, r_bases = bs\<rparr> =
    ((Success, acc @ map tex_reset texs),
     \<lparr>r_data = w_buf (tex_set_write texs w), r_pos = w_pos w + 12 + 4 * length texs, r_bases = bs\<rparr>)"
proof -
  have "settled {} (tex_set_write texs w) (w_buf (tex_set_write texs w))"
    using tex_set_write_wwf [OF assms(1)] by (intro settled_self) (simp add: wwf_def)
  from tex_set_write_laid_out [OF assms(1-3) this] 
  show ?thesis by (intro tex_set_read_laid assms(4,5)) simp
qed

end
