(* ===== verification/Spr_Roundtrip.thy ===== *)
theory Spr_Roundtrip
  imports Tex_Roundtrip
begin

text \<open>
  Decoding what \<open>SprSet::Write\<close> wrote (C1).  The string slots of the name tables read
  back through \<open>ReadStringOffset\<close> when no name contains a NUL (\<open>read_string_offset_laid\<close>);
  the sprite records, names and extra data read back field by field; the texture part and
  the sprite part of \<open>SprSet::Read\<close> then return \<open>Success\<close> on the layout \<open>spr_set_layout\<close> describes.  A sprite
  set decodes to itself except that each texture comes back with the default signature
  (\<open>spr_set_decoded\<close>, \<open>named_tex\<close>).
\<close>

definition sprite_record :: "sprite \<Rightarrow> sprite" where
  "sprite_record sp = sprite_default\<lparr>texture_index := texture_index sp, rotate := rotate sp,
     texel_region := texel_region sp, pixel_region := pixel_region sp\<rparr>"

definition named_tex :: "tex \<Rightarrow> tex" where
  "named_tex t = (tex_reset t)\<lparr>tex_name := tex_name t\<rparr>"

definition spr_wf :: "spr_set \<Rightarrow> bool" where
  "spr_wf s \<longleftrightarrow> (\<forall>t \<in> set (tex_set s). tex_wf t \<and> CHR 0x00 \<notin> set (tex_name t)) \<and>
     (\<forall>sp \<in> set (sprites s). CHR 0x00 \<notin> set (spr_name sp))"

definition spr_set_decoded :: "spr_set \<Rightarrow> spr_set" where
  "spr_set_decoded s = s\<lparr>tex_set := map named_tex (tex_set s)\<rparr>"

section \<open>Strings\<close>

lemma takeWhile_cstr_bytes:
  "CHR 0x00 \<notin> set str \<Longrightarrow> takeWhile (\<lambda>b. b \<noteq> 0) (cstr_bytes str @ rest) = map byte_of_char str"
  by (induction str) (auto simp: cstr_bytes_def)

lemma map_char_of_byte_of_char: "map char_of_byte (map byte_of_char str) = str"
  by (induction str) simp_all

lemma map_char_of_byte_comp: "map (char_of_byte \<circ> byte_of_char) str = str"
  by (induction str) simp_all

lemma read_cstr_laid:
  assumes "A + Suc (length str) \<le> length d" and "bytes_at d A (Suc (length str)) = cstr_bytes str"
    and "CHR 0x00 \<notin> set str"
  shows "read_cstr \<lparr>r_data = d, r_pos = A, r_bases = bs\<rparr> = (str, \<lparr>r_data = d, r_pos = A + Suc (length str), r_bases = bs\<rparr>)"
proof -
  let ?Y = "cstr_bytes str @ drop (A + Suc (length str)) d"
  have "d = take A d @ ?Y" using bytes_at_split [OF assms(1,2)] .
  then have "drop A d = drop A (take A d @ ?Y)" by (rule arg_cong)
  then have "drop A d = ?Y" using assms(1) by simp
  then show ?thesis
    using assms(3) by (simp add: read_cstr_def takeWhile_cstr_bytes map_char_of_byte_comp)
qed

lemma read_string_offset_laid:
  assumes "laid_str d slot str" and "CHR 0x00 \<notin> set str" and "length d < 2 ^ 31"
  shows "read_string_offset \<lparr>r_data = d, r_pos = slot, r_bases = []\<rparr> = (str, \<lparr>r_data = d, r_pos = slot + 4, r_bases = []\<rparr>)"
proof -
  obtain A where A: "0 < A" "A + Suc (length str) \<le> length d" "bytes_at d slot 4 = u32_le (offset_value A 0)"
    "bytes_at d A (Suc (length str)) = cstr_bytes str"
    using assms(1) by (auto simp: laid_str_def)
  have lt: "A < 2 ^ 31" using A(2) assms(3) by simp
  have "sint (offset_value A 0) = int A" using sint_offset_value [of 0 A] lt by simp
  then have nz: "offset_value A 0 \<noteq> 0" using A(1) by auto
  have "read_at_offset (offset_value A 0) read_cstr False \<lparr>r_data = d, r_pos = slot + 4, r_bases = []\<rparr> =
      (str, \<lparr>r_data = d, r_pos = slot + 4, r_bases = []\<rparr>)"
    by (rule read_at_offset_laid_top [where f = read_cstr, OF lt read_cstr_laid [OF A(2,4) assms(2)]])
  then show ?thesis
    using A(3) nz by (simp add: read_string_offset_def read_u32_def read_raw_def)
qed

section \<open>Name tables, records and extra data\<close>

lemma read_tex_names_laid:
  assumes "laid_out d s A (tex_names_body ts)" and "\<forall>t \<in> set ts. CHR 0x00 \<notin> set (tex_name t)"
    and "length d < 2 ^ 31" and "length us = length ts"
  shows "read_map read_tex_name us \<lparr>r_data = d, r_pos = A, r_bases = []\<rparr> =
    (map2 (\<lambda>u t. u\<lparr>tex_name := tex_name t\<rparr>) us ts, \<lparr>r_data = d, r_pos = A + 4 * length ts, r_bases = []\<rparr>)"
  using assms(1,2,4)
proof (induction ts arbitrary: us A)
  case (Cons t ts)
  obtain u us' where us: "us = u # us'" "length us' = length ts" using Cons.prems(3) by (cases us) auto
  have hd: "read_tex_name u \<lparr>r_data = d, r_pos = A, r_bases = []\<rparr> =
      (u\<lparr>tex_name := tex_name t\<rparr>, \<lparr>r_data = d, r_pos = A + 4, r_bases = []\<rparr>)"
   and tl: "laid_out d s (A + 4) (tex_names_body ts)"
  proof -
    have "(laid_str d A (tex_name t) \<and> tex_name t \<noteq> [] \<or> bytes_at d A 4 = u32_le 0 \<and> tex_name t = []) \<and>
        laid_out d s (A + 4) (tex_names_body ts)"
      using Cons.prems(1) by (cases "tex_name t = []") (simp_all add: tex_names_body_def laid_out_sched del: u32_le_0)
    moreover have "CHR 0x00 \<notin> set (tex_name t)" using Cons.prems(2) by simp
    ultimately show "read_tex_name u \<lparr>r_data = d, r_pos = A, r_bases = []\<rparr> =
        (u\<lparr>tex_name := tex_name t\<rparr>, \<lparr>r_data = d, r_pos = A + 4, r_bases = []\<rparr>)"
      "laid_out d s (A + 4) (tex_names_body ts)"
      using read_string_offset_laid [OF _ _ assms(3)]
      by (auto simp: read_tex_name_def read_string_offset_def read_u32_laid simp del: u32_le_0)
  qed
  show ?case
    using hd Cons.IH [OF tl _ us(2)] Cons.prems(2) by (simp add: us)
qed simp

lemma read_sprite_names_laid:
  assumes "laid_out d s A (sprite_names_body ss)" and "\<forall>sp \<in> set ss. CHR 0x00 \<notin> set (spr_name sp)"
    and "length d < 2 ^ 31" and "length us = length ss"
  shows "read_map read_sprite_name us \<lparr>r_data = d, r_pos = A, r_bases = []\<rparr> =
    (map2 (\<lambda>u sp. u\<lparr>spr_name := spr_name sp\<rparr>) us ss, \<lparr>r_data = d, r_pos = A + 4 * length ss, r_bases = []\<rparr>)"
  using assms(1,2,4)
proof (induction ss arbitrary: us A)
  case (Cons sp ss)
  obtain u us' where us: "us = u # us'" "length us' = length ss" using Cons.prems(3) by (cases us) auto
  have l: "laid_str d A (spr_name sp)" "laid_out d s (A + 4) (sprite_names_body ss)"
    using Cons.prems(1) by (simp_all add: sprite_names_body_def laid_out_sched)
  have "read_sprite_name u \<lparr>r_data = d, r_pos = A, r_bases = []\<rparr> =
      (u\<lparr>spr_name := spr_name sp\<rparr>, \<lparr>r_data = d, r_pos = A + 4, r_bases = []\<rparr>)"
    using read_string_offset_laid [OF l(1) _ assms(3)] Cons.prems(2) by (simp add: read_sprite_name_def)
  then show ?case
    using Cons.IH [OF l(2) _ us(2)] Cons.prems(2) by (simp add: us)
qed simp

lemma read_extras_laid:
  assumes "laid_out d s A (sprite_extra_body ss)" and "length us = length ss"
  shows "read_map read_sprite_extra us \<lparr>r_data = d, r_pos = A, r_bases = bs\<rparr> =
    (map2 (\<lambda>u sp. u\<lparr>extra_flags := extra_flags sp, screen_mode := screen_mode sp\<rparr>) us ss,
     \<lparr>r_data = d, r_pos = A + 8 * length ss, r_bases = bs\<rparr>)"
  using assms
proof (induction ss arbitrary: us A)
  case (Cons sp ss)
  obtain u us' where us: "us = u # us'" "length us' = length ss" using Cons.prems(2) by (cases us) auto
  have l: "bytes_at d A 4 = u32_le (extra_flags sp)" "bytes_at d (A + 4) 4 = u32_le (screen_mode sp)"
    "laid_out d s (A + 8) (sprite_extra_body ss)"
    using Cons.prems(1) by (simp_all add: sprite_extra_body_def add.commute)
  have "read_sprite_extra u \<lparr>r_data = d, r_pos = A, r_bases = bs\<rparr> =
      (u\<lparr>extra_flags := extra_flags sp, screen_mode := screen_mode sp\<rparr>, \<lparr>r_data = d, r_pos = A + 8, r_bases = bs\<rparr>)"
    using l(1,2) by (simp add: read_sprite_extra_def read_u32_laid)
  then show ?case using Cons.IH [OF l(3) us(2)] by (simp add: us)
qed simp

lemma read_vec4_laid:
  assumes "laid_out d s A (vec4_cmds v @ cs)"
  shows "read_vec4 \<lparr>r_data = d, r_pos = A, r_bases = bs\<rparr> = (v, \<lparr>r_data = d, r_pos = A + 16, r_bases = bs\<rparr>)"
    and "laid_out d s (A + 16) cs"
proof -
  have l: "bytes_at d A 4 = u32_le (vx v)" "bytes_at d (A + 4) 4 = u32_le (vy v)"
    "bytes_at d (A + 8) 4 = u32_le (vz v)" "bytes_at d (A + 12) 4 = u32_le (vw v)"
    "laid_out d s (A + 16) cs"
    using assms by (simp_all add: vec4_cmds_def add.commute)
  then show "read_vec4 \<lparr>r_data = d, r_pos = A, r_bases = bs\<rparr> = (v, \<lparr>r_data = d, r_pos = A + 16, r_bases = bs\<rparr>)"
    by (simp add: read_vec4_def read_u32_laid add.commute)
  show "laid_out d s (A + 16) cs" using l(5) .
qed

lemma read_sprites_laid:
  assumes "laid_out d s A (sprites_body ss)"
  shows "read_sprites (length ss) acc \<lparr>r_data = d, r_pos = A, r_bases = bs\<rparr> =
    (acc @ map sprite_record ss, \<lparr>r_data = d, r_pos = A + 40 * length ss, r_bases = bs\<rparr>)"
  using assms
proof (induction ss arbitrary: acc A)
  case (Cons sp ss)
  have l: "bytes_at d A 4 = u32_le (texture_index sp)" "bytes_at d (A + 4) 4 = u32_le (rotate sp)"
    "laid_out d s (A + 8) (vec4_cmds (texel_region sp) @ vec4_cmds (pixel_region sp) @ sprites_body ss)"
    using Cons.prems by (simp_all add: sprites_body_def sprite_record_cmds_def add.commute)
  note v1 = read_vec4_laid [OF l(3)]
  note v2 = read_vec4_laid [OF v1(2)]
  have "read_sprites (length (sp # ss)) acc \<lparr>r_data = d, r_pos = A, r_bases = bs\<rparr> =
      read_sprites (length ss) (acc @ [sprite_record sp]) \<lparr>r_data = d, r_pos = A + 40, r_bases = bs\<rparr>"
    using l(1,2) v1(1) v2(1) by (simp add: read_u32_laid sprite_record_def add.commute)
  then show ?case using Cons.IH [OF v2(2)] by (simp add: add.commute)
qed simp

section \<open>The two parts of SprSet::Read\<close>

lemma offset_value_0: "offset_value A 0 = of_nat A"
  by (simp add: offset_value_def)

lemma map2_map_same: "map2 f (map g xs) xs = map (\<lambda>x. f (g x) x) xs"
  by (induction xs) simp_all

lemma spr_read_textures_laid:
  assumes tex: "laid_out d P P (tex_set_cmds P texs)" and names: "laid_out d A A (tex_names_body texs)"
    and wf: "\<forall>t \<in> set texs. tex_wf t \<and> CHR 0x00 \<notin> set (tex_name t)" and len: "length d < 2 ^ 31"
    and pos: "0 < P" "P < 2 ^ 31" "0 < A" "A < 2 ^ 31" and n: "length texs < 2 ^ 32" and s1: "tex_set s1 = []"
  shows "spr_read_textures (of_nat (length texs)) (offset_value P 0) (offset_value A 0) s1
      \<lparr>r_data = d, r_pos = p, r_bases = []\<rparr> =
    ((Success, s1\<lparr>tex_set := map named_tex texs\<rparr>), \<lparr>r_data = d, r_pos = p, r_bases = []\<rparr>)"
proof (cases "texs = []")
  case True
  then show ?thesis using s1 by (simp add: spr_read_textures_def)
next
  case False
  have un: "unat (of_nat (length texs) :: u32) = length texs" using n by (simp add: unat_of_nat take_bit_nat_eq_self)
  then have nz: "(of_nat (length texs) :: u32) \<noteq> 0" using False by (metis length_0_conv unat_0)
  have sP: "sint (offset_value P 0) = int P" and sA: "sint (offset_value A 0) = int A"
    using sint_offset_value [of 0 P] sint_offset_value [of 0 A] pos by simp_all
  have r1: "read_at_offset (offset_value P 0) (tex_set_read []) False \<lparr>r_data = d, r_pos = p, r_bases = []\<rparr> =
      ((Success, map tex_reset texs), \<lparr>r_data = d, r_pos = p, r_bases = []\<rparr>)"
    using tex_set_read_laid [OF tex _ len, of "[]" "[]"] wf
    by (intro read_at_offset_laid_top [OF pos(2)]) simp
  have r2: "read_at_offset (offset_value A 0) (read_map read_tex_name (map tex_reset texs)) False
      \<lparr>r_data = d, r_pos = p, r_bases = []\<rparr> = (map named_tex texs, \<lparr>r_data = d, r_pos = p, r_bases = []\<rparr>)"
    using read_tex_names_laid [OF names _ len, of "map tex_reset texs"] wf
    by (intro read_at_offset_laid_top [OF pos(4)]) (simp add: map2_map_same named_tex_def)
  show ?thesis
    using nz r1 r2 sP sA pos un s1 by (simp add: spr_read_textures_def)
qed

lemma sprite_record_restore:
  "(sprite_record sp)\<lparr>spr_name := spr_name sp, extra_flags := extra_flags sp, screen_mode := screen_mode sp\<rparr> = sp"
  by (cases sp) (simp add: sprite_record_def sprite_default_def)

lemma map_sprite_restore:
  "map2 (\<lambda>u sp. u\<lparr>extra_flags := extra_flags sp, screen_mode := screen_mode sp\<rparr>)
     (map2 (\<lambda>u sp. u\<lparr>spr_name := spr_name sp\<rparr>) (map sprite_record ss) ss) ss = ss"
  by (induction ss) (simp_all add: sprite_record_restore [simplified])

lemma spr_read_sprites_laid:
  assumes l1: "laid_out d A1 A1 (sprites_body ss)" and l3: "laid_out d A3 A3 (sprite_names_body ss)"
    and l4: "laid_out d A4 A4 (sprite_extra_body ss)"
    and wf: "\<forall>sp \<in> set ss. CHR 0x00 \<notin> set (spr_name sp)" and len: "length d < 2 ^ 31"
    and pos: "0 < A1" "A1 < 2 ^ 31" "0 < A3" "A3 < 2 ^ 31" "0 < A4" "A4 < 2 ^ 31"
    and n: "length ss < 2 ^ 32" and s2: "sprites s2 = []"
  shows "spr_read_sprites (of_nat (length ss)) (offset_value A1 0) (offset_value A3 0) (offset_value A4 0) s2
      \<lparr>r_data = d, r_pos = p, r_bases = []\<rparr> =
    ((Success, s2\<lparr>sprites := ss\<rparr>), \<lparr>r_data = d, r_pos = p, r_bases = []\<rparr>)"
proof (cases "ss = []")
  case True
  then show ?thesis using s2 by (simp add: spr_read_sprites_def)
next
  case False
  have un: "unat (of_nat (length ss) :: u32) = length ss" using n by (simp add: unat_of_nat take_bit_nat_eq_self)
  then have nz: "(of_nat (length ss) :: u32) \<noteq> 0" using False by (metis length_0_conv unat_0)
  have sA: "sint (offset_value A1 0) = int A1" "sint (offset_value A3 0) = int A3" "sint (offset_value A4 0) = int A4"
    using sint_offset_value [of 0 A1] sint_offset_value [of 0 A3] sint_offset_value [of 0 A4] pos by simp_all
  have r1: "read_at_offset (offset_value A1 0) (read_sprites (length ss) []) False \<lparr>r_data = d, r_pos = p, r_bases = []\<rparr> =
      (map sprite_record ss, \<lparr>r_data = d, r_pos = p, r_bases = []\<rparr>)"
    using read_sprites_laid [OF l1, of "[]" "[]"] by (intro read_at_offset_laid_top [OF pos(2)]) simp
  have r2: "read_at_offset (offset_value A3 0) (read_map read_sprite_name (map sprite_record ss)) False
      \<lparr>r_data = d, r_pos = p, r_bases = []\<rparr> =
      (map2 (\<lambda>u sp. u\<lparr>spr_name := spr_name sp\<rparr>) (map sprite_record ss) ss, \<lparr>r_data = d, r_pos = p, r_bases = []\<rparr>)"
    using read_sprite_names_laid [OF l3 wf len, of "map sprite_record ss"]
    by (intro read_at_offset_laid_top [OF pos(4)]) simp
  have r3: "read_at_offset (offset_value A4 0) (read_map read_sprite_extra
        (map2 (\<lambda>u sp. u\<lparr>spr_name := spr_name sp\<rparr>) (map sprite_record ss) ss)) False
      \<lparr>r_data = d, r_pos = p, r_bases = []\<rparr> = (ss, \<lparr>r_data = d, r_pos = p, r_bases = []\<rparr>)"
    using read_extras_laid [OF l4, of "map2 (\<lambda>u sp. u\<lparr>spr_name := spr_name sp\<rparr>) (map sprite_record ss) ss" "[]"]
    by (intro read_at_offset_laid_top [OF pos(6)]) (simp add: map_sprite_restore)
  show ?thesis
    using nz r1 r2 r3 sA pos un s2 by (simp add: spr_read_sprites_def)
qed

lemma laid_entry_top:
  assumes "laid_entry d slot 0 body" and "length d < 2 ^ 31"
  obtains A where "0 < A" "A < 2 ^ 31" "laid_out d A A body"
    "read_u32 \<lparr>r_data = d, r_pos = slot, r_bases = []\<rparr> = (offset_value A 0, \<lparr>r_data = d, r_pos = slot + 4, r_bases = []\<rparr>)"
proof -
  obtain A where "slot < A" "A \<le> length d" "laid_out d A A body"
    "read_u32 \<lparr>r_data = d, r_pos = slot, r_bases = []\<rparr> = (offset_value A 0, \<lparr>r_data = d, r_pos = slot + 4, r_bases = []\<rparr>)"
    using laid_entry_target [OF assms(1) _ assms(2)] by blast
  then show ?thesis using assms(2) by (intro that [of A]) simp_all
qed

lemma cmds_bytes_sprite_names: "length (cmds_bytes (sprite_names_body ss)) = 4 * length ss"
  by (induction ss) (simp_all add: sprite_names_body_def cmds_bytes_def)

lemma count_bound:
  assumes "laid_out d A A cs" and "length (cmds_bytes cs) = k + 4 * n" and "length d < 2 ^ 31" and "cs \<noteq> []"
  shows "n < 2 ^ 32"
  using laid_out_length [OF assms(1,4)] assms(2,3) by simp

text \<open>The header's counts and four body slots, read back.\<close>

lemma spr_header_slots:
  assumes lay: "laid_out d 0 8 (spr_header_cmds s)" and len: "length d < 2 ^ 31"
  obtains A1 A2 A3 A4 where
    "bytes_at d 8 4 = u32_le (of_nat (length (tex_set s)))"
    "bytes_at d 12 4 = u32_le (of_nat (length (sprites s)))"
    "0 < A1" "A1 < 2 ^ 31" "laid_out d A1 A1 (sprites_body (sprites s))"
    "read_u32 \<lparr>r_data = d, r_pos = 16, r_bases = []\<rparr> = (offset_value A1 0, \<lparr>r_data = d, r_pos = 20, r_bases = []\<rparr>)"
    "0 < A2" "A2 < 2 ^ 31" "laid_out d A2 A2 (tex_names_body (tex_set s))"
    "read_u32 \<lparr>r_data = d, r_pos = 20, r_bases = []\<rparr> = (offset_value A2 0, \<lparr>r_data = d, r_pos = 24, r_bases = []\<rparr>)"
    "0 < A3" "A3 < 2 ^ 31" "laid_out d A3 A3 (sprite_names_body (sprites s))"
    "read_u32 \<lparr>r_data = d, r_pos = 24, r_bases = []\<rparr> = (offset_value A3 0, \<lparr>r_data = d, r_pos = 28, r_bases = []\<rparr>)"
    "0 < A4" "A4 < 2 ^ 31" "laid_out d A4 A4 (sprite_extra_body (sprites s))"
    "read_u32 \<lparr>r_data = d, r_pos = 28, r_bases = []\<rparr> = (offset_value A4 0, \<lparr>r_data = d, r_pos = 32, r_bases = []\<rparr>)"
proof -
  have hdr: "bytes_at d 8 4 = u32_le (of_nat (length (tex_set s)))"
    "bytes_at d 12 4 = u32_le (of_nat (length (sprites s)))"
    "laid_entry d 16 0 (sprites_body (sprites s))" "laid_entry d 20 0 (tex_names_body (tex_set s))"
    "laid_entry d 24 0 (sprite_names_body (sprites s))" "laid_entry d 28 0 (sprite_extra_body (sprites s))"
    using lay by (simp_all add: spr_header_cmds_def base_value_def)
  show ?thesis
    by ((rule laid_entry_top [OF hdr(3) len], rule laid_entry_top [OF hdr(4) len],
         rule laid_entry_top [OF hdr(5) len], rule laid_entry_top [OF hdr(6) len], rule that);
        simp add: hdr(1,2))
qed

text \<open>A file below 2 GiB holds fewer than \<open>2^32\<close> textures and sprites.\<close>

lemma spr_count_bounds:
  assumes tl: "laid_out d P P (tex_set_cmds P texs)" and sl: "laid_out d A A (sprite_names_body ss)"
    and len: "length d < 2 ^ 31"
  shows "P < 2 ^ 31" "length texs < 2 ^ 32" "length ss < 2 ^ 32"
proof -
  show "P < 2 ^ 31"
    using laid_out_length [OF tl] len by (simp add: tex_set_cmds_def cmds_bytes_def)
  show "length texs < 2 ^ 32"
    using count_bound [OF tl cmds_bytes_tex_set_cmds len] by (simp add: tex_set_cmds_def)
  show "length ss < 2 ^ 32"
  proof (cases "ss = []")
    case False
    then have "sprite_names_body ss \<noteq> []" by (simp add: sprite_names_body_def)
    then show ?thesis using count_bound [OF sl _ len, of 0 "length ss"] cmds_bytes_sprite_names by simp
  qed simp
qed

section \<open>The sprite-set round trip\<close>

text \<open>
  C1. Sprite-set round trip: for a set whose textures are well formed and whose texture and
  sprite names contain no NUL, if the file \<open>SprSet::Write\<close> produces is shorter than
  2 GiB then \<open>SprSet::Read\<close> on it (as \<open>LoadFile\<close> runs it) returns \<open>Success\<close> and the
  same set: the flags, every sprite with all its fields, and every texture with its name
  and mipmaps, its signature reset to the default \<open>Texture2D\<close>.
\<close>

theorem spr_set_roundtrip:
  assumes wf: "spr_wf s" and len: "length (spr_set_encode s) < 2 ^ 31"
  shows "spr_set_decode (spr_set_encode s) = (Success, spr_set_decoded s)"
proof -
  define d where "d = spr_set_encode s"
  define P where "P = w_pos (spr_body_end s)"
  let ?texs = "tex_set s" and ?ss = "sprites s"
  have lay: "bytes_at d 0 4 = u32_le (spr_flags s)" "bytes_at d 4 4 = u32_le (of_nat P)" "32 \<le> P"
    "laid_out d 0 8 (spr_header_cmds s)" "laid_out d P P (tex_set_cmds P ?texs)"
    using spr_set_layout [of s] unfolding d_def P_def by simp_all
  have len': "length d < 2 ^ 31" using len by (simp add: d_def)
  obtain A1 A2 A3 A4 where hdr: "bytes_at d 8 4 = u32_le (of_nat (length ?texs))"
      "bytes_at d 12 4 = u32_le (of_nat (length ?ss))"
    and A1: "0 < A1" "A1 < 2 ^ 31" "laid_out d A1 A1 (sprites_body ?ss)"
      "read_u32 \<lparr>r_data = d, r_pos = 16, r_bases = []\<rparr> = (offset_value A1 0, \<lparr>r_data = d, r_pos = 20, r_bases = []\<rparr>)"
    and A2: "0 < A2" "A2 < 2 ^ 31" "laid_out d A2 A2 (tex_names_body ?texs)"
      "read_u32 \<lparr>r_data = d, r_pos = 20, r_bases = []\<rparr> = (offset_value A2 0, \<lparr>r_data = d, r_pos = 24, r_bases = []\<rparr>)"
    and A3: "0 < A3" "A3 < 2 ^ 31" "laid_out d A3 A3 (sprite_names_body ?ss)"
      "read_u32 \<lparr>r_data = d, r_pos = 24, r_bases = []\<rparr> = (offset_value A3 0, \<lparr>r_data = d, r_pos = 28, r_bases = []\<rparr>)"
    and A4: "0 < A4" "A4 < 2 ^ 31" "laid_out d A4 A4 (sprite_extra_body ?ss)"
      "read_u32 \<lparr>r_data = d, r_pos = 28, r_bases = []\<rparr> = (offset_value A4 0, \<lparr>r_data = d, r_pos = 32, r_bases = []\<rparr>)"
    by (rule spr_header_slots [OF lay(4) len'])
  note counts = spr_count_bounds [OF lay(5) A3(3) len']
  have wfs: "\<forall>t \<in> set ?texs. tex_wf t \<and> CHR 0x00 \<notin> set (tex_name t)" "\<forall>sp \<in> set ?ss. CHR 0x00 \<notin> set (spr_name sp)"
    using wf by (simp_all add: spr_wf_def)
  let ?s1 = "spr_set_default\<lparr>spr_flags := spr_flags s\<rparr>"
  have rt: "spr_read_textures (of_nat (length ?texs)) (offset_value P 0) (offset_value A2 0) ?s1
      \<lparr>r_data = d, r_pos = 32, r_bases = []\<rparr> =
    ((Success, ?s1\<lparr>tex_set := map named_tex ?texs\<rparr>), \<lparr>r_data = d, r_pos = 32, r_bases = []\<rparr>)"
    using lay(3) by (intro spr_read_textures_laid [OF lay(5) A2(3) wfs(1) len' _ counts(1) A2(1,2) counts(2)])
      (simp_all add: spr_set_default_def)
  have rs: "spr_read_sprites (of_nat (length ?ss)) (offset_value A1 0) (offset_value A3 0) (offset_value A4 0)
      (?s1\<lparr>tex_set := map named_tex ?texs\<rparr>) \<lparr>r_data = d, r_pos = 32, r_bases = []\<rparr> =
    ((Success, ?s1\<lparr>tex_set := map named_tex ?texs, sprites := ?ss\<rparr>), \<lparr>r_data = d, r_pos = 32, r_bases = []\<rparr>)"
    by (rule spr_read_sprites_laid [OF A1(3) A3(3) A4(3) wfs(2) len' A1(1,2) A3(1,2) A4(1,2) counts(3)])
      (simp add: spr_set_default_def)
  have "?s1\<lparr>tex_set := map named_tex ?texs, sprites := ?ss\<rparr> = spr_set_decoded s"
    by (cases s) (simp add: spr_set_decoded_def spr_set_default_def)
  then show ?thesis
    using lay(1,2) hdr(1,2) A1(4) A2(4) A3(4) A4(4) rt rs
    by (simp add: spr_set_decode_def d_def [symmetric] reader_of_def spr_set_read_def read_u32_laid
        offset_value_0)
qed

end
