(* ===== verification/Codec_Size.thy ===== *)
theory Codec_Size
  imports Codec_Layout
begin

text \<open>
  How long the files of the codec's writers can be.  \<open>cmd_deep\<close> is the number of bytes
  a command can cause in the finished file: its own bytes, plus (for an offset slot) the
  deep size of the body it schedules, plus (for a string slot) the string's bytes and its
  terminator.  The potential of a writer state is the extent of its buffer plus the deep
  size of everything still queued; every writer operation adds at most its deep size,
  both flushes never increase the potential (the string pool can only make it smaller,
  by sharing a string), and \<open>Pad(16)\<close> adds at most 15.  Hence the length of the bytes
  \<open>SprSet::Write\<close> produces is bounded by a sum computed from the set alone
  (\<open>spr_set_encode_length\<close>), which is what makes the 2 GiB condition of the round trip
  checkable on a concrete set.
\<close>

fun cmd_deep :: "wcmd \<Rightarrow> nat" where
  "cmd_deep (W_Sched b body) = 4 + sum_list (map cmd_deep body)"
| "cmd_deep (W_Sched_Str str) = 4 + Suc (length str)"
| "cmd_deep c = length (cmd_bytes c)"

definition deep :: "wcmd list \<Rightarrow> nat" where
  "deep cs = sum_list (map cmd_deep cs)"

definition extent :: "writer \<Rightarrow> nat" where
  "extent w = max (length (w_buf w)) (w_pos w)"

definition potential :: "writer \<Rightarrow> nat" where
  "potential w = extent w + sum_list (map (\<lambda>(slot, base, body). deep body) (w_sched w))
     + sum_list (map (\<lambda>(slot, str). Suc (length str)) (w_strs w))"

section \<open>Potential of a writer state\<close>

lemma deep_simps [simp]: "deep [] = 0" "deep (c # cs) = cmd_deep c + deep cs" "deep (cs @ cs') = deep cs + deep cs'"
  by (simp_all add: deep_def)

lemma extent_upd [simp]: "extent (w\<lparr>w_strs := q\<rparr>) = extent w" "extent (w\<lparr>w_sched := q'\<rparr>) = extent w"
  by (simp_all add: extent_def)

lemma extent_exec_cmd: "extent (exec_cmd s c w) \<le> extent w + length (cmd_bytes c)"
  using exec_cmd_image [of s c w] by (simp add: extent_def)

lemma exec_cmd_potential: "potential (exec_cmd s c w) \<le> potential w + cmd_deep c"
proof -
  have e: "extent (exec_cmd s c w) \<le> extent w + length (cmd_bytes c)" by (rule extent_exec_cmd)
  show ?thesis
  proof (cases c)
    case (W_Sched b body)
    then show ?thesis using e
      by (simp add: potential_def schedule_write_offset_def write_u32_def write_raw_def deep_def)
  next
    case (W_Sched_Str str)
    then show ?thesis using e
      by (simp add: potential_def schedule_write_string_offset_def write_u32_def write_raw_def)
  qed (use e in \<open>simp_all add: potential_def write_u8_def write_u32_def write_raw_def\<close>)
qed

lemma exec_cmds_potential: "potential (exec_cmds s cs w) \<le> potential w + deep cs"
  unfolding exec_cmds_def
proof (induction cs arbitrary: w)
  case (Cons c cs)
  have "potential (fold (exec_cmd s) cs (exec_cmd s c w)) \<le> potential (exec_cmd s c w) + deep cs"
    by (rule Cons.IH)
  then show ?case using exec_cmd_potential [of s c w] by simp
qed simp

lemma length_le_potential: "length (w_buf w) \<le> potential w"
  by (simp add: potential_def extent_def)

lemma pos_le_potential: "w_pos w \<le> potential w"
  by (simp add: potential_def extent_def)

lemma flush_scheduled_writes_potential: "wwf w \<Longrightarrow> potential (flush_scheduled_writes w) \<le> potential w"
proof (induction w rule: flush_scheduled_writes.induct)
  case (1 w)
  show ?case
  proof (cases "w_sched w")
    case (Cons e rest)
    obtain slot base body where e: "e = (slot, base, body)" by (cases e)
    let ?x1 = "patch_u32 slot (offset_value (w_pos w) base) (w\<lparr>w_sched := rest\<rparr>)"
    have slot: "slot + 4 \<le> w_pos w" using "1.prems" Cons e by (auto simp: wwf_def slots_def)
    have "extent ?x1 = extent w" using slot by (auto simp: extent_def patch_u32_def)
    then have p1: "potential ?x1 + deep body = potential w"
      using Cons e by (simp add: potential_def patch_u32_def)
    have w2: "wwf (exec_cmds (w_pos w) body ?x1)"
      using exec_cmds_wwf [OF patch_head_wwf [OF "1.prems" Cons [unfolded e]]] .
    have "potential (exec_cmds (w_pos w) body ?x1) \<le> potential w"
      using exec_cmds_potential [of "w_pos w" body ?x1] p1 by simp
    then show ?thesis
      using "1.IH" [OF Cons e [symmetric] refl w2] Cons e by (simp add: flush_scheduled_writes.simps [of w])
  qed (simp add: flush_scheduled_writes.simps [of w])
qed

lemma flush_strings_potential:
  "wwf (w\<lparr>w_strs := q\<rparr>) \<Longrightarrow> w_strs w = [] \<Longrightarrow> potential (flush_strings pool q w) \<le> potential (w\<lparr>w_strs := q\<rparr>)"
proof (induction pool q w rule: flush_strings.induct)
  case (1 pool w)
  then have "w\<lparr>w_strs := []\<rparr> = w" by (cases w) simp
  then show ?case by simp
next
  case (2 pool slot str rest w)
  have slot: "slot + 4 \<le> w_pos w" using "2.prems"(1) by (simp add: wwf_def slots_def)
  have ext_patch: "extent (patch_u32 slot v u) = extent u" if "slot + 4 \<le> w_pos u" for v u
    using that by (auto simp: extent_def patch_u32_def)
  show ?case
  proof (cases "pool str")
    case (Some a)
    let ?w1 = "patch_u32 slot (offset_value a 0) w"
    have "wwf (?w1\<lparr>w_strs := rest\<rparr>)" by (rule strs_patch_wwf [OF "2.prems"(1)])
    moreover have "w_strs ?w1 = []" using "2.prems"(2) by (simp add: patch_u32_def)
    ultimately have "potential (flush_strings pool rest ?w1) \<le> potential (?w1\<lparr>w_strs := rest\<rparr>)"
      using "2.IH"(2) [OF Some] by simp
    moreover have "potential (?w1\<lparr>w_strs := rest\<rparr>) \<le> potential (w\<lparr>w_strs := (slot, str) # rest\<rparr>)"
      using ext_patch [OF slot] by (simp add: potential_def patch_u32_def)
    ultimately show ?thesis using Some by simp
  next
    case None
    let ?w0 = "write_raw (cstr_bytes str) w"
    let ?w1 = "patch_u32 slot (offset_value (w_pos w) 0) ?w0"
    have v0: "wwf (?w0\<lparr>w_strs := (slot, str) # rest\<rparr>)"
      using write_raw_wwf [OF "2.prems"(1)] by (simp add: patch_strs_commute)
    have "wwf (?w1\<lparr>w_strs := rest\<rparr>)" by (rule strs_patch_wwf [OF v0])
    moreover have "w_strs ?w1 = []" using "2.prems"(2) by (simp add: patch_u32_def write_raw_def)
    ultimately have "potential (flush_strings (pool(str \<mapsto> w_pos w)) rest ?w1) \<le> potential (?w1\<lparr>w_strs := rest\<rparr>)"
      using "2.IH"(1) [OF None] by (simp add: fun_upd_def)
    moreover have "extent ?w1 \<le> extent w + Suc (length str)"
      using ext_patch [of ?w0] slot extent_exec_cmd [of 0 "W_Bytes (cstr_bytes str)" w]
      by (simp add: write_raw_def)
    then have "potential (?w1\<lparr>w_strs := rest\<rparr>) \<le> potential (w\<lparr>w_strs := (slot, str) # rest\<rparr>)"
      by (simp add: potential_def patch_u32_def write_raw_def)
    ultimately show ?thesis using None by (simp add: fun_upd_def)
  qed
qed

lemma flush_scheduled_strings_potential: "wwf w \<Longrightarrow> potential (flush_scheduled_strings w) \<le> potential w"
  using flush_strings_potential [where w = "w\<lparr>w_strs := []\<rparr>" and q = "w_strs w" and pool = Map.empty]
  by (simp add: flush_scheduled_strings_def)

lemma pad_potential: "potential (pad 16 w) \<le> potential w + 15"
proof -
  have "pad_len 16 (w_pos w) < 16" by (rule pad_len_less) simp
  then show ?thesis
    using extent_exec_cmd [of 0 "W_Bytes (replicate (pad_len 16 (w_pos w)) 0)" w]
    by (simp add: pad_def potential_def write_raw_def)
qed


section \<open>The codec\<close>

lemma tex_set_write_potential:
  "wwf w \<Longrightarrow> potential (tex_set_write texs w) \<le> potential w + deep (tex_set_cmds (w_pos w) texs) + 15"
proof -
  assume w: "wwf w"
  let ?x = "exec_cmds (w_pos w) (tex_set_cmds (w_pos w) texs) w"
  have "potential (flush_scheduled_writes ?x) \<le> potential w + deep (tex_set_cmds (w_pos w) texs)"
    using flush_scheduled_writes_potential [OF exec_cmds_wwf [OF w]] exec_cmds_potential [of "w_pos w" _ w]
    by (meson le_trans)
  then show ?thesis
    using pad_potential [of "flush_scheduled_writes ?x"] by (simp add: tex_set_write_cmds [where s = "w_pos w"])
qed

lemma deep_tex_set_cmds: "deep (tex_set_cmds P texs) = deep (tex_set_cmds 0 texs)"
  by (simp add: tex_set_cmds_def deep_def comp_def)

lemma spr_set_encode_length:
  "length (spr_set_encode s) \<le> 53 + deep (spr_header_cmds s) + deep (tex_set_cmds 0 (tex_set s))"
proof -
  let ?w2 = "write_u32 0 (write_u32 (spr_flags s) writer_init)"
  let ?y = "flush_scheduled_writes (spr_head s)"
  let ?z = "flush_scheduled_strings (pad 16 ?y)"
  let ?w10 = "tex_set_write (tex_set s) (spr_body_end s)"
  have b2: "potential ?w2 = 8" "wwf ?w2" using spr_base_writer [of "spr_flags s"]
    by (simp_all add: potential_def extent_def wwf_def slots_def)
  have w8: "wwf (spr_head s)" "potential (spr_head s) \<le> 8 + deep (spr_header_cmds s)"
    using exec_cmds_wwf [OF b2(2)] exec_cmds_potential [of 0 "spr_header_cmds s" ?w2] b2(1)
    by (simp_all add: spr_head_def)
  have wy: "wwf ?y" "potential ?y \<le> 8 + deep (spr_header_cmds s)"
    using flush_scheduled_writes_wwf_settled [OF w8(1)] flush_scheduled_writes_potential [OF w8(1)] w8(2) by simp_all
  have wz: "wwf ?z" "potential ?z \<le> 23 + deep (spr_header_cmds s)"
    using pad_wwf_settled [OF wy(1)] pad_potential [of ?y] wy(2)
      flush_scheduled_strings_wwf_settled [of "pad 16 ?y"] flush_scheduled_strings_potential [of "pad 16 ?y"]
    by fastforce+
  have w9: "wwf (spr_body_end s)" "potential (spr_body_end s) \<le> 38 + deep (spr_header_cmds s)"
    using pad_wwf_settled [OF wz(1)] pad_potential [of ?z] wz(2) unfolding spr_body_end_def by simp_all
  have "length (w_buf ?w10) \<le> 53 + deep (spr_header_cmds s) + deep (tex_set_cmds 0 (tex_set s))"
    using tex_set_write_potential [OF w9(1), of "tex_set s"] w9(2) length_le_potential [of ?w10]
    by (simp add: deep_tex_set_cmds [of "w_pos (spr_body_end s)"])
  then show ?thesis by (simp add: spr_set_encode_stages)
qed

end
