(* ===== verification/Core_Time.thy ===== *)
theory Core_Time
  imports Complex_Main Prelude
begin

text \<open>
  The CPU timer of \<open>comfy/core_type.cpp\<close> (lines 34-68).  The Win32 performance counter
  is read through \<open>QueryPerformanceFrequency\<close> and \<open>QueryPerformanceCounter\<close>; the model
  passes the counter's state at the moment of each call (\<open>win32_clock\<close>).  An \<open>i64\<close>
  is a 64-bit word read with \<open>sint\<close>; signed overflow of an \<open>i64\<close> subtraction is
  undefined in C++ and is \<open>None\<close>.  \<open>Time::FromSeconds\<close> (\<open>core_types.h\<close>, not in the
  repository) holds seconds; the \<open>f64\<close> conversions and the division are exact here
  (rounding to \<open>f64\<close> is not modelled).
\<close>

type_synonym i64 = "64 word"

record win32_clock =
  qpc_frequency :: i64
  qpc_counter :: i64

record perf_counter_data =
  ticks_per_second :: i64
  ticks_on_program_startup :: i64

record cpu_time =
  ticks :: i64

record time =
  time_seconds :: real

definition time_from_seconds :: "real \<Rightarrow> time" where
  "time_from_seconds s = \<lparr>time_seconds = s\<rparr>"

text \<open>Signed 64-bit subtraction: the value when it is representable, else undefined.\<close>

definition i64_sub :: "i64 \<Rightarrow> i64 \<Rightarrow> i64 option" where
  "i64_sub a b =
     (let d = sint a - sint b in if - (2 ^ 63) \<le> d \<and> d < 2 ^ 63 then Some (word_of_int d) else None)"

definition win32_get_performance_counter_ticks_per_second :: "win32_clock \<Rightarrow> i64" where
  "win32_get_performance_counter_ticks_per_second clk = qpc_frequency clk"

definition win32_get_performance_counter_ticks_now :: "win32_clock \<Rightarrow> i64" where
  "win32_get_performance_counter_ticks_now clk = qpc_counter clk"

text \<open>The static \<open>Win32GlobalPerformanceCounter\<close>, initialised at program start.\<close>

definition win32_global_performance_counter :: "win32_clock \<Rightarrow> perf_counter_data" where
  "win32_global_performance_counter clk =
     \<lparr>ticks_per_second = win32_get_performance_counter_ticks_per_second clk,
      ticks_on_program_startup = win32_get_performance_counter_ticks_now clk\<rparr>"

definition get_now :: "perf_counter_data \<Rightarrow> win32_clock \<Rightarrow> cpu_time option" where
  "get_now g clk =
     map_option (\<lambda>t. \<lparr>ticks = t\<rparr>)
       (i64_sub (win32_get_performance_counter_ticks_now clk) (ticks_on_program_startup g))"

definition get_now_absolute :: "win32_clock \<Rightarrow> cpu_time" where
  "get_now_absolute clk = \<lparr>ticks = win32_get_performance_counter_ticks_now clk\<rparr>"

definition delta_time :: "perf_counter_data \<Rightarrow> cpu_time \<Rightarrow> cpu_time \<Rightarrow> time option" where
  "delta_time g start_time end_time =
     map_option (\<lambda>delta_ticks.
         time_from_seconds (real_of_int (sint delta_ticks) / real_of_int (sint (ticks_per_second g))))
       (i64_sub (ticks end_time) (ticks start_time))"

section \<open>Subtraction\<close>

lemma i64_sub_Some:
  "- (2 ^ 63) \<le> sint a - sint b \<Longrightarrow> sint a - sint b < 2 ^ 63 \<Longrightarrow>
     \<exists>d. i64_sub a b = Some d \<and> sint d = sint a - sint b"
  by (simp add: i64_sub_def sint_word_diff signed_take_bit_int_eq_self)

lemma i64_sub_sint:
  "i64_sub a b = Some d \<Longrightarrow> sint d = sint a - sint b"
  by (auto simp: i64_sub_def Let_def sint_word_diff signed_take_bit_int_eq_self split: if_splits)

lemma i64_sub_None:
  "i64_sub a b = None \<longleftrightarrow> \<not> (- (2 ^ 63) \<le> sint a - sint b \<and> sint a - sint b < 2 ^ 63)"
  by (simp add: i64_sub_def Let_def)

text \<open>Two non-negative \<open>i64\<close> values are always at a representable distance.\<close>

lemma i64_sub_nonneg:
  assumes "0 \<le> sint a" "0 \<le> sint b"
  shows "\<exists>d. i64_sub a b = Some d \<and> sint d = sint a - sint b"
proof (rule i64_sub_Some)
  show "- (2 ^ 63) \<le> sint a - sint b" "sint a - sint b < 2 ^ 63"
    using sint_lt [of a] sint_lt [of b] assms by simp_all
qed

lemma i64_sub_cong:
  "sint a - sint b = sint a' - sint b' \<Longrightarrow> i64_sub a b = i64_sub a' b'"
  by (simp add: i64_sub_def Let_def)

lemma get_now_sint:
  "get_now g clk = Some t \<Longrightarrow> sint (ticks t) = sint (qpc_counter clk) - sint (ticks_on_program_startup g)"
  by (auto simp: get_now_def win32_get_performance_counter_ticks_now_def dest: i64_sub_sint)

lemma delta_time_Some:
  "i64_sub (ticks e) (ticks s) = Some d \<Longrightarrow>
     delta_time g s e =
       Some (time_from_seconds (real_of_int (sint (ticks e) - sint (ticks s)) /
                                real_of_int (sint (ticks_per_second g))))"
  by (simp add: delta_time_def i64_sub_sint del: of_int_sint)

section \<open>Properties\<close>

text \<open>C30. Equivalence of the relative and the absolute clock: the time \<open>DeltaTime\<close>
  measures between two \<open>GetNow\<close> readings (ticks since program start) is the time it
  measures between the two \<open>GetNowAbsolute\<close> readings at the same counter values, the
  start-up offset cancelling; both are undefined together.\<close>

theorem delta_time_relative_absolute:
  assumes "get_now g a = Some ta" and "get_now g b = Some tb"
  shows "delta_time g ta tb = delta_time g (get_now_absolute a) (get_now_absolute b)"
proof -
  have "sint (ticks tb) - sint (ticks ta) = sint (qpc_counter b) - sint (qpc_counter a)"
    using get_now_sint [OF assms(1)] get_now_sint [OF assms(2)] by simp
  then have "i64_sub (ticks tb) (ticks ta) = i64_sub (qpc_counter b) (qpc_counter a)"
    by (rule i64_sub_cong)
  then show ?thesis
    by (simp add: delta_time_def get_now_absolute_def win32_get_performance_counter_ticks_now_def)
qed



end
