(* ===== verification/Core_Utf8.thy ===== *)
theory Core_Utf8
  imports Prelude
begin

text \<open>
  The UTF-8/UTF-16 conversions of \<open>comfy/core_string.cpp\<close> (lines 27-95):
  \<open>UTF8::Narrow\<close>, \<open>UTF8::Widen\<close> and \<open>UTF8::WideArg\<close> over the two Win32 wrappers.
  A \<open>wchar_t\<close> is a 16-bit word and a \<open>std::wstring\<close> a list of them; a \<open>char\<close> of a
  \<open>std::string\<close> is a \<open>char\<close>, read as a byte with \<open>of_char\<close>.  A string view is
  given as the memory from \<open>data()\<close> onward (\<open>mem\<close>) and its size \<open>n\<close>: the wrappers
  read \<open>data()[size]\<close>, the element after the view, so the model needs it; reading past
  the end of the memory is undefined (\<open>None\<close>).

  The Win32 calls \<open>WideCharToMultiByte\<close> and \<open>MultiByteToWideChar\<close> with \<open>CP_UTF8\<close> and
  flags 0 are modelled from their documentation: the conversion of the whole input
  (unpaired surrogates and ill-formed UTF-8 become U+FFFD), returned as the required
  length when the output size is 0, and written into the output buffer when it fits (the
  call fails and writes nothing otherwise).  For ill-formed UTF-8 the model replaces each
  byte that does not begin a well-formed sequence by one U+FFFD; no property below depends
  on that choice.  Unit and code-point values are natural numbers inside the codecs.
\<close>

section \<open>Code points\<close>

definition valid_cp :: "nat \<Rightarrow> bool" where
  "valid_cp c \<longleftrightarrow> c < 0x110000 \<and> \<not> (0xD800 \<le> c \<and> c < 0xE000)"

definition replacement_char :: nat where
  "replacement_char = 0xFFFD"

section \<open>UTF-16\<close>

definition is_high_surrogate :: "nat \<Rightarrow> bool" where
  "is_high_surrogate u \<longleftrightarrow> 0xD800 \<le> u \<and> u < 0xDC00"

definition is_low_surrogate :: "nat \<Rightarrow> bool" where
  "is_low_surrogate u \<longleftrightarrow> 0xDC00 \<le> u \<and> u < 0xE000"

definition utf16_unit :: "nat \<Rightarrow> nat" where
  "utf16_unit u = (if 0xD800 \<le> u \<and> u < 0xE000 then replacement_char else u)"

definition utf16_pair :: "nat \<Rightarrow> nat \<Rightarrow> nat" where
  "utf16_pair u l = 0x10000 + (u - 0xD800) * 1024 + (l - 0xDC00)"

fun utf16_decode :: "nat list \<Rightarrow> nat list" where
  "utf16_decode [] = []"
| "utf16_decode [u] = [utf16_unit u]"
| "utf16_decode (u # l # us) =
     (if is_high_surrogate u \<and> is_low_surrogate l
      then utf16_pair u l # utf16_decode us
      else utf16_unit u # utf16_decode (l # us))"

definition utf16_encode_cp :: "nat \<Rightarrow> nat list" where
  "utf16_encode_cp c =
     (if c < 0x10000 then [c] else [0xD800 + (c - 0x10000) div 1024, 0xDC00 + (c - 0x10000) mod 1024])"

definition utf16_encode :: "nat list \<Rightarrow> nat list" where
  "utf16_encode cs = concat (map utf16_encode_cp cs)"

text \<open>Well-formed UTF-16: every surrogate is part of a high-low pair.\<close>

fun utf16_wf :: "nat list \<Rightarrow> bool" where
  "utf16_wf [] = True"
| "utf16_wf [u] = (u < 0x10000 \<and> \<not> (0xD800 \<le> u \<and> u < 0xE000))"
| "utf16_wf (u # l # us) =
     (if is_high_surrogate u \<and> is_low_surrogate l then utf16_wf us
      else u < 0x10000 \<and> \<not> (0xD800 \<le> u \<and> u < 0xE000) \<and> utf16_wf (l # us))"

section \<open>UTF-8\<close>

definition is_cont :: "nat \<Rightarrow> bool" where
  "is_cont b \<longleftrightarrow> 0x80 \<le> b \<and> b < 0xC0"

text \<open>A lead byte's count of continuation bytes and the bits it contributes.\<close>

definition utf8_lead :: "nat \<Rightarrow> (nat \<times> nat) option" where
  "utf8_lead b =
     (if 0xC2 \<le> b \<and> b < 0xE0 then Some (1, b - 0xC0)
      else if 0xE0 \<le> b \<and> b < 0xF0 then Some (2, b - 0xE0)
      else if 0xF0 \<le> b \<and> b < 0xF5 then Some (3, b - 0xF0)
      else None)"

definition utf8_min :: "nat \<Rightarrow> nat" where
  "utf8_min k = (if k = 1 then 0x80 else if k = 2 then 0x800 else 0x10000)"

text \<open>The multi-byte sequence starting with lead byte \<open>b\<close> before \<open>bs\<close>: its code point and
  continuation count, when it is well formed (no overlong form, no surrogate, at most
  U+10FFFF).\<close>

definition utf8_seq :: "nat \<Rightarrow> nat list \<Rightarrow> (nat \<times> nat) option" where
  "utf8_seq b bs =
     (case utf8_lead b of
        None \<Rightarrow> None
      | Some (k, v0) \<Rightarrow>
          (if k \<le> length bs \<and> list_all is_cont (take k bs)
           then (let v = foldl (\<lambda>a c. a * 64 + (c - 0x80)) v0 (take k bs)
                 in if valid_cp v \<and> utf8_min k \<le> v then Some (v, k) else None)
           else None))"

fun utf8_decode :: "nat list \<Rightarrow> nat list" where
  "utf8_decode [] = []"
| "utf8_decode (b # bs) =
     (if b < 0x80 then b # utf8_decode bs
      else case utf8_seq b bs of
             Some (c, k) \<Rightarrow> c # utf8_decode (drop k bs)
           | None \<Rightarrow> replacement_char # utf8_decode bs)"

definition utf8_encode_cp :: "nat \<Rightarrow> nat list" where
  "utf8_encode_cp c =
     (if c < 0x80 then [c]
      else if c < 0x800 then [0xC0 + c div 64, 0x80 + c mod 64]
      else if c < 0x10000 then [0xE0 + c div 4096, 0x80 + c div 64 mod 64, 0x80 + c mod 64]
      else [0xF0 + c div 262144, 0x80 + c div 4096 mod 64, 0x80 + c div 64 mod 64, 0x80 + c mod 64])"

definition utf8_encode :: "nat list \<Rightarrow> nat list" where
  "utf8_encode cs = concat (map utf8_encode_cp cs)"

section \<open>The Win32 conversions with \<open>CP_UTF8\<close>\<close>

definition wide_char_to_multi_byte_utf8 :: "u16 list \<Rightarrow> string" where
  "wide_char_to_multi_byte_utf8 ws = map char_of (utf8_encode (utf16_decode (map unat ws)))"

definition multi_byte_to_wide_char_utf8 :: "string \<Rightarrow> u16 list" where
  "multi_byte_to_wide_char_utf8 s = map of_nat (utf16_encode (utf8_decode (map of_char s)))"

text \<open>A conversion call with an output buffer of the given capacity: the result is
  written at the start of the buffer when it fits.\<close>

definition api_write :: "('a list \<Rightarrow> 'b list) \<Rightarrow> 'a list \<Rightarrow> 'b list \<Rightarrow> 'b list" where
  "api_write conv input buf =
     (let r = conv input in if length r \<le> length buf then r @ drop (length r) buf else buf)"

section \<open>The wrappers\<close>

text \<open>\<open>Win32NarrowStdStringWithCodePage\<close> and \<open>Win32WidenStdStringWithCodePage\<close> (lines
  27-53), for the code page's conversion \<open>conv\<close>: the length query converts \<open>size + 1\<close>
  elements (the view and the element after it) and subtracts one; the output is
  zero-filled to that length by \<open>resize\<close> and the view converted into it.  A size whose
  \<open>int\<close> cast does not fit is outside the model (\<open>None\<close>).\<close>

definition win32_narrow_std_string_with_code_page ::
    "(u16 list \<Rightarrow> string) \<Rightarrow> u16 list \<Rightarrow> nat \<Rightarrow> string option" where
  "win32_narrow_std_string_with_code_page conv mem n =
     (if length mem \<le> n \<or> 2147483647 \<le> n then None
      else let output_length = int (length (conv (take (Suc n) mem))) - 1
           in if 0 < output_length
              then Some (api_write conv (take n mem) (replicate (nat output_length) (CHR 0x00)))
              else Some [])"

definition win32_widen_std_string_with_code_page ::
    "(string \<Rightarrow> u16 list) \<Rightarrow> string \<Rightarrow> nat \<Rightarrow> u16 list option" where
  "win32_widen_std_string_with_code_page conv mem n =
     (if length mem \<le> n \<or> 2147483647 \<le> n then None
      else let utf16_length = int (length (conv (take (Suc n) mem))) - 1
           in if 0 < utf16_length
              then Some (api_write conv (take n mem) (replicate (nat utf16_length) 0))
              else Some [])"

definition utf8_narrow :: "u16 list \<Rightarrow> nat \<Rightarrow> string option" where
  "utf8_narrow mem n = win32_narrow_std_string_with_code_page wide_char_to_multi_byte_utf8 mem n"

definition utf8_widen :: "string \<Rightarrow> nat \<Rightarrow> u16 list option" where
  "utf8_widen mem n = win32_widen_std_string_with_code_page multi_byte_to_wide_char_utf8 mem n"

text \<open>\<open>UTF8::WideArg\<close> (lines 67-94): a 260-element stack buffer, used when the converted
  length is below 260, else a heap buffer of the converted length plus one.  Both buffers
  start with indeterminate contents, given by \<open>garbage\<close>.\<close>

record wide_arg =
  heap_buffer :: "u16 list option"
  stack_buffer :: "u16 list"
  converted_length :: int

definition wide_arg_stack_size :: nat where
  "wide_arg_stack_size = 260"

definition wide_arg_ctor :: "(nat \<Rightarrow> u16) \<Rightarrow> string \<Rightarrow> nat \<Rightarrow> wide_arg option" where
  "wide_arg_ctor garbage mem n =
     (if length mem \<le> n \<or> 2147483647 \<le> n then None
      else
        let stack0 = map garbage [0..<wide_arg_stack_size];
            cl = int (length (multi_byte_to_wide_char_utf8 (take (Suc n) mem))) - 1
        in if cl \<le> 0 then Some \<lparr>heap_buffer = None, stack_buffer = stack0[0 := 0], converted_length = cl\<rparr>
           else if cl < int wide_arg_stack_size then
             (let written = api_write multi_byte_to_wide_char_utf8 (take n mem) (take (nat cl) stack0)
              in Some \<lparr>heap_buffer = None,
                       stack_buffer = (written @ drop (nat cl) stack0)[nat cl := 0],
                       converted_length = cl\<rparr>)
           else
             (let heap0 = map garbage [0..<Suc (nat cl)];
                  written = api_write multi_byte_to_wide_char_utf8 (take n mem) (take (nat cl) heap0)
              in Some \<lparr>heap_buffer = Some ((written @ drop (nat cl) heap0)[nat cl := 0]),
                       stack_buffer = stack0, converted_length = cl\<rparr>))"

definition wide_arg_c_str :: "wide_arg \<Rightarrow> u16 list" where
  "wide_arg_c_str a =
     (if converted_length a < int wide_arg_stack_size then stack_buffer a
      else case heap_buffer a of Some h \<Rightarrow> h | None \<Rightarrow> [])"

text \<open>The null-terminated string a \<open>const wchar_t*\<close> points at.\<close>

definition wide_c_string :: "u16 list \<Rightarrow> u16 list" where
  "wide_c_string p = takeWhile (\<lambda>u. u \<noteq> 0) p"

section \<open>UTF-16 decoding and encoding\<close>

lemma utf16_encode_simps [simp]:
  "utf16_encode [] = []" "utf16_encode (c # cs) = utf16_encode_cp c @ utf16_encode cs"
  "utf16_encode (cs @ ds) = utf16_encode cs @ utf16_encode ds"
  by (simp_all add: utf16_encode_def)

lemma surrogate_pair_cases:
  assumes "is_high_surrogate u" "is_low_surrogate l"
  obtains a b where "u = 0xD800 + a" "a < 1024" "l = 0xDC00 + b" "b < 1024"
proof
  show "u = 0xD800 + (u - 0xD800)" "u - 0xD800 < 1024" "l = 0xDC00 + (l - 0xDC00)" "l - 0xDC00 < 1024"
    using assms unfolding is_high_surrogate_def is_low_surrogate_def by arith+
qed

lemma utf16_pair_encode [simp]:
  assumes "is_high_surrogate u" "is_low_surrogate l"
  shows "utf16_encode_cp (utf16_pair u l) = [u, l]"
  using assms by (rule surrogate_pair_cases) (simp add: utf16_pair_def utf16_encode_cp_def)

lemma utf16_pair_valid [simp]:
  assumes "is_high_surrogate u" "is_low_surrogate l"
  shows "valid_cp (utf16_pair u l)"
  using assms by (rule surrogate_pair_cases) (simp add: utf16_pair_def valid_cp_def)

lemma utf16_unit_valid [simp]: "u < 0x10000 \<Longrightarrow> valid_cp (utf16_unit u)"
  by (simp add: utf16_unit_def valid_cp_def replacement_char_def)

lemma utf16_encode_cp_bmp [simp]: "c < 0x10000 \<Longrightarrow> utf16_encode_cp c = [c]"
  by (simp add: utf16_encode_cp_def)

lemma utf16_decode_valid:
  "\<forall>u\<in>set us. u < 0x10000 \<Longrightarrow> list_all valid_cp (utf16_decode us)"
  by (induction us rule: utf16_decode.induct) auto

lemma utf16_encode_decode:
  "utf16_wf us \<Longrightarrow> utf16_encode (utf16_decode us) = us"
  by (induction us rule: utf16_decode.induct) (auto simp: utf16_unit_def split: if_splits)

lemma utf16_decode_snoc_0:
  "utf16_decode (us @ [0]) = utf16_decode us @ [0]"
  by (induction us rule: utf16_decode.induct)
     (auto simp: utf16_unit_def is_low_surrogate_def)

section \<open>UTF-8 decoding and encoding\<close>

lemma utf8_encode_simps [simp]:
  "utf8_encode [] = []" "utf8_encode (c # cs) = utf8_encode_cp c @ utf8_encode cs"
  "utf8_encode (cs @ ds) = utf8_encode cs @ utf8_encode ds"
  by (simp_all add: utf8_encode_def)

lemma div_64_64: "(c :: nat) div 64 div 64 = c div 4096"
  by (simp add: div_mult2_eq [symmetric])

lemma div_64_64_64: "(c :: nat) div 4096 div 64 = c div 262144"
  by (simp add: div_mult2_eq [symmetric])

lemma cont_byte [simp]: "is_cont (0x80 + (c :: nat) mod 64)"
  by (simp add: is_cont_def)

lemma utf8_decode_2:
  assumes "0x80 \<le> c" "c < 0x800"
  shows "utf8_decode ([0xC0 + c div 64, 0x80 + c mod 64] @ rest) = c # utf8_decode rest"
proof -
  have q: "2 \<le> c div 64" "c div 64 < 32" using assms by simp_all
  have v: "foldl (\<lambda>a c. a * 64 + (c - 0x80)) (c div 64) [0x80 + c mod 64] = c"
    by simp
  have "utf8_seq (0xC0 + c div 64) ((0x80 + c mod 64) # rest) = Some (c, 1)"
    using q assms v by (simp add: utf8_seq_def utf8_lead_def utf8_min_def valid_cp_def)
  then show ?thesis
    by simp
qed

lemma utf8_decode_3:
  assumes "0x800 \<le> c" "c < 0x10000" "valid_cp c"
  shows "utf8_decode ([0xE0 + c div 4096, 0x80 + c div 64 mod 64, 0x80 + c mod 64] @ rest) =
           c # utf8_decode rest"
proof -
  have q: "c div 4096 < 16" using assms by simp
  have v: "foldl (\<lambda>a c. a * 64 + (c - 0x80)) (c div 4096) [0x80 + c div 64 mod 64, 0x80 + c mod 64] = c"
    by (simp add: div_64_64 [symmetric])
  have "utf8_seq (0xE0 + c div 4096) ((0x80 + c div 64 mod 64) # (0x80 + c mod 64) # rest) = Some (c, 2)"
    using q assms v by (simp add: utf8_seq_def utf8_lead_def utf8_min_def)
  then show ?thesis
    by simp
qed

lemma utf8_decode_4:
  assumes "0x10000 \<le> c" "valid_cp c"
  shows "utf8_decode ([0xF0 + c div 262144, 0x80 + c div 4096 mod 64, 0x80 + c div 64 mod 64,
                       0x80 + c mod 64] @ rest) = c # utf8_decode rest"
proof -
  have q: "c div 262144 < 5" using assms by (simp add: valid_cp_def)
  have v: "foldl (\<lambda>a c. a * 64 + (c - 0x80)) (c div 262144)
             [0x80 + c div 4096 mod 64, 0x80 + c div 64 mod 64, 0x80 + c mod 64] = c"
    by (simp add: div_64_64 [symmetric] div_64_64_64 [symmetric])
  have "utf8_seq (0xF0 + c div 262144)
          ((0x80 + c div 4096 mod 64) # (0x80 + c div 64 mod 64) # (0x80 + c mod 64) # rest) = Some (c, 3)"
    using q assms v by (simp add: utf8_seq_def utf8_lead_def utf8_min_def)
  then show ?thesis
    by simp
qed

lemma utf8_decode_encode_cp:
  assumes "valid_cp c"
  shows "utf8_decode (utf8_encode_cp c @ rest) = c # utf8_decode rest"
proof -
  consider "c < 0x80" | "0x80 \<le> c" "c < 0x800" | "0x800 \<le> c" "c < 0x10000" | "0x10000 \<le> c"
    by linarith
  then show ?thesis
  proof cases
    case 1
    then show ?thesis by (simp add: utf8_encode_cp_def)
  next
    case 2
    then show ?thesis using utf8_decode_2 [of c rest] by (simp add: utf8_encode_cp_def)
  next
    case 3
    then show ?thesis using utf8_decode_3 [of c rest] assms by (simp add: utf8_encode_cp_def)
  next
    case 4
    then show ?thesis using utf8_decode_4 [of c rest] assms by (simp add: utf8_encode_cp_def)
  qed
qed

lemma utf8_decode_encode:
  "list_all valid_cp cs \<Longrightarrow> utf8_decode (utf8_encode cs) = cs"
  by (induction cs) (simp_all add: utf8_decode_encode_cp)

lemma utf8_encode_cp_bytes:
  assumes "valid_cp c"
  shows "\<forall>b\<in>set (utf8_encode_cp c). b < 256"
proof -
  have "c div 262144 < 5"
    using assms by (intro less_mult_imp_div_less) (simp add: valid_cp_def)
  then show ?thesis
    by (auto simp: utf8_encode_cp_def)
qed

lemma utf8_encode_bytes:
  "list_all valid_cp cs \<Longrightarrow> \<forall>b\<in>set (utf8_encode cs). b < 256"
  by (induction cs) (auto dest: utf8_encode_cp_bytes)

lemma utf8_seq_length: "utf8_seq b bs = Some (c, k) \<Longrightarrow> k \<le> length bs"
  by (auto simp: utf8_seq_def Let_def split: option.splits if_splits)

lemma utf8_seq_snoc_0: "utf8_seq b (bs @ [0]) = utf8_seq b bs"
proof (cases "utf8_lead b")
  case None
  then show ?thesis by (simp add: utf8_seq_def)
next
  case (Some kv)
  then obtain k v0 where kv: "utf8_lead b = Some (k, v0)" by (cases kv) auto
  show ?thesis
  proof (cases "k \<le> length bs")
    case True
    then show ?thesis by (simp add: utf8_seq_def kv)
  next
    case False
    then have "\<not> list_all is_cont (take k (bs @ [0]))"
      by (simp add: is_cont_def list_all_iff)
    then show ?thesis
      using False by (simp add: utf8_seq_def kv is_cont_def)
  qed
qed

lemma utf8_decode_snoc_0: "utf8_decode (bs @ [0]) = utf8_decode bs @ [0]"
proof (induction bs rule: utf8_decode.induct)
  case 1
  then show ?case by simp
next
  case (2 b bs)
  show ?case
  proof (cases "b < 0x80 \<or> utf8_seq b bs = None")
    case True
    then show ?thesis using 2 by (auto simp: utf8_seq_snoc_0)
  next
    case False
    then obtain c k where ck: "utf8_seq b bs = Some (c, k)" and b: "\<not> b < 0x80" by auto
    then have "drop k (bs @ [0]) = drop k bs @ [0]"
      using utf8_seq_length [OF ck] by simp
    then show ?thesis
      using 2 by (simp add: b ck utf8_seq_snoc_0)
  qed
qed

lemma utf8_decode_valid: "list_all valid_cp (utf8_decode bs)"
  by (induction bs rule: utf8_decode.induct)
     (auto simp: valid_cp_def replacement_char_def utf8_seq_def Let_def
           split: option.splits if_splits)

section \<open>Terminators and zero units\<close>

lemma char_of_nat_0 [simp]: "char_of (0 :: nat) = CHR 0x00"
  using char_of_char [of "CHR 0x00", where 'a = nat] by simp

lemma of_char_eq_0 [simp]: "of_char c = (0 :: nat) \<longleftrightarrow> c = CHR 0x00"
  using of_char_eq_iff [of c "CHR 0x00", where 'a = nat] by simp

lemma utf16_decode_snoc:
  "\<not> is_low_surrogate x \<Longrightarrow> utf16_decode (us @ [x]) = utf16_decode us @ [utf16_unit x]"
  by (induction us rule: utf16_decode.induct) auto

lemma wide_char_to_multi_byte_utf8_snoc_0:
  "wide_char_to_multi_byte_utf8 (ws @ [0]) = wide_char_to_multi_byte_utf8 ws @ [CHR 0x00]"
  by (simp add: wide_char_to_multi_byte_utf8_def utf16_decode_snoc is_low_surrogate_def
        utf16_unit_def utf8_encode_cp_def)

lemma multi_byte_to_wide_char_utf8_snoc_0:
  "multi_byte_to_wide_char_utf8 (s @ [CHR 0x00]) = multi_byte_to_wide_char_utf8 s @ [0]"
  by (simp add: multi_byte_to_wide_char_utf8_def utf8_decode_snoc_0 utf16_encode_cp_def)

lemma utf8_seq_ge_0x80: "utf8_seq b bs = Some (c, k) \<Longrightarrow> 0x80 \<le> c"
  by (auto simp: utf8_seq_def utf8_min_def Let_def split: option.splits if_splits)

lemma utf8_decode_nonzero: "0 \<notin> set bs \<Longrightarrow> 0 \<notin> set (utf8_decode bs)"
proof (induction bs rule: utf8_decode.induct)
  case 1
  then show ?case by simp
next
  case (2 b bs)
  show ?case
  proof (cases "b < 0x80 \<or> utf8_seq b bs = None")
    case True
    then show ?thesis using 2 by (auto simp: replacement_char_def)
  next
    case False
    then obtain c k where ck: "utf8_seq b bs = Some (c, k)" and b: "\<not> b < 0x80" by auto
    have "0 \<notin> set (drop k bs)"
      using "2.prems" by (auto dest: in_set_dropD)
    then have "0 \<notin> set (utf8_decode (drop k bs))"
      using 2(3) [OF b ck refl] by simp
    then show ?thesis
      using utf8_seq_ge_0x80 [OF ck] by (simp add: b ck)
  qed
qed

lemma utf16_encode_units:
  "list_all valid_cp cs \<Longrightarrow> 0 \<notin> set cs \<Longrightarrow> \<forall>u\<in>set (utf16_encode cs). 0 < u \<and> u < 0x10000"
  by (induction cs) (auto simp: utf16_encode_cp_def valid_cp_def)

lemma word_of_nat_nonzero:
  assumes "0 < x" "x < 2 ^ LENGTH('a)"
  shows "(of_nat x :: 'a::len word) \<noteq> 0"
proof
  assume "(of_nat x :: 'a word) = 0"
  then have "unat (of_nat x :: 'a word) = 0" by simp
  then show False using assms by (simp add: unat_of_nat)
qed

lemma multi_byte_to_wide_char_utf8_nonzero:
  assumes "CHR 0x00 \<notin> set s"
  shows "0 \<notin> set (multi_byte_to_wide_char_utf8 s)"
proof -
  have "0 \<notin> set (map of_char s :: nat list)"
    using assms by auto
  then have "\<forall>u\<in>set (utf16_encode (utf8_decode (map of_char s))). 0 < u \<and> u < 0x10000"
    by (intro utf16_encode_units utf8_decode_valid utf8_decode_nonzero)
  then show ?thesis
    using word_of_nat_nonzero [where 'a = 16] by (fastforce simp: multi_byte_to_wide_char_utf8_def)
qed

section \<open>The wrappers on terminated views\<close>

text \<open>A view followed by a terminator: the length query counts the view's conversion plus
  the converted terminator, so the output has exactly the view's conversion.\<close>

lemma take_Suc_terminated: "n < length mem \<Longrightarrow> mem ! n = z \<Longrightarrow> take (Suc n) mem = take n mem @ [z]"
  by (simp add: take_Suc_conv_app_nth)

lemma api_write_exact [simp]: "api_write conv input (replicate (length (conv input)) z) = conv input"
  by (simp add: api_write_def)

lemma narrow_terminated:
  assumes conv: "\<And>xs. conv (xs @ [0]) = conv xs @ [CHR 0x00]"
    and "n < length mem" "mem ! n = 0" "n < 2147483647"
  shows "win32_narrow_std_string_with_code_page conv mem n = Some (conv (take n mem))"
proof -
  have "length (conv (take (Suc n) mem)) = Suc (length (conv (take n mem)))"
    using assms(2,3) by (simp add: take_Suc_terminated conv)
  then show ?thesis
    using assms(2-4) by (simp add: win32_narrow_std_string_with_code_page_def Let_def)
qed

lemma widen_terminated:
  assumes conv: "\<And>xs. conv (xs @ [CHR 0x00]) = conv xs @ [0]"
    and "n < length mem" "mem ! n = CHR 0x00" "n < 2147483647"
  shows "win32_widen_std_string_with_code_page conv mem n = Some (conv (take n mem))"
proof -
  have "length (conv (take (Suc n) mem)) = Suc (length (conv (take n mem)))"
    using assms(2,3) by (simp add: take_Suc_terminated conv)
  then show ?thesis
    using assms(2-4) by (simp add: win32_widen_std_string_with_code_page_def Let_def)
qed

lemma utf8_narrow_terminated:
  "n < length mem \<Longrightarrow> mem ! n = 0 \<Longrightarrow> n < 2147483647 \<Longrightarrow>
     utf8_narrow mem n = Some (wide_char_to_multi_byte_utf8 (take n mem))"
  unfolding utf8_narrow_def
  by (rule narrow_terminated [where conv = wide_char_to_multi_byte_utf8, OF wide_char_to_multi_byte_utf8_snoc_0])

lemma utf8_widen_terminated:
  "n < length mem \<Longrightarrow> mem ! n = CHR 0x00 \<Longrightarrow> n < 2147483647 \<Longrightarrow>
     utf8_widen mem n = Some (multi_byte_to_wide_char_utf8 (take n mem))"
  unfolding utf8_widen_def
  by (rule widen_terminated [where conv = multi_byte_to_wide_char_utf8, OF multi_byte_to_wide_char_utf8_snoc_0])

section \<open>Sizes and the conversion round trip\<close>

lemma length_utf8_encode_cp: "length (utf8_encode_cp c) \<le> (if c < 0x10000 then 3 else 4)"
  by (simp add: utf8_encode_cp_def)

lemma length_utf8_encode_cp_unit: "u < 0x10000 \<Longrightarrow> length (utf8_encode_cp (utf16_unit u)) \<le> 3"
  by (simp add: utf8_encode_cp_def utf16_unit_def replacement_char_def)

lemma unat_u16_less: "unat (w :: u16) < 0x10000"
  using unsigned_less [of w] by simp

lemma length_utf8_encode_utf16_decode:
  "\<forall>u\<in>set us. u < 0x10000 \<Longrightarrow> length (utf8_encode (utf16_decode us)) \<le> 3 * length us"
proof (induction us rule: utf16_decode.induct)
  case (2 u)
  then show ?case
    using length_utf8_encode_cp_unit [of u] by simp
next
  case (3 u l us)
  have "length (utf8_encode_cp (utf16_unit u)) \<le> 3"
    using "3.prems" by (simp add: length_utf8_encode_cp_unit)
  then show ?case
    using 3 length_utf8_encode_cp [of "utf16_pair u l"] by (auto split: if_splits)
qed simp

lemma length_wide_char_to_multi_byte_utf8:
  "length (wide_char_to_multi_byte_utf8 ws) \<le> 3 * length ws"
  using length_utf8_encode_utf16_decode [of "map unat ws"] unat_u16_less
  by (simp add: wide_char_to_multi_byte_utf8_def)

lemma multi_byte_to_wide_char_utf8_narrow:
  assumes "utf16_wf (map unat ws)"
  shows "multi_byte_to_wide_char_utf8 (wide_char_to_multi_byte_utf8 ws) = ws"
proof -
  let ?cs = "utf16_decode (map unat ws)"
  have valid: "list_all valid_cp ?cs"
    using unat_u16_less by (intro utf16_decode_valid) auto
  have "map of_char (map char_of (utf8_encode ?cs) :: string) = utf8_encode ?cs"
    using utf8_encode_bytes [OF valid] by (simp add: map_idI of_char_of)
  then show ?thesis
    using valid assms
    by (simp add: multi_byte_to_wide_char_utf8_def wide_char_to_multi_byte_utf8_def
          utf8_decode_encode utf16_encode_decode comp_def)
qed

lemma wide_c_string_terminated:
  assumes "0 \<notin> set r" "xs \<noteq> []"
  shows "wide_c_string ((r @ xs)[length r := 0]) = r"
proof -
  obtain y ys where xs: "xs = y # ys" using assms(2) by (cases xs) auto
  have "takeWhile (\<lambda>u. u \<noteq> 0) (r @ 0 # ys) = r @ takeWhile (\<lambda>u. u \<noteq> 0) (0 # ys)"
    by (rule takeWhile_append2) (use assms(1) in auto)
  then show ?thesis
    by (simp add: xs wide_c_string_def list_update_append)
qed

section \<open>Properties\<close>

text \<open>C33. Round trip: for a well-formed UTF-16 string held in memory with its terminator
  (a \<open>std::wstring\<close>), \<open>UTF8::Narrow\<close> returns a UTF-8 string, and \<open>UTF8::Widen\<close> of that
  string (with its own terminator) returns the original UTF-16 string, surrogate pairs
  included; sizes are below the \<open>int\<close> limit of the Win32 calls.\<close>

theorem utf8_widen_narrow_roundtrip:
  assumes "utf16_wf (map unat ws)" and "3 * length ws < 2147483647"
  shows "\<exists>s. utf8_narrow (ws @ 0 # rest) (length ws) = Some s \<and>
             utf8_widen (s @ CHR 0x00 # rest') (length s) = Some ws"
proof -
  let ?s = "wide_char_to_multi_byte_utf8 ws"
  have n: "utf8_narrow (ws @ 0 # rest) (length ws) = Some ?s"
    using assms(2) utf8_narrow_terminated [of "length ws" "ws @ 0 # rest"] by simp
  have "length ?s < 2147483647"
    using assms(2) length_wide_char_to_multi_byte_utf8 [of ws] by linarith
  then have "utf8_widen (?s @ CHR 0x00 # rest') (length ?s) = Some ws"
    using utf8_widen_terminated [of "length ?s" "?s @ CHR 0x00 # rest'"]
      multi_byte_to_wide_char_utf8_narrow [OF assms(1)] by simp
  with n show ?thesis by blast
qed

text \<open>C34. \<open>UTF8::WideArg\<close> on a terminated UTF-8 string without embedded nulls:
  \<open>c_str()\<close> points at the same UTF-16 string that \<open>UTF8::Widen\<close> returns, null-terminated,
  whatever the buffers held before; it is the stack buffer exactly when the converted
  length is below 260.\<close>

theorem wide_arg_c_str_widen:
  assumes "n < length mem" "mem ! n = CHR 0x00" "CHR 0x00 \<notin> set (take n mem)" "n < 2147483647"
  shows "\<exists>a. wide_arg_ctor garbage mem n = Some a \<and>
             utf8_widen mem n = Some (wide_c_string (wide_arg_c_str a)) \<and>
             (heap_buffer a = None \<longleftrightarrow> length (the (utf8_widen mem n)) < wide_arg_stack_size)"
proof -
  let ?r = "multi_byte_to_wide_char_utf8 (take n mem)"
  let ?stack0 = "map garbage [0..<wide_arg_stack_size]"
  have w: "utf8_widen mem n = Some ?r"
    using utf8_widen_terminated assms(1,2,4) by blast
  have cl: "length (multi_byte_to_wide_char_utf8 (take (Suc n) mem)) = Suc (length ?r)"
    using assms(1,2) by (simp add: take_Suc_terminated multi_byte_to_wide_char_utf8_snoc_0)
  have nz: "0 \<notin> set ?r"
    using multi_byte_to_wide_char_utf8_nonzero [OF assms(3)] .
  consider "length ?r = 0" | "0 < length ?r" "length ?r < wide_arg_stack_size"
    | "wide_arg_stack_size \<le> length ?r"
    by linarith
  then show ?thesis
  proof cases
    case 1
    then show ?thesis
      using assms(1,4) w cl
      by (simp add: wide_arg_ctor_def wide_arg_c_str_def wide_c_string_def wide_arg_stack_size_def
            Let_def upt_conv_Cons)
  next
    case 2
    have "wide_c_string ((?r @ drop (length ?r) ?stack0)[length ?r := 0]) = ?r"
      using 2 nz by (intro wide_c_string_terminated) auto
    then show ?thesis
      using 2 assms(1,4) w cl
      by (simp add: wide_arg_ctor_def wide_arg_c_str_def api_write_def Let_def)
  next
    case 3
    let ?heap0 = "map garbage [0..<Suc (length ?r)]"
    have "wide_c_string ((?r @ drop (length ?r) ?heap0)[length ?r := 0]) = ?r"
      using nz by (intro wide_c_string_terminated) auto
    moreover have "?r \<noteq> []"
      using 3 by (auto simp: wide_arg_stack_size_def)
    ultimately show ?thesis
      using 3 assms(1,4) w cl
      by (simp add: wide_arg_ctor_def wide_arg_c_str_def api_write_def Let_def wide_arg_stack_size_def)
  qed
qed

text \<open>C35. \<open>UTF8::Narrow\<close> on a view that is not followed by a terminator: the length
  query converts one element past the view (\<open>input.size() + 1\<close>), so when that element
  is a character of two UTF-8 bytes (U+0080 to U+07FF) the result is one byte too long and
  ends in a null character that is not in the input.\<close>

theorem utf8_narrow_unterminated_view:
  assumes "0x80 \<le> unat x" "unat x < 0x800" "length ws < 2147483647"
  shows "utf8_narrow (ws @ x # rest) (length ws) = Some (wide_char_to_multi_byte_utf8 ws @ [CHR 0x00])"
proof -
  have nl: "\<not> is_low_surrogate (unat x)" using assms(2) by (simp add: is_low_surrogate_def)
  have "length (utf8_encode_cp (utf16_unit (unat x))) = 2"
    using assms(1,2) by (simp add: utf16_unit_def utf8_encode_cp_def)
  then have "length (wide_char_to_multi_byte_utf8 (ws @ [x])) = length (wide_char_to_multi_byte_utf8 ws) + 2"
    by (simp add: wide_char_to_multi_byte_utf8_def utf16_decode_snoc [OF nl])
  moreover have "nat (1 + int (length (wide_char_to_multi_byte_utf8 ws))) =
      Suc (length (wide_char_to_multi_byte_utf8 ws))"
    by simp
  moreover have "drop k (c # replicate k c) = [c]" for k and c :: char
    by (induction k) auto
  ultimately show ?thesis
    using assms(3)
    by (simp add: utf8_narrow_def win32_narrow_std_string_with_code_page_def api_write_def Let_def
          take_Suc_terminated)
qed

end
