(* ===== verification/Core_Float.thy ===== *)
theory Core_Float
  imports Core_Parse Core_String "HOL-Library.Log_Nat"
begin

text \<open>
  \<open>ASCII::TryParseF32\<close> and \<open>TryParseF64\<close> (\<open>core_string.cpp\<close> lines 113-114): the
  template \<open>TryParsePrimitiveTypeT\<close> over the floating-point \<open>std::from_chars\<close>, modelled
  from the C++ standard (\<open>[charconv.from.chars]\<close>, \<open>chars_format::general\<close>): an optional
  \<open>-\<close>, then \<open>inf\<close>, \<open>infinity\<close> or \<open>nan\<close> with an optional parenthesised
  n-char-sequence (letters ignoring case), or a non-empty decimal digit sequence with an
  optional point and an optional exponent (consumed only when digits follow the \<open>e\<close>);
  no \<open>+\<close> sign and no hexadecimal form.  The value is the decimal one rounded to nearest,
  ties to even, in the IEEE-754 binary format of the type; \<open>out\<close> is the bit pattern
  (\<open>32 word\<close> for \<open>f32\<close>, \<open>64 word\<close> for \<open>f64\<close>).  A value beyond the largest finite number
  or a non-zero value that rounds to zero is \<open>result_out_of_range\<close> with \<open>out\<close> left alone
  (the Microsoft library's choice, which the standard leaves to the implementation); a
  NaN is the quiet NaN of its sign, its payload not modelled.
\<close>

section \<open>Scanning the subject sequence\<close>

datatype float_subject =
    Fs_Inf bool
  | Fs_NaN bool
  | Fs_Dec bool nat int

definition is_n_char :: "char \<Rightarrow> bool" where
  "is_n_char c \<longleftrightarrow> is_digit c \<or> is_lower_case c \<or> is_upper_case c \<or> c = CHR ''_''"

text \<open>The length of a well-formed \<open>(n-char-sequence)\<close> after \<open>nan\<close>, 0 when there is none.\<close>

definition nan_paren_len :: "string \<Rightarrow> nat" where
  "nan_paren_len t =
     (if t \<noteq> [] \<and> hd t = CHR ''(''
      then (let w = takeWhile is_n_char (tl t); u = drop (length w) (tl t)
            in if u \<noteq> [] \<and> hd u = CHR '')'' then length w + 2 else 0)
      else 0)"

text \<open>The exponent part: its value and length, \<open>(0, 0)\<close> when no digit follows the \<open>e\<close>.\<close>

definition scan_exponent :: "string \<Rightarrow> int \<times> nat" where
  "scan_exponent r =
     (if r \<noteq> [] \<and> (hd r = CHR ''e'' \<or> hd r = CHR ''E'')
      then (let r1 = tl r;
                signed = (r1 \<noteq> [] \<and> (hd r1 = CHR ''+'' \<or> hd r1 = CHR ''-''));
                ed = takeWhile is_digit (if signed then tl r1 else r1);
                x = int (dec_value ed)
            in if ed = [] then (0, 0)
               else (if signed \<and> hd r1 = CHR ''-'' then - x else x, 1 + (if signed then 1 else 0) + length ed))
      else (0, 0))"

text \<open>
  The decimal form: the digits before and after the point (at least one in all), the
  exponent; the value is \<open>N * 10^X\<close> with \<open>N\<close> all the digits and \<open>X\<close> the exponent less
  the number of fraction digits.
\<close>

definition scan_decimal :: "string \<Rightarrow> (nat \<times> nat \<times> int) option" where
  "scan_decimal r =
     (let ip = takeWhile is_digit r;
          r1 = drop (length ip) r;
          has_point = (r1 \<noteq> [] \<and> hd r1 = CHR ''.'');
          fp = (if has_point then takeWhile is_digit (tl r1) else []);
          mlen = length ip + (if has_point then 1 + length fp else 0);
          (x, elen) = scan_exponent (drop mlen r)
      in if ip = [] \<and> fp = [] then None
         else Some (mlen + elen, dec_value (ip @ fp), x - int (length fp)))"

definition scan_float :: "string \<Rightarrow> (nat \<times> float_subject) option" where
  "scan_float s =
     (let neg = (s \<noteq> [] \<and> hd s = CHR ''-'');
          r = (if neg then tl s else s);
          off = (if neg then 1 else 0)
      in if to_lower_copy (take 8 r) = ''infinity'' then Some (off + 8, Fs_Inf neg)
         else if to_lower_copy (take 3 r) = ''inf'' then Some (off + 3, Fs_Inf neg)
         else if to_lower_copy (take 3 r) = ''nan'' then Some (off + 3 + nan_paren_len (drop 3 r), Fs_NaN neg)
         else (case scan_decimal r of
                 None \<Rightarrow> None
               | Some (len, n, x) \<Rightarrow> Some (off + len, Fs_Dec neg n x)))"

section \<open>Rounding to a binary format\<close>

text \<open>
  A binary format of precision \<open>p\<close> (significand bits with the hidden one) and maximal
  exponent \<open>emax\<close>: a finite value is \<open>m * 2^e\<close> with \<open>m < 2^p\<close> and
  \<open>2 - emax - p \<le> e \<le> emax - p + 1\<close>.  The value to round is the fraction \<open>n / d\<close>.
\<close>

definition below_pow2 :: "int \<Rightarrow> int \<Rightarrow> int \<Rightarrow> bool" where
  "below_pow2 n d k = (if 0 \<le> k then n < d * 2 ^ nat k else n * 2 ^ nat (- k) < d)"

definition scaled :: "int \<Rightarrow> int \<Rightarrow> int \<Rightarrow> int \<times> int" where
  "scaled n d e = (if 0 \<le> e then (n, d * 2 ^ nat e) else (n * 2 ^ nat (- e), d))"

definition round_half_even :: "int \<Rightarrow> int \<Rightarrow> int" where
  "round_half_even a b =
     (let q = a div b; r = a mod b in if b < 2 * r \<or> (2 * r = b \<and> odd q) then q + 1 else q)"

text \<open>
  The exponent is the least one at which \<open>n / d\<close> needs at most \<open>p\<close> bits (one of two
  candidates around the difference of the bit lengths), but not below the subnormal one;
  a rounding up to \<open>2^p\<close> moves to the next exponent; \<open>None\<close> is an overflow.
\<close>

definition fp_round :: "nat \<Rightarrow> int \<Rightarrow> int \<Rightarrow> int \<Rightarrow> (int \<times> int) option" where
  "fp_round p emax n d =
     (let e1 = bitlen n - bitlen d - int p;
          e2 = (if below_pow2 n d (int p + e1) then e1 else e1 + 1);
          e = max e2 (2 - emax - int p);
          (a, b) = scaled n d e;
          m = round_half_even a b;
          (m', e') = (if m = 2 ^ p then (2 ^ (p - 1), e + 1) else (m, e))
      in if emax < e' + int p - 1 then None else Some (m', e'))"

text \<open>
  The bit pattern of \<open>(-1)^neg * m * 2^e\<close>: sign, biased exponent, fraction; a subnormal
  or zero has the biased exponent 0.  Infinity has the all-ones exponent, the quiet NaN
  also the top fraction bit.
\<close>

definition fp_bits :: "nat \<Rightarrow> int \<Rightarrow> bool \<Rightarrow> int \<Rightarrow> int \<Rightarrow> 'a::len word" where
  "fp_bits p emax neg m e =
     word_of_int ((if neg then 2 ^ (LENGTH('a) - 1) else 0) +
                  (if m < 2 ^ (p - 1) then m else (e + int p - 1 + emax) * 2 ^ (p - 1) + (m - 2 ^ (p - 1))))"

definition fp_inf_bits :: "nat \<Rightarrow> int \<Rightarrow> bool \<Rightarrow> 'a::len word" where
  "fp_inf_bits p emax neg =
     word_of_int ((if neg then 2 ^ (LENGTH('a) - 1) else 0) + (2 * emax + 1) * 2 ^ (p - 1))"

definition fp_nan_bits :: "nat \<Rightarrow> int \<Rightarrow> bool \<Rightarrow> 'a::len word" where
  "fp_nan_bits p emax neg =
     word_of_int ((if neg then 2 ^ (LENGTH('a) - 1) else 0) + (2 * emax + 1) * 2 ^ (p - 1) + 2 ^ (p - 2))"

section \<open>\<open>std::from_chars\<close> and \<open>TryParseF32/F64\<close>\<close>

definition from_chars_float :: "nat \<Rightarrow> int \<Rightarrow> string \<Rightarrow> 'a::len word \<Rightarrow> from_chars_result \<times> 'a word" where
  "from_chars_float p emax s out =
     (case scan_float s of
        None \<Rightarrow> (\<lparr>fc_ptr = 0, fc_ec = Invalid_Argument\<rparr>, out)
      | Some (len, Fs_Inf neg) \<Rightarrow> (\<lparr>fc_ptr = len, fc_ec = Errc_None\<rparr>, fp_inf_bits p emax neg)
      | Some (len, Fs_NaN neg) \<Rightarrow> (\<lparr>fc_ptr = len, fc_ec = Errc_None\<rparr>, fp_nan_bits p emax neg)
      | Some (len, Fs_Dec neg n x) \<Rightarrow>
          (if n = 0 then (\<lparr>fc_ptr = len, fc_ec = Errc_None\<rparr>, fp_bits p emax neg 0 0)
           else
             (let (num, den) = (if 0 \<le> x then (int n * 10 ^ nat x, 1) else (int n, 10 ^ nat (- x)))
              in case fp_round p emax num den of
                   None \<Rightarrow> (\<lparr>fc_ptr = len, fc_ec = Result_Out_Of_Range\<rparr>, out)
                 | Some (m, e) \<Rightarrow>
                     if m = 0 then (\<lparr>fc_ptr = len, fc_ec = Result_Out_Of_Range\<rparr>, out)
                     else (\<lparr>fc_ptr = len, fc_ec = Errc_None\<rparr>, fp_bits p emax neg m e))))"

text \<open>\<open>TryParsePrimitiveTypeT\<close> (lines 99-107) at a floating-point type.\<close>

definition try_parse_float :: "nat \<Rightarrow> int \<Rightarrow> string \<Rightarrow> 'a::len word \<Rightarrow> bool \<times> 'a word" where
  "try_parse_float p emax s out =
     (let (result, v) = from_chars_float p emax s out;
          has_no_error = (fc_ec result = Errc_None);
          parsed_fully = (fc_ptr result = length s)
      in (has_no_error \<and> parsed_fully, v))"

definition try_parse_f32 :: "string \<Rightarrow> 32 word \<Rightarrow> bool \<times> 32 word" where
  "try_parse_f32 s out = try_parse_float 24 127 s out"

definition try_parse_f64 :: "string \<Rightarrow> 64 word \<Rightarrow> bool \<times> 64 word" where
  "try_parse_f64 s out = try_parse_float 53 1023 s out"

section \<open>Rounding: the nearest value of the format\<close>

text \<open>Integer division rounded to nearest, ties to even, and the scaling to an exponent.\<close>

lemma two_powr_int:
  "0 \<le> k \<Longrightarrow> (2::real) powr k = real_of_int (2 ^ nat k)"
  by (simp add: powr_realpow [symmetric])

lemma two_powr_neg_int:
  "k < 0 \<Longrightarrow> (2::real) powr k = 1 / real_of_int (2 ^ nat (- k))"
  by (simp add: powr_realpow [symmetric] powr_minus_divide [symmetric])

lemma round_half_even_bound:
  assumes "0 < b"
  shows "2 * \<bar>a - b * round_half_even a b\<bar> \<le> b"
proof -
  have dm: "a = b * (a div b) + a mod b" by simp
  have r: "0 \<le> a mod b" "a mod b < b" using assms by simp_all
  show ?thesis
  proof (cases "b < 2 * (a mod b) \<or> (2 * (a mod b) = b \<and> odd (a div b))")
    case True
    then have "round_half_even a b = a div b + 1" by (simp add: round_half_even_def Let_def)
    then have "a - b * round_half_even a b = a mod b - b" by (subst dm) (simp add: algebra_simps)
    with True r show ?thesis by auto
  next
    case False
    then have "round_half_even a b = a div b" by (auto simp: round_half_even_def Let_def)
    then have "a - b * round_half_even a b = a mod b" by (subst dm) (simp add: algebra_simps)
    with False r show ?thesis by auto
  qed
qed

lemma round_half_even_range:
  assumes "0 < b" and "0 \<le> a" and "a < c * b"
  shows "0 \<le> round_half_even a b \<and> round_half_even a b \<le> c"
proof -
  have "a div b * b \<le> a"
    using pos_mod_sign [OF assms(1), of a] div_mult_mod_eq [of a b] by linarith
  then have "a div b * b < c * b" using assms(3) by linarith
  then have "a div b < c" using assms(1) by (simp add: mult_less_cancel_right)
  moreover have "0 \<le> a div b" using assms(1,2) by (simp add: pos_imp_zdiv_nonneg_iff)
  ultimately show ?thesis by (auto simp: round_half_even_def Let_def)
qed

lemma scaled_real:
  assumes "0 < d" and "scaled n d e = (a, b)"
  shows "0 < b \<and> real_of_int a / real_of_int b = real_of_int n / (real_of_int d * 2 powr e)"
proof (cases "0 \<le> e")
  case True
  then have "real_of_int (2 ^ nat e) = 2 powr e"
    by (simp add: powr_realpow [symmetric])
  with True assms show ?thesis by (auto simp: scaled_def)
next
  case False
  then have p: "real_of_int (2 ^ nat (- e)) = 2 powr (- e)"
    by (simp add: powr_realpow [symmetric])
  have "real_of_int n * 2 powr (- e) / real_of_int d = real_of_int n / (real_of_int d * 2 powr e)"
    by (simp add: powr_minus divide_simps)
  with False assms p show ?thesis by (auto simp: scaled_def)
qed

lemma scaled_pos:
  "0 < n \<Longrightarrow> 0 < d \<Longrightarrow> scaled n d e = (a, b) \<Longrightarrow> 0 < a"
  by (auto simp: scaled_def split: if_splits)

lemma below_pow2_real:
  assumes "0 < d"
  shows "below_pow2 n d k \<longleftrightarrow> real_of_int n / real_of_int d < 2 powr k"
proof (cases "0 \<le> k")
  case True
  have "n < d * 2 ^ nat k \<longleftrightarrow> real_of_int n < real_of_int d * real_of_int (2 ^ nat k)"
    by (subst of_int_less_iff [symmetric]) simp
  with True assms show ?thesis
    by (simp add: below_pow2_def two_powr_int divide_less_eq mult.commute del: of_int_power)
next
  case False
  have "n * 2 ^ nat (- k) < d \<longleftrightarrow> real_of_int n * real_of_int (2 ^ nat (- k)) < real_of_int d"
    by (subst of_int_less_iff [symmetric]) simp
  with False assms show ?thesis
    by (simp add: below_pow2_def two_powr_neg_int divide_less_eq less_divide_eq mult.commute
        del: of_int_power)
qed

lemma below_pow2_mono:
  assumes "0 < d" and "below_pow2 n d k" and "k \<le> k'"
  shows "below_pow2 n d k'"
proof -
  from assms(1,2) have "real_of_int n / real_of_int d < 2 powr k" by (simp add: below_pow2_real)
  also have "\<dots> \<le> 2 powr k'" using assms(3) by simp
  finally show ?thesis using assms(1) by (simp add: below_pow2_real)
qed

lemma below_pow2_bitlen:
  assumes "0 < n" and "0 < d"
  shows "below_pow2 n d (bitlen n - bitlen d + 1)"
proof -
  have "real_of_int n < real_of_int (2 ^ nat (bitlen n))"
    using bitlen_bounds [OF assms(1)] by (simp only: of_int_less_iff)
  then have n: "real_of_int n < 2 powr bitlen n"
    by (simp add: two_powr_int bitlen_nonneg del: of_int_power)
  have "real_of_int (2 ^ nat (bitlen d - 1)) \<le> real_of_int d"
    using bitlen_bounds [OF assms(2)] by (simp only: of_int_le_iff)
  moreover have "1 \<le> bitlen d" using assms(2) by (simp add: bitlen_alt_def)
  then have "(2::real) powr real_of_int (bitlen d - 1) = real_of_int (2 ^ nat (bitlen d - 1))"
    by (intro two_powr_int) simp
  ultimately have "2 powr real_of_int (bitlen d - 1) \<le> real_of_int d"
    by (simp only:)
  then have "real_of_int n / real_of_int d < 2 powr bitlen n / 2 powr (bitlen d - 1)"
    using n assms by (intro frac_less) simp_all
  also have "\<dots> = 2 powr (bitlen n - bitlen d + 1)"
    by (simp add: powr_diff [symmetric] algebra_simps)
  finally show ?thesis using assms(2) by (simp add: below_pow2_real)
qed

lemma scaled_below:
  assumes "0 < d" and "scaled n d e = (a, b)" and "below_pow2 n d (int p + e)"
  shows "a < 2 ^ p * b"
proof -
  from scaled_real [OF assms(1,2)] have b: "0 < b"
    and q: "real_of_int a / real_of_int b = real_of_int n / (real_of_int d * 2 powr e)" by simp_all
  have "real_of_int n / real_of_int d < 2 powr (int p + e)"
    using assms(1,3) by (simp add: below_pow2_real)
  then have "real_of_int n / real_of_int d / 2 powr e < 2 powr (int p + e) / 2 powr e"
    by (intro divide_strict_right_mono) simp_all
  then have "real_of_int a / real_of_int b < 2 ^ p"
    by (simp add: q powr_add powr_realpow [symmetric] field_simps)
  then have "real_of_int a < real_of_int (2 ^ p * b)"
    using b by (simp add: divide_less_eq)
  then show ?thesis by (simp only: of_int_less_iff)
qed

lemma half_ulp_scale:
  fixes x q n d s :: real
  assumes "0 < d" and "0 < s" and "2 * \<bar>x - q\<bar> \<le> 1" and "q = n / (d * s)"
  shows "2 * \<bar>x * s - n / d\<bar> \<le> s"
proof -
  have "x * s - n / d = (x - q) * s"
    using assms(1,2,4) by (simp add: field_simps)
  then have "2 * \<bar>x * s - n / d\<bar> = (2 * \<bar>x - q\<bar>) * s"
    using assms(2) by (simp add: abs_mult)
  also have "\<dots> \<le> 1 * s"
    using assms(2,3) by (intro mult_right_mono) simp_all
  finally show ?thesis by simp
qed

lemma int_half_bound_real:
  fixes a b m :: int
  assumes "0 < b" and "2 * \<bar>a - b * m\<bar> \<le> b"
  shows "2 * \<bar>real_of_int m - real_of_int a / real_of_int b\<bar> \<le> 1"
proof -
  have "real_of_int (2 * \<bar>a - b * m\<bar>) \<le> real_of_int b"
    using assms(2) by (simp only: of_int_le_iff)
  then have le: "2 * \<bar>real_of_int a - real_of_int b * real_of_int m\<bar> \<le> real_of_int b"
    by simp
  have "real_of_int m - real_of_int a / real_of_int b = - (real_of_int a - real_of_int b * real_of_int m) / real_of_int b"
    using assms(1) by (simp add: field_simps)
  then have "2 * \<bar>real_of_int m - real_of_int a / real_of_int b\<bar> =
             2 * \<bar>real_of_int a - real_of_int b * real_of_int m\<bar> / real_of_int b"
    using assms(1) by simp
  also have "\<dots> \<le> 1"
    using le assms(1) by simp
  finally show ?thesis .
qed

text \<open>The exponent \<open>fp_round\<close> picks keeps the scaled value below \<open>2^p\<close>.\<close>

lemma fp_round_SomeE:
  assumes "fp_round p emax n d = Some (m, e)"
  obtains e0 a b where "scaled n d e0 = (a, b)"
    and "(m, e) = (if round_half_even a b = 2 ^ p then (2 ^ (p - 1), e0 + 1) else (round_half_even a b, e0))"
proof -
  define e0 where "e0 = max (if below_pow2 n d (int p + (bitlen n - bitlen d - int p))
                             then bitlen n - bitlen d - int p else bitlen n - bitlen d - int p + 1)
                            (2 - emax - int p)"
  obtain a b where ab: "scaled n d e0 = (a, b)" by fastforce
  have "(m, e) = (if round_half_even a b = 2 ^ p then (2 ^ (p - 1), e0 + 1) else (round_half_even a b, e0))"
    using assms unfolding fp_round_def Let_def e0_def [symmetric] ab
    by (simp split: if_splits)
  with ab show ?thesis by (rule that)
qed

lemma fp_round_exponent:
  assumes "0 < n" and "0 < d"
  shows "below_pow2 n d (int p + max (if below_pow2 n d (int p + (bitlen n - bitlen d - int p))
                             then bitlen n - bitlen d - int p else bitlen n - bitlen d - int p + 1)
                            (2 - emax - int p))"
proof (rule below_pow2_mono [OF assms(2)])
  let ?e1 = "bitlen n - bitlen d - int p"
  show "below_pow2 n d (int p + (if below_pow2 n d (int p + ?e1) then ?e1 else ?e1 + 1))"
    using below_pow2_bitlen [OF assms] by (simp add: algebra_simps)
qed simp

text \<open>
  Correctness of the rounding: the significand has at most \<open>p\<close> bits and the exponent is
  in the format's range, and the result is within half a unit in the last place
  (\<open>2^e / 2\<close>) of \<open>n / d\<close>.
\<close>

lemma fp_round_range:
  assumes "0 < n" and "0 < d" and "0 < p" and "fp_round p emax n d = Some (m, e)"
  shows "0 \<le> m \<and> m < 2 ^ p \<and> 2 - emax - int p \<le> e \<and> e + int p - 1 \<le> emax"
proof -
  define e0 where "e0 = max (if below_pow2 n d (int p + (bitlen n - bitlen d - int p))
                             then bitlen n - bitlen d - int p else bitlen n - bitlen d - int p + 1)
                            (2 - emax - int p)"
  obtain a b where ab: "scaled n d e0 = (a, b)" by fastforce
  define m0 where "m0 = round_half_even a b"
  have res: "(m, e) = (if round_half_even a b = 2 ^ p then (2 ^ (p - 1), e0 + 1) else (round_half_even a b, e0))"
    and ov: "e + int p - 1 \<le> emax"
    using assms(4) unfolding fp_round_def Let_def e0_def [symmetric] ab
    by (simp_all split: if_splits)
  have "a < 2 ^ p * b"
    using scaled_below [OF assms(2) ab] fp_round_exponent [OF assms(1,2), of p emax] by (simp add: e0_def)
  then have m0: "0 \<le> m0 \<and> m0 \<le> 2 ^ p"
    using round_half_even_range scaled_real [OF assms(2) ab] scaled_pos [OF assms(1,2) ab]
    unfolding m0_def by (simp add: less_imp_le)
  have "2 - emax - int p \<le> e0" by (simp add: e0_def)
  with res m0 ov assms(3) show ?thesis by (auto simp: m0_def split: if_splits)
qed

lemma fp_round_error:
  assumes "0 < d" and "0 < p" and "fp_round p emax n d = Some (m, e)"
  shows "2 * \<bar>real_of_int m * 2 powr e - real_of_int n / real_of_int d\<bar> \<le> 2 powr e"
proof -
  obtain e0 a b where ab: "scaled n d e0 = (a, b)"
    and res: "(m, e) = (if round_half_even a b = 2 ^ p then (2 ^ (p - 1), e0 + 1) else (round_half_even a b, e0))"
    using assms(3) by (rule fp_round_SomeE)
  define m0 where "m0 = round_half_even a b"
  from scaled_real [OF assms(1) ab] have b: "0 < b"
    and q: "real_of_int a / real_of_int b = real_of_int n / (real_of_int d * 2 powr e0)" by simp_all
  have "2 * \<bar>real_of_int m0 - real_of_int a / real_of_int b\<bar> \<le> 1"
    using b round_half_even_bound [OF b, of a] unfolding m0_def by (rule int_half_bound_real)
  then have err: "2 * \<bar>real_of_int m0 * 2 powr e0 - real_of_int n / real_of_int d\<bar> \<le> 2 powr e0"
    using assms(1) q by (intro half_ulp_scale) simp_all
  show ?thesis
  proof (cases "m0 = 2 ^ p")
    case True
    then have me: "m = 2 ^ (p - 1)" "e = e0 + 1" using res by (simp_all add: m0_def)
    have eq: "real_of_int m * 2 powr e = real_of_int m0 * 2 powr e0"
      using True assms(2) unfolding me by (cases p) (simp_all add: powr_add)
    have le: "(2::real) powr e0 \<le> 2 powr e" unfolding me by simp
    show ?thesis unfolding eq using err le by (rule order_trans)
  next
    case False
    then show ?thesis using res err by (simp add: m0_def)
  qed
qed

text \<open>Every error of \<open>std::from_chars\<close> leaves \<open>out\<close> unchanged.\<close>

lemma from_chars_float_error_keeps_out:
  "from_chars_float p emax s out = (r, v) \<Longrightarrow> fc_ec r \<noteq> Errc_None \<Longrightarrow> v = out"
  by (auto simp: from_chars_float_def Let_def split: option.splits float_subject.splits prod.splits if_splits)

section \<open>\<open>TryParseF32/F64\<close> return the nearest value\<close>

lemma decimal_fraction_real:
  fixes num den :: int
  assumes "(num, den) = (if 0 \<le> x then (int n * 10 ^ nat x, 1) else (int n, 10 ^ nat (- x)))"
  shows "0 < den \<and> real_of_int num / real_of_int den = real n * 10 powr real_of_int x"
proof (cases "0 \<le> x")
  case True
  then have "(10::real) powr real_of_int x = 10 ^ nat x" by (simp add: powr_realpow [symmetric])
  with True assms show ?thesis by simp
next
  case False
  then have "(10::real) powr real_of_int x = 1 / 10 ^ nat (- x)"
    by (simp add: powr_realpow [symmetric] powr_minus_divide [symmetric])
  with False assms show ?thesis by simp
qed

lemma from_chars_float_decimal:
  assumes "from_chars_float p emax s out = (r, w)" and "fc_ec r = Errc_None"
    and "scan_float s = Some (len, Fs_Dec neg n x)" and "0 < n"
  obtains num den m e :: int where
    "(num, den) = (if 0 \<le> x then (int n * 10 ^ nat x, 1) else (int n, 10 ^ nat (- x)))"
    "fp_round p emax num den = Some (m, e)" "m \<noteq> 0" "w = fp_bits p emax neg m e"
proof -
  obtain num den :: int where nd: "(num, den) = (if 0 \<le> x then (int n * 10 ^ nat x, 1) else (int n, 10 ^ nat (- x)))"
    by fastforce
  from assms nd show ?thesis
    by (cases "fp_round p emax num den")
       (auto simp: from_chars_float_def split: if_splits prod.splits intro: that)
qed


end
