(* ===== verification/Examples.thy ===== *)
theory Examples
  imports Sprite_Db Spr_Roundtrip Codec_Size Core_Time Core_Utf8 Core_Float
begin

text \<open>
  Concrete inputs for the properties of \<open>Sprite_Db\<close>: small base-game environments whose
  base sprite sets are byte images decoded by the model of \<open>SprSet::Read\<close>, a two-set
  compile run, names for the lookup and renaming functions, and a writer with one
  queued body for the writer's frame and layout properties, and a small sprite set with
  one named texture and one named sprite for the codec's round trips.  Each witness runs the
  model on such an input by \<open>simp\<close> and applies the property there.
\<close>

section \<open>Environments\<close>

text \<open>
  A base-game environment: every file exists, the base sprite set file is an 80-byte set
  with one sprite of texture index 2, the base database has one entry for \<open>SPR_X\<close>.
\<close>

definition ex_base_bytes :: bytes where
  "ex_base_bytes = u32_le 0 @ u32_le 0 @ u32_le 0 @ u32_le 1 @ u32_le 32 @ u32_le 0 @ u32_le 0 @ u32_le 72
     @ u32_le 2 @ replicate 36 0 @ replicate 8 0"

definition ex_base_entry :: db_set_info where
  "ex_base_entry = \<lparr>dbs_name = ''SPR_X'', dbs_filename = ''spr_x.bin'', dbs_id = 42, dbs_textures = [],
     dbs_sprites = [\<lparr>sdi_name = ''SPR_X_A'', sdi_data_index = 0, sdi_id = 43\<rparr>]\<rparr>"

definition ex_env :: env where
  "ex_env = \<lparr>file_exists = (\<lambda>_. True), file_data = (\<lambda>_. ex_base_bytes), read_manifest = (\<lambda>_. None), json_parse = (\<lambda>_. None),
     read_image = (\<lambda>_. ((0, 0), [])), parse_db = (\<lambda>_. [ex_base_entry]),
     sprite_packer = (\<lambda>_ _. spr_set_default)\<rparr>"

definition ex_fresh :: spr_set where
  "ex_fresh = \<lparr>spr_flags = 0, tex_set = replicate 3 tex_default, sprites = [sprite_default]\<rparr>"

definition ex_info :: db_set_info where
  "ex_info = \<lparr>dbs_name = ''SPR_X'', dbs_filename = ''spr_x.bin'', dbs_id = 85000, dbs_textures = [],
     dbs_sprites = []\<rparr>"

text \<open>
  A second base environment: a 152-byte base sprite set with one sprite and one named
  texture \<open>T_000\<close> (one 1x1 mipmap), and a base database entry naming it.
\<close>

definition ex2_base_bytes :: bytes where
  "ex2_base_bytes =
     u32_le 0 @ u32_le 96 @ u32_le 1 @ u32_le 1 @ u32_le 32 @ u32_le 80 @ u32_le 0 @ u32_le 72
     @ replicate 40 0 @ replicate 8 0
     @ u32_le 84 @ map byte_of_char ''T_000'' @ [0] @ replicate 6 0
     @ u32_le 0x03505854 @ u32_le 1 @ u32_le 0x01010101 @ u32_le 16
     @ u32_le 0x04505854 @ u32_le 1 @ [1, 1, 1, 1] @ u32_le 16
     @ u32_le 0x02505854 @ u32_le 1 @ u32_le 1 @ u32_le 0 @ [0, 0, 0, 0] @ u32_le 0"

definition ex2_mip :: mip_map where
  "ex2_mip = \<lparr>mm_width = 1, mm_height = 1, mm_format = 0, mm_data_size = 0, mm_data = []\<rparr>"

definition ex2_base_entry :: db_set_info where
  "ex2_base_entry = \<lparr>dbs_name = ''SPR_X'', dbs_filename = ''spr_x.bin'', dbs_id = 42,
     dbs_textures = [\<lparr>sdi_name = ''SPRTEX_X_000'', sdi_data_index = 0, sdi_id = 50\<rparr>],
     dbs_sprites = [\<lparr>sdi_name = ''SPR_X_A'', sdi_data_index = 0, sdi_id = 51\<rparr>]\<rparr>"

definition ex2_env :: env where
  "ex2_env = ex_env\<lparr>file_data := (\<lambda>_. ex2_base_bytes), parse_db := (\<lambda>_. [ex2_base_entry])\<rparr>"

text \<open>
  A compile run over two sets: only \<open>a.png\<close> exists, the packer yields one sprite \<open>A\<close> and no
  texture, and no base-game file exists.
\<close>

definition ex3_env :: env where
  "ex3_env = \<lparr>file_exists = (\<lambda>p. p = ''a.png''), file_data = (\<lambda>_. []), read_manifest = (\<lambda>_. None), json_parse = (\<lambda>_. None),
     read_image = (\<lambda>_. ((0, 0), [])), parse_db = (\<lambda>_. []),
     sprite_packer = (\<lambda>_ _. spr_set_default\<lparr>sprites := [sprite_default\<lparr>spr_name := ''A''\<rparr>]\<rparr>)\<rparr>"

definition ex3_sets :: "sprite_set_info list" where
  "ex3_sets = [\<lparr>ss_name = ''SPR_A'', ss_sprites = [\<lparr>si_name = ''A'', si_file = ''a.png'', si_internal_id = 0\<rparr>]\<rparr>,
               \<lparr>ss_name = ''SPR_B'', ss_sprites = [\<lparr>si_name = ''B'', si_file = ''b.png'', si_internal_id = 0\<rparr>]\<rparr>]"

definition ex3_state :: compile_state where
  "ex3_state = \<lparr>cs_id = 2,
     cs_db = [\<lparr>dbs_name = ''SPR_A'', dbs_filename = to_lower ''SPR_A'' @ ''.bin'', dbs_id = 0, dbs_textures = [],
               dbs_sprites = [\<lparr>sdi_name = ''SPR_A_A'', sdi_data_index = 0, sdi_id = 1\<rparr>]\<rparr>],
     cs_farcs = [(''out/'' @ to_lower ''SPR_A'' @ ''.farc'', to_lower ''SPR_A'' @ ''.bin'',
                  spr_set_encode (spr_set_default\<lparr>sprites := [sprite_default\<lparr>spr_name := ''A''\<rparr>]\<rparr>))]\<rparr>"

text \<open>Two sprites whose names both start with \<open>A\<close>, the longer one first.\<close>

definition ex_prefix_set :: spr_set where
  "ex_prefix_set = spr_set_default\<lparr>sprites := [sprite_default\<lparr>spr_name := ''AB''\<rparr>, sprite_default\<lparr>spr_name := ''A''\<rparr>]\<rparr>"

text \<open>
  Texture codec inputs: a 2x1 mipmap with two bytes of data, the bytes of a mipmap whose
  \<open>DataSize\<close> (9) exceeds what remains, the bytes of a texture with a mipmap signature
  in place of a texture signature, a cube map of six slices of three levels and a 2D
  texture of two slices of one level.
\<close>

definition ex_mip :: mip_map where
  "ex_mip = \<lparr>mm_width = 2, mm_height = 1, mm_format = 6, mm_data_size = 2, mm_data = [7, 8]\<rparr>"

definition ex_short_mip_bytes :: bytes where
  "ex_short_mip_bytes = u32_le 0x02505854 @ u32_le 4 @ u32_le 4 @ u32_le 6 @ [0, 0, 0, 0] @ u32_le 9 @ [1, 2]"

definition ex_bad_tex_bytes :: bytes where
  "ex_bad_tex_bytes = u32_le 0x02505854 @ u32_le 1 @ [1, 1, 1, 1]"

definition ex_cube_tex :: tex where
  "ex_cube_tex = tex_default\<lparr>tex_signature := Txp_CubeMap, mip_maps_array := replicate 6 (replicate 3 ex_mip)\<rparr>"

definition ex_array_tex :: tex where
  "ex_array_tex = tex_default\<lparr>mip_maps_array := replicate 2 [ex_mip]\<rparr>"

text \<open>A writer with one queued body that writes a byte and queues a string.\<close>

definition ex_writer :: writer where
  "ex_writer = schedule_write_offset 0 [W_U8 7, W_Sched_Str ''ab''] writer_init"

text \<open>A texture of one mipmap and a sprite set with that texture and one sprite, both named.\<close>

definition ex_rt_tex :: tex where
  "ex_rt_tex = tex_default\<lparr>tex_name := ''T'', mip_maps_array := [[ex_mip]]\<rparr>"

definition ex_rt_set :: spr_set where
  "ex_rt_set = \<lparr>spr_flags = 3, tex_set = [ex_rt_tex],
     sprites = [sprite_default\<lparr>spr_name := ''S'', texture_index := 0, extra_flags := 1\<rparr>]\<rparr>"

text \<open>Three readings of a 10 MHz performance counter: at start-up and 0.3 ms and 2.3 ms later.\<close>

definition ex_clk0 :: win32_clock where "ex_clk0 = \<lparr>qpc_frequency = 10000000, qpc_counter = 5000\<rparr>"

definition ex_clk1 :: win32_clock where "ex_clk1 = \<lparr>qpc_frequency = 10000000, qpc_counter = 8000\<rparr>"

definition ex_clk2 :: win32_clock where "ex_clk2 = \<lparr>qpc_frequency = 10000000, qpc_counter = 28000\<rparr>"

text \<open>A UTF-16 string with a surrogate pair: \<open>H\<close> and U+1F600.\<close>

definition ex_wide :: "u16 list" where "ex_wide = [0x48, 0xD83D, 0xDE00]"

text \<open>
  A manifest of a regular set (one sprite with the default id) and a cumulative set (one
  sprite with id 7), a mod whose \<open>spr_info.json\<close> parses to its rendering, and a mod whose
  \<open>spr_info.json\<close> is the empty object \<open>{}\<close>.
\<close>

definition ex_manifest :: "json_set list" where
  "ex_manifest =
     [\<lparr>jset_name = ''SPR_A'', jset_sprites = [\<lparr>js_name = ''X'', js_file = ''x.png'', js_internal_id = -1\<rparr>]\<rparr>,
      \<lparr>jset_name = ''SPR_SEL'', jset_sprites = [\<lparr>js_name = ''Y'', js_file = ''y.png'', js_internal_id = 7\<rparr>]\<rparr>]"

definition ex4_env :: env where
  "ex4_env = ex_env\<lparr>read_manifest := (\<lambda>_. Some []), json_parse := (\<lambda>_. Some (manifest_json ex_manifest))\<rparr>"

definition ex5_env :: env where
  "ex5_env = ex_env\<lparr>read_manifest := (\<lambda>_. Some []), json_parse := (\<lambda>_. Some (JObject []))\<rparr>"

section \<open>Decoding the base sets\<close>

lemma ex_load_base: "load_spr_set ex_base_bytes = spr_set_default\<lparr>sprites := [sprite_default\<lparr>texture_index := 2\<rparr>]\<rparr>"
  by (simp add: load_spr_set_def spr_set_decode_def ex_base_bytes_def spr_set_read_def read_u32_def read_raw_def
        reader_of_def bytes_at_def spr_read_textures_def spr_read_sprites_def read_at_offset_def offset_target_def
        base_offset_def read_vec4_def read_sprite_extra_def sprite_default_def spr_set_default_def
        vec4_zero_def le_u32_def u32_le_def nth_append)

lemma ex2_load_base: "load_spr_set ex2_base_bytes =
   \<lparr>spr_flags = 0, tex_set = [tex_default\<lparr>tex_name := ''T_000'', mip_maps_array := [[ex2_mip]]\<rparr>],
    sprites = [sprite_default]\<rparr>"
  by (simp add: load_spr_set_def spr_set_decode_def ex2_base_bytes_def spr_set_read_def read_u32_def read_u8_def
        read_u16_def read_raw_def
        reader_of_def bytes_at_def spr_read_textures_def spr_read_sprites_def read_at_offset_def offset_target_def
        base_offset_def read_vec4_def read_sprite_extra_def sprite_default_def spr_set_default_def
        vec4_zero_def le_u32_def le_u16_def u32_le_def nth_append tex_set_read_def push_base_offset_def
        pop_base_offset_def tex_read_def read_mip_map_def get_remaining_def adjusted_mip_levels_def
        txp_sig_value_def read_tex_name_def read_string_offset_def read_cstr_def
        tex_default_def ex2_mip_def)

section \<open>Runs\<close>

lemma ex2_run: "merge_base_sprite_data ex2_env ex_fresh ex_info 7 =
     Inr (True, ex_fresh\<lparr>tex_set := replicate 3 tex_default @
                 [tex_default\<lparr>tex_name := ''T_003'', mip_maps_array := [[ex2_mip]]\<rparr>],
               sprites := [sprite_default, sprite_default\<lparr>texture_index := 3\<rparr>]\<rparr>,
          ex_info\<lparr>dbs_id := 42, dbs_textures := [\<lparr>sdi_name = ''SPRTEX_X_003'', sdi_data_index = 3, sdi_id = 7\<rparr>],
                  dbs_sprites := [\<lparr>sdi_name = ''SPR_X_A'', sdi_data_index = 1, sdi_id = 8\<rparr>]\<rparr>, 9)"
  by (simp add: merge_base_sprite_data_def ex2_env_def ex_env_def ex2_load_base find_sprite_set_by_name_def
        ex2_base_entry_def ex_info_def ex_fresh_def sprite_default_def spr_set_default_def shift_texture_index_def
        get_texture_name_with_new_index_def get_last_index_def format_03zu_def dec_digits.simps digit_char_def numeral_2_eq_2)

lemma ex3_run: "compile_sprite_sets_with_db ex3_env ''out'' ex3_sets 0 = Inr ex3_state"
  by (simp add: compile_sprite_sets_with_db_def compile_set_def ex3_env_def ex3_sets_def ex3_state_def
        check_set_info_eligible_def pack_sprite_set_def get_sprite_index_def strncmp_eq_def c_str_def
        merge_base_sprite_data_def base_spr_set_path_def base_spr_db_path_def base_data_path_def Let_def
        spr_set_default_def sprite_default_def)

lemma ex3_compile_sets:
  "compile_sets ex3_env ''out'' ex3_sets \<lparr>cs_id = 0, cs_db = [], cs_farcs = []\<rparr> = Inr ex3_state"
  using ex3_run by (simp add: compile_sprite_sets_with_db_def)

lemma ex_short_mip_read:
  "read_mip_map (reader_of ex_short_mip_bytes) =
     ((BadCount, Some \<lparr>mm_width = 4, mm_height = 4, mm_format = 6, mm_data_size = 9, mm_data = []\<rparr>),
      (reader_of ex_short_mip_bytes)\<lparr>r_pos := 24\<rparr>)"
  by (simp add: read_mip_map_def ex_short_mip_bytes_def reader_of_def read_u32_def read_u8_def read_u16_def
        read_raw_def get_remaining_def bytes_at_append_right bytes_at_append_take bytes_at_Cons bytes_at_Cons_0
        txp_sig_value_def)

lemma ex_bad_tex_read:
  "tex_read tex_default (reader_of ex_bad_tex_bytes) =
     ((BadFormat, tex_default), \<lparr>r_data = ex_bad_tex_bytes, r_pos = 12, r_bases = [0]\<rparr>)"
  by (simp add: tex_read_def ex_bad_tex_bytes_def reader_of_def read_u32_def read_u8_def read_raw_def
        push_base_offset_def bytes_at_append_right bytes_at_append_take bytes_at_Cons bytes_at_Cons_0
        txp_sig_value_def)

section \<open>Witnesses\<close>

theorem merge_shifts_base_sprites_witness:
  "merge_base_sprite_data ex_env ex_fresh ex_info 7 =
     Inr (True, ex_fresh\<lparr>sprites := [sprite_default, sprite_default\<lparr>texture_index := 5\<rparr>]\<rparr>,
          ex_info\<lparr>dbs_id := 42, dbs_sprites := [\<lparr>sdi_name = ''SPR_X_A'', sdi_data_index = 1, sdi_id = 7\<rparr>]\<rparr>, 8)
   \<and> sprites (ex_fresh\<lparr>sprites := [sprite_default, sprite_default\<lparr>texture_index := 5\<rparr>]\<rparr>) =
     sprites ex_fresh @ map (\<lambda>s. s\<lparr>texture_index := texture_index s + of_nat (length (tex_set ex_fresh))\<rparr>)
       (sprites (load_spr_set (file_data ex_env (base_spr_set_path (dbs_name ex_info)))))"
proof -
  have run: "merge_base_sprite_data ex_env ex_fresh ex_info 7 =
     Inr (True, ex_fresh\<lparr>sprites := [sprite_default, sprite_default\<lparr>texture_index := 5\<rparr>]\<rparr>,
          ex_info\<lparr>dbs_id := 42, dbs_sprites := [\<lparr>sdi_name = ''SPR_X_A'', sdi_data_index = 1, sdi_id = 7\<rparr>]\<rparr>, 8)"
    by (simp add: merge_base_sprite_data_def ex_env_def ex_load_base find_sprite_set_by_name_def ex_base_entry_def
          ex_info_def ex_fresh_def sprite_default_def spr_set_default_def shift_texture_index_def)
  show ?thesis using run merge_shifts_base_sprites [OF run] by simp
qed

theorem merge_appends_renamed_textures_witness:
  "merge_base_sprite_data ex2_env ex_fresh ex_info 7 =
     Inr (True, ex_fresh\<lparr>tex_set := replicate 3 tex_default @
                 [tex_default\<lparr>tex_name := ''T_003'', mip_maps_array := [[ex2_mip]]\<rparr>],
               sprites := [sprite_default, sprite_default\<lparr>texture_index := 3\<rparr>]\<rparr>,
          ex_info\<lparr>dbs_id := 42, dbs_textures := [\<lparr>sdi_name = ''SPRTEX_X_003'', sdi_data_index = 3, sdi_id = 7\<rparr>],
                  dbs_sprites := [\<lparr>sdi_name = ''SPR_X_A'', sdi_data_index = 1, sdi_id = 8\<rparr>]\<rparr>, 9) \<and>
   (\<exists>names. length names = length (tex_set (load_spr_set (file_data ex2_env (base_spr_set_path (dbs_name ex_info))))) \<and>
      tex_set (ex_fresh\<lparr>tex_set := replicate 3 tex_default @
                 [tex_default\<lparr>tex_name := ''T_003'', mip_maps_array := [[ex2_mip]]\<rparr>],
               sprites := [sprite_default, sprite_default\<lparr>texture_index := 3\<rparr>]\<rparr>) = tex_set ex_fresh @
        map (\<lambda>(t, n). tex_default\<lparr>tex_name := n, mip_maps_array := mip_maps_array t\<rparr>)
          (zip (tex_set (load_spr_set (file_data ex2_env (base_spr_set_path (dbs_name ex_info))))) names) \<and>
      (\<forall>k < length (tex_set (load_spr_set (file_data ex2_env (base_spr_set_path (dbs_name ex_info))))).
         get_texture_name_with_new_index
           (tex_name (tex_set (load_spr_set (file_data ex2_env (base_spr_set_path (dbs_name ex_info)))) ! k))
           (length (tex_set ex_fresh) + k) = Inr (names ! k)))"
  by (rule conjI [OF ex2_run merge_appends_renamed_textures [OF ex2_run]])

theorem merge_entries_index_merged_data_witness:
  "merge_base_sprite_data ex2_env ex_fresh ex_info 7 =
     Inr (True, ex_fresh\<lparr>tex_set := replicate 3 tex_default @
                 [tex_default\<lparr>tex_name := ''T_003'', mip_maps_array := [[ex2_mip]]\<rparr>],
               sprites := [sprite_default, sprite_default\<lparr>texture_index := 3\<rparr>]\<rparr>,
          ex_info\<lparr>dbs_id := 42, dbs_textures := [\<lparr>sdi_name = ''SPRTEX_X_003'', sdi_data_index = 3, sdi_id = 7\<rparr>],
                  dbs_sprites := [\<lparr>sdi_name = ''SPR_X_A'', sdi_data_index = 1, sdi_id = 8\<rparr>]\<rparr>, 9) \<and>
   sdi_data_index (dbs_textures (ex_info\<lparr>dbs_id := 42,
      dbs_textures := [\<lparr>sdi_name = ''SPRTEX_X_003'', sdi_data_index = 3, sdi_id = 7\<rparr>],
      dbs_sprites := [\<lparr>sdi_name = ''SPR_X_A'', sdi_data_index = 1, sdi_id = 8\<rparr>]\<rparr>) ! 0) = 3 \<and>
   sdi_data_index (dbs_sprites (ex_info\<lparr>dbs_id := 42,
      dbs_textures := [\<lparr>sdi_name = ''SPRTEX_X_003'', sdi_data_index = 3, sdi_id = 7\<rparr>],
      dbs_sprites := [\<lparr>sdi_name = ''SPR_X_A'', sdi_data_index = 1, sdi_id = 8\<rparr>]\<rparr>) ! 0) = 1"
  using ex2_run merge_entries_index_merged_data [OF ex2_run]
  by (simp add: ex_info_def ex_fresh_def ex2_load_base ex2_env_def)




theorem get_sprite_index_first_prefix_witness:
  "get_sprite_index ex_prefix_set ''A'' = 0 \<and>
   get_sprite_index ex_prefix_set ''A'' =
    (if \<exists>s \<in> set (sprites ex_prefix_set). prefix ''A'' (spr_name s)
     then of_nat (length (takeWhile (\<lambda>s. \<not> prefix ''A'' (spr_name s)) (sprites ex_prefix_set))) else -1)"
proof -
  have "get_sprite_index ex_prefix_set ''A'' =
    (if \<exists>s \<in> set (sprites ex_prefix_set). prefix ''A'' (spr_name s)
     then of_nat (length (takeWhile (\<lambda>s. \<not> prefix ''A'' (spr_name s)) (sprites ex_prefix_set))) else -1)"
    by (rule get_sprite_index_first_prefix) (simp_all add: ex_prefix_set_def)
  then show ?thesis by (simp add: ex_prefix_set_def)
qed

theorem route_set_cumulative_prefix_witness:
  "route_set ''r'' \<lparr>jset_name = ''SPR_SEL'', jset_sprites = []\<rparr> ([], []) =
     ([], [\<lparr>ss_name = ''SPR_SEL'', ss_sprites = []\<rparr>])"
  using route_set_cumulative_prefix [of "\<lparr>jset_name = ''SPR_SEL'', jset_sprites = []\<rparr>" "''r''" "[]" "[]"]
  by simp

theorem get_texture_name_with_new_index_format_witness:
  "get_texture_name_with_new_index ''SPR_TEX_000'' 5 = Inr ''SPR_TEX_005''"
  using get_texture_name_with_new_index_format [of 7 "''SPR_TEX_000''" 5]
  by (simp add: digit_char_def)

theorem get_texture_name_without_underscore_witness:
  "get_texture_name_with_new_index ''TEX'' 4 = Inl Bad_String_Length"
  using get_texture_name_without_underscore [of "''TEX''" 4] by simp

theorem mip_map_body_roundtrip_witness:
  "length (mm_data ex_mip) = unat (mm_data_size ex_mip) \<and> w_pos writer_init \<le> length (w_buf writer_init) \<and>
   read_mip_map \<lparr>r_data = w_buf (exec_cmds 0 (mip_map_body 0 0 ex_mip) writer_init), r_pos = w_pos writer_init, r_bases = []\<rparr> =
    ((Success, Some ex_mip),
     \<lparr>r_data = w_buf (exec_cmds 0 (mip_map_body 0 0 ex_mip) writer_init),
      r_pos = w_pos (exec_cmds 0 (mip_map_body 0 0 ex_mip) writer_init), r_bases = []\<rparr>)"
proof -
  have h: "length (mm_data ex_mip) = unat (mm_data_size ex_mip)" "w_pos writer_init \<le> length (w_buf writer_init)"
    by (simp_all add: ex_mip_def writer_init_def)
  show ?thesis using h mip_map_body_roundtrip [OF h] by simp
qed

theorem read_mip_map_result_witness:
  "read_mip_map (reader_of ex_short_mip_bytes) =
     ((BadCount, Some \<lparr>mm_width = 4, mm_height = 4, mm_format = 6, mm_data_size = 9, mm_data = []\<rparr>),
      (reader_of ex_short_mip_bytes)\<lparr>r_pos := 24\<rparr>) \<and>
   ((BadCount = BadFormat \<and> Some \<lparr>mm_width = 4, mm_height = 4, mm_format = 6, mm_data_size = 9, mm_data = []\<rparr> = None) \<or>
   (BadCount = Success \<and> (\<exists>m. Some \<lparr>mm_width = 4, mm_height = 4, mm_format = 6, mm_data_size = (9::u32), mm_data = []\<rparr> = Some m \<and> length (mm_data m) = unat (mm_data_size m))) \<or>
   (BadCount = BadCount \<and> (\<exists>m. Some \<lparr>mm_width = 4, mm_height = 4, mm_format = 6, mm_data_size = (9::u32), mm_data = []\<rparr> = Some m \<and> mm_data m = [] \<and> 0 < unat (mm_data_size m))))"
  using ex_short_mip_read read_mip_map_result [OF ex_short_mip_read] by blast

theorem tex_read_error_keeps_base_witness:
  "tex_read tex_default (reader_of ex_bad_tex_bytes) =
     ((BadFormat, tex_default), \<lparr>r_data = ex_bad_tex_bytes, r_pos = 12, r_bases = [0]\<rparr>) \<and>
   r_bases \<lparr>r_data = ex_bad_tex_bytes, r_pos = 12, r_bases = [0]\<rparr> =
     (if BadFormat = Success then r_bases (reader_of ex_bad_tex_bytes)
      else r_pos (reader_of ex_bad_tex_bytes) # r_bases (reader_of ex_bad_tex_bytes))"
  using ex_bad_tex_read tex_read_error_keeps_base [OF ex_bad_tex_read] by blast

theorem tex_header_mip_levels_witness:
  "adjusted_mip_levels (txp_sig_value Txp_CubeMap) 18 6 = 3 \<and>
   adjusted_mip_levels (txp_sig_value Txp_Texture2D) 2 2 \<noteq> 1"
proof -
  have "tex_array_size ex_cube_tex = 6" "tex_mip_levels ex_cube_tex = 3"
       "tex_array_size ex_array_tex = 2" "tex_mip_levels ex_array_tex = 1"
    by (simp_all add: ex_cube_tex_def ex_array_tex_def tex_array_size_def tex_mip_levels_def tex_default_def)
  with tex_header_mip_levels [of ex_cube_tex] tex_header_mip_levels [of ex_array_tex] show ?thesis
    by (simp add: ex_cube_tex_def ex_array_tex_def tex_default_def word_le_nat_alt)
qed

theorem trim_all_whitespace_unchanged_witness:
  "trim [CHR '' '', CHR 0x09] = [CHR '' '', CHR 0x09] \<and> trim '' a '' = ''a''"
  using trim_all_whitespace_unchanged [of "[CHR '' '', CHR 0x09]"] trim_all_whitespace_unchanged [of "'' a ''"]
  by (simp add: is_all_whitespace_def is_whitespace_def)

theorem separated_list_roundtrip_witness:
  "for_each_in_char_separated_list ''a,,b,'' (CHR '','') = [''a'', '''', ''b'']"
  using separated_list_roundtrip [of "[''a'', '''', ''b'']" "CHR '',''"] by simp

theorem for_each_line_roundtrip_witness:
  "for_each_line_in_multi_line_string (concat (map terminated_line [(''a'', False), (''b'', True)]) @ ''c'') False =
     [''a'', ''b'', ''c'']"
  using for_each_line_roundtrip [of "[(''a'', False), (''b'', True)]" "''c''" False] by simp

theorem for_each_line_trailing_newline_witness:
  "for_each_line_in_multi_line_string (terminated_line (''a'', True)) True =
     [''a'' @ [CHR 0x0D, CHR 0x0A], []]"
  using for_each_line_trailing_newline [of "[]" "''a''" True True] by (simp add: terminated_line_def)

theorem copy_then_view_witness:
  "\<exists>buf'. copy_string_view_into_fixed_buffer ''xxxx'' 4 ''abcdef'' = Some buf' \<and> length buf' = 4 \<and>
     fixed_buffer_string_view buf' 4 = ''abc''"
  using copy_then_view [of "''xxxx''" 4 "''abcdef''"] by simp

lemma ex_writer_wwf: "wwf ex_writer"
  by (simp add: ex_writer_def wwf_def slots_def schedule_write_offset_def write_u32_def write_raw_def
      writer_init_def)

lemma ex_rt_tex_wf: "tex_wf ex_rt_tex"
  by (simp add: tex_wf_def ex_rt_tex_def ex_mip_def tex_default_def)

lemma writer_init_wwf: "wwf writer_init \<and> w_sched writer_init = [] \<and> w_strs writer_init = [] \<and> w_pos writer_init = 0"
  by (simp add: wwf_def slots_def writer_init_def)

lemma ex_rt_tex_small: "length (w_buf (tex_set_write [ex_rt_tex] writer_init)) < 2 ^ 31"
proof -
  have "potential writer_init + deep (tex_set_cmds (w_pos writer_init) [ex_rt_tex]) + 15 < 2 ^ 31"
    by (simp add: potential_def extent_def writer_init_def tex_set_cmds_def tex_body_def mip_map_body_def
        ex_rt_tex_def ex_mip_def tex_array_size_def tex_mip_levels_def tex_default_def)
  then show ?thesis
    using tex_set_write_potential [of writer_init "[ex_rt_tex]"] writer_init_wwf
      length_le_potential [of "tex_set_write [ex_rt_tex] writer_init"] by linarith
qed

lemma ex_rt_set_small: "length (spr_set_encode ex_rt_set) < 2 ^ 31"
proof -
  have "53 + deep (spr_header_cmds ex_rt_set) + deep (tex_set_cmds 0 (tex_set ex_rt_set)) < 2 ^ 31"
    by (simp add: ex_rt_set_def ex_rt_tex_def ex_mip_def spr_header_cmds_def tex_set_cmds_def tex_body_def
      mip_map_body_def tex_array_size_def tex_mip_levels_def tex_default_def sprite_default_def sprites_body_def
      sprite_record_cmds_def vec4_cmds_def tex_names_body_def sprite_names_body_def sprite_extra_body_def)
  then show ?thesis using spr_set_encode_length [of ex_rt_set] by linarith
qed

theorem spr_set_roundtrip_witness:
  "spr_wf ex_rt_set \<and> spr_set_decode (spr_set_encode ex_rt_set) = (Success, spr_set_decoded ex_rt_set)"
proof -
  have wf: "spr_wf ex_rt_set"
    by (simp add: spr_wf_def tex_wf_def ex_rt_set_def ex_rt_tex_def ex_mip_def tex_default_def sprite_default_def)
  show ?thesis using spr_set_roundtrip [OF wf ex_rt_set_small] wf by simp
qed

theorem tex_set_roundtrip_witness:
  "tex_wf ex_rt_tex \<and>
   tex_set_read [] \<lparr>r_data = w_buf (tex_set_write [ex_rt_tex] writer_init), r_pos = 0, r_bases = []\<rparr> =
     ((Success, [tex_reset ex_rt_tex]),
      \<lparr>r_data = w_buf (tex_set_write [ex_rt_tex] writer_init), r_pos = 16, r_bases = []\<rparr>)"
  using tex_set_roundtrip [of writer_init "[ex_rt_tex]" "[]" "[]"] writer_init_wwf ex_rt_tex_wf ex_rt_tex_small
  by simp



section \<open>Number parsing\<close>

lemma ex_dec_int_2147483648: "dec_int_spec ''2147483648'' = Some 2147483648"
  by (simp add: dec_int_spec_def dec_nat_spec_def is_digit_def dec_value_def digit_value_def)

theorem try_parse_i32_out_of_range_witness:
  "dec_int_spec ''2147483648'' = Some 2147483648 \<and> try_parse_i32 ''2147483648'' 5 = (False, 5)"
  using ex_dec_int_2147483648 try_parse_i32_out_of_range [OF ex_dec_int_2147483648, of 5] by simp

theorem try_parse_u32_prefix_stored_witness:
  "try_parse_u32 ''12x'' 7 = (False, 12)"
  using try_parse_u32_prefix_stored [of "''12''" "''x''" 7]
  by (simp add: is_digit_def dec_value_def digit_value_def)

section \<open>The CPU timer\<close>

lemma ex_get_now: "get_now (win32_global_performance_counter ex_clk0) ex_clk1 = Some \<lparr>ticks = 3000\<rparr>"
  by (simp add: get_now_def i64_sub_def ex_clk0_def ex_clk1_def win32_global_performance_counter_def
   win32_get_performance_counter_ticks_now_def win32_get_performance_counter_ticks_per_second_def)

lemma ex_get_now2: "get_now (win32_global_performance_counter ex_clk0) ex_clk2 = Some \<lparr>ticks = 23000\<rparr>"
  by (simp add: get_now_def i64_sub_def ex_clk0_def ex_clk2_def win32_global_performance_counter_def
   win32_get_performance_counter_ticks_now_def win32_get_performance_counter_ticks_per_second_def)

theorem delta_time_relative_absolute_witness:
  "get_now (win32_global_performance_counter ex_clk0) ex_clk1 = Some \<lparr>ticks = 3000\<rparr> \<and>
   get_now (win32_global_performance_counter ex_clk0) ex_clk2 = Some \<lparr>ticks = 23000\<rparr> \<and>
   delta_time (win32_global_performance_counter ex_clk0) \<lparr>ticks = 3000\<rparr> \<lparr>ticks = 23000\<rparr> =
   delta_time (win32_global_performance_counter ex_clk0) (get_now_absolute ex_clk1) (get_now_absolute ex_clk2)"
  using delta_time_relative_absolute [OF ex_get_now ex_get_now2] ex_get_now ex_get_now2 by simp


section \<open>UTF-8 conversion\<close>

lemma ex_wide_wf: "utf16_wf (map unat ex_wide)"
  by (simp add: ex_wide_def is_high_surrogate_def is_low_surrogate_def)

theorem utf8_widen_narrow_roundtrip_witness:
  "utf16_wf (map unat ex_wide) \<and>
   (\<exists>s. utf8_narrow (ex_wide @ [0]) (length ex_wide) = Some s \<and>
        utf8_widen (s @ [CHR 0x00]) (length s) = Some ex_wide)"
  using ex_wide_wf utf8_widen_narrow_roundtrip [OF ex_wide_wf, of "[]" "[]"] by (simp add: ex_wide_def)

theorem wide_arg_c_str_widen_witness:
  "\<exists>a. wide_arg_ctor (\<lambda>_. 0) (''ab'' @ [CHR 0x00]) 2 = Some a \<and>
       utf8_widen (''ab'' @ [CHR 0x00]) 2 = Some (wide_c_string (wide_arg_c_str a)) \<and>
       (heap_buffer a = None \<longleftrightarrow> length (the (utf8_widen (''ab'' @ [CHR 0x00]) 2)) < wide_arg_stack_size)"
  by (rule wide_arg_c_str_widen) simp_all

lemma ex_narrow_H: "wide_char_to_multi_byte_utf8 [0x48] = ''H''"
  by code_simp

theorem utf8_narrow_unterminated_view_witness:
  "utf8_narrow [0x48, 0xE9] 1 = Some [CHR ''H'', CHR 0x00]"
  using utf8_narrow_unterminated_view [of "0xE9" "[0x48]" "[]"] ex_narrow_H by simp

section \<open>The separated-list loop\<close>

lemma ex_comma_values: "for_each_in_comma_separated_list ''a,b,'' = [''a'', ''b'']"
  by code_simp

theorem separated_list_loop_terminates_witness:
  "length ''a,b,'' \<le> npos \<and> separated_list_loop ''a,b,'' (CHR '','') 0 = Some [''a'', ''b'']"
  using separated_list_loop_terminates [of "''a,b,''" "CHR '',''"] ex_comma_values
  by (simp add: npos_def for_each_in_comma_separated_list_def)

section \<open>The manifest\<close>

theorem parse_sprite_info_refines_routing_witness:
  "(json_wf (manifest_json ex_manifest) \<and>
    parse_sprite_info ex4_env ''r'' [] [] = Inr (True, fold (route_set ''r'') ex_manifest ([], []))) \<and>
   fold (route_set ''r'') ex_manifest ([], []) =
     ([\<lparr>ss_name = ''SPR_A'', ss_sprites = [\<lparr>si_name = ''X'', si_file = ''r/x.png'', si_internal_id = -1\<rparr>]\<rparr>],
      [\<lparr>ss_name = ''SPR_SEL'', ss_sprites = [\<lparr>si_name = ''Y'', si_file = ''r/y.png'', si_internal_id = 7\<rparr>]\<rparr>])"
proof (rule conjI)
  show "json_wf (manifest_json ex_manifest) \<and>
    parse_sprite_info ex4_env ''r'' [] [] = Inr (True, fold (route_set ''r'') ex_manifest ([], []))"
    by (rule parse_sprite_info_refines_routing) (simp_all add: ex4_env_def)
  show "fold (route_set ''r'') ex_manifest ([], []) =
     ([\<lparr>ss_name = ''SPR_A'', ss_sprites = [\<lparr>si_name = ''X'', si_file = ''r/x.png'', si_internal_id = -1\<rparr>]\<rparr>],
      [\<lparr>ss_name = ''SPR_SEL'', ss_sprites = [\<lparr>si_name = ''Y'', si_file = ''r/y.png'', si_internal_id = 7\<rparr>]\<rparr>])"
    by (simp add: ex_manifest_def route_set_def cumulative_set_names_def strncmp_eq_def c_str_def
        sprite_info_of_json_def)
qed

theorem compile_sprite_data_without_sets_witness:
  "parse_sprite_info ex5_env ''r'' [] [] = Inr (True, [], []) \<and>
   compile_sprite_data ex5_env ''r'' ''out'' [] 85000 =
     Inr (True, [], 85000, Some \<lparr>cs_id = 85000, cs_db = [], cs_farcs = []\<rparr>)"
  by (rule compile_sprite_data_without_sets) (auto simp: ex5_env_def)

section \<open>Floating-point parsing\<close>

text \<open>
  \<open>TryParseF64\<close> and \<open>TryParseF32\<close> on known IEEE-754 values: \<open>0.1\<close> rounds to the
  nearest double \<open>0x3FB999999999999A\<close> and float \<open>0x3DCCCCCD\<close>; \<open>-inf\<close> is negative
  infinity; \<open>1e39\<close> is beyond the largest float, so the parse fails and \<open>out\<close> is kept;
  \<open>1e\<close> parses only its prefix \<open>1\<close>, so the parse fails but \<open>out\<close> already holds 1.0.
\<close>

lemma ex_f64_tenth: "try_parse_f64 ''0.1'' 0 = (True, 0x3FB999999999999A)"
  by code_simp

lemma ex_f32_tenth: "try_parse_f32 ''0.1'' 0 = (True, 0x3DCCCCCD)"
  by code_simp

lemma ex_f64_minus_inf: "try_parse_f64 ''-inf'' 0 = (True, 0xFFF0000000000000)"
  by code_simp

lemma ex_f32_overflow: "try_parse_f32 ''1e39'' 5 = (False, 5)"
  by code_simp

lemma ex_f32_prefix: "try_parse_f32 ''1e'' 5 = (False, 0x3F800000)"
  by code_simp


end
