(* ===== verification/Spec2Isabelle.thy ===== *)
theory Spec2Isabelle
  imports Examples
begin

text \<open>
  \<^bold>\<open>A verification development of DivaModCompiler's sprite codec and compiler.\<close>

  The program compiles mod sprite sets into the game's binary sprite container and
  registers them in a sprite database.  \<open>main\<close> enumerates the mod folders and calls the
  compiler of \<open>sprite.cpp\<close>, which packs each set, merges it with base-game data read
  through the container codec of \<open>comfy/file_format_spr_set.cpp\<close>, and writes it with the
  same codec; the codec runs on the offset-patching writer and the framed reader
  (\<open>IO::Writer\<close>, \<open>IO::Reader\<close>, not in the repository).  The string, number and timer
  helpers of \<open>comfy/\<close> are leaves.  Theories, leaf first:

  \<^item> \<open>Prelude\<close>: machine types (\<open>u8\<close>, \<open>u16\<close>, \<open>u32\<close>; signed fields are words read
    with \<open>sint\<close>), little-endian scalar images with their round trips, char/byte
    conversion, the buffer update \<open>overwrite\<close> and read \<open>bytes_at\<close>, \<open>Pad\<close> arithmetic.
  \<^item> \<open>IO_Writer\<close> (spec 4.1): the writer state (buffer, cursor, queue of scheduled bodies,
    queue of string slots); a scheduled body is the list of writer calls its lambda makes
    (\<open>wcmd\<close>); \<open>flush_scheduled_writes\<close> is the breadth-first drain, a \<open>function\<close>
    terminating by the weight of pending work; \<open>flush_scheduled_strings\<close> pools strings.
  \<^item> \<open>Writer_Frame\<close>, \<open>Writer_Layout\<close>: the writer invariant \<open>wwf\<close> (cursor in the
    buffer; pending 4-byte slots distinct, disjoint, below the cursor), the frame predicate
    \<open>settled\<close> (bytes already final), and \<open>laid_out\<close> (a body's scalars in place and each
    slot pointing at the body or string it scheduled), propagated backwards through a flush.
  \<^item> \<open>IO_Reader\<close> (spec 4.2) and \<open>StreamResult\<close> (\<open>file_format_common.h\<close>): cursor
    reads, the base-offset stack, \<open>ReadAtOffset\<close>, \<open>ReadStringOffset\<close>, \<open>LoadFile\<close>.
  \<^item> \<open>Tex_Codec\<close> (lines 27-178) and \<open>Spr_Codec\<close> (lines 180-324 of
    \<open>file_format_spr_set.cpp\<close>): \<open>Tex::Read\<close>, \<open>TexSet::Read/Write\<close>, \<open>SprSet::Read/Write\<close>
    with every guard and early return.
  \<^item> \<open>Codec_Layout\<close>, \<open>Codec_Size\<close>, \<open>Tex_Roundtrip\<close>, \<open>Spr_Roundtrip\<close>: the codec's
    writers as command lists over the writer, their invariant and layout, a size bound
    computed from the set alone, and the readers run on the laid-out bytes.
  \<^item> \<open>Core_String\<close> (\<open>core_string.h\<close> lines 36-177): fixed-buffer views, ASCII case
    mapping, comparison, trimming, and the separated-list and line iterators (callbacks as
    the list of values passed); the separated-list loop also as written, a
    \<open>partial_function (option)\<close>.
  \<^item> \<open>Core_Parse\<close> (\<open>core_string.cpp\<close> lines 97-115): \<open>printf\<close>'s \<open>%zu\<close>, and
    \<open>TryParseU32/I32/U64/I64\<close> over \<open>std::from_chars\<close> (from the C++ standard).
  \<^item> \<open>Core_Float\<close> (\<open>core_string.cpp\<close> lines 99-114): \<open>TryParseF32/F64\<close> over the
    floating-point \<open>std::from_chars\<close>: the general pattern, rounding to nearest (ties to
    even) computed exactly over integers, and the IEEE-754 bit pattern as \<open>32 word\<close> or
    \<open>64 word\<close>; lemmas show the result has a significand of at most \<open>p\<close> bits, an
    exponent in range and an error of at most half a unit in the last place.
  \<^item> \<open>Core_Time\<close> (\<open>core_type.cpp\<close> lines 34-68): the performance-counter data,
    \<open>GetNow\<close>, \<open>GetNowAbsolute\<close>, \<open>DeltaTime\<close>; the Win32 counter is an input, \<open>i64\<close>
    overflow is undefined (\<open>None\<close>).
  \<^item> \<open>Core_Utf8\<close> (\<open>core_string.cpp\<close> lines 27-95): \<open>UTF8::Narrow\<close>, \<open>Widen\<close>,
    \<open>WideArg\<close> and their Win32 wrappers, each with its two conversion calls; a view is
    its memory and size, since the wrappers read the element after it.  The Win32 UTF-8
    and UTF-16 conversions are modelled from their documentation.
  \<^item> \<open>Json\<close> (\<open>nlohmann::json\<close>, not in the repository, from its documentation): the
    value kinds, objects as key-sorted association lists (\<open>std::map\<close>) with the
    invariant \<open>json_wf\<close>, and the calls \<open>ParseSpriteInfo\<close> makes: \<open>operator[]\<close> on a
    non-const value, range-for iteration, \<open>get<std::string>\<close>, \<open>get<int>\<close> and
    \<open>value(key, default)\<close>, each exception a \<open>json_error\<close>.
  \<^item> \<open>Sprite_Types\<close> (\<open>sprite.h\<close>, the database types of \<open>diva_db.h\<close>): the records of
    the compiler, the environment \<open>env\<close> through which the model sees external
    collaborators (file system, \<open>json::parse\<close>, images, packer, database parser), the
    \<open>fault\<close>s that end a run (undefined behaviour, an uncaught JSON exception), and the
    library helpers (\<open>strncmp\<close>, \<open>GetLastIndex\<close>, \<open>FindSpriteSetByName\<close>).
  \<^item> \<open>Manifest\<close> (\<open>sprite.cpp\<close> lines 16-50): \<open>ParseSpriteInfo\<close> over the JSON calls,
    decoding each set and sprite and routing each set; the spec's manifest (a list of
    \<open>json_set\<close>) and its rendering \<open>manifest_json\<close> as the document the code reads.
  \<^item> \<open>Sprite_Db\<close> (\<open>sprite.cpp\<close> lines 52-250, \<open>main.cpp\<close>): eligibility, packing,
    registration with the id counter (a wrapping \<open>u32\<close>), the merge with base-game data,
    \<open>CompileSpriteData\<close>, the driver loops and \<open>main\<close> with its directory enumeration.
    The archive packer's inputs are recorded in the compile state.
  \<^item> \<open>Examples\<close>: concrete environments, sets and strings, runs, and the witnesses.

  Properties.  The codec round trip: \<open>SprSet::Read\<close> of what \<open>SprSet::Write\<close> produced
  gives back the set, with textures reset to what \<open>Tex::Read\<close> can recover (C1), and the
  same for \<open>TexSet\<close> alone (C2).  The compiler: the merge appends base sprites with shifted
  texture indices (C3) and renamed copies of the base textures (C4), with database entries
  pointing at the merged elements (C5); the compile loop registers exactly the eligible
  sets (C6) and allocates ids without repetition while the counter does not wrap (C7);
  \<open>GetSpriteIndex\<close> and the routing match by prefix (C8, C9); \<open>ParseSpriteInfo\<close> over the
  JSON calls refines the routing of the manifest's sets (C39), and a document without
  sets is accepted as an empty manifest, compiling nothing (C40); the texture rename yields
  \<open>name_NNN\<close> (C10) and faults without an underscore (C11); a successful merge found a
  base database entry covering every texture and sprite of the base file (C38).  The
  codec's parts: the
  texture-set pointer is a 16-aligned pointer to the texture set (C12); mipmap round trip
  (C13) and result classes (C14); \<open>Tex::Read\<close> keeps its base offset pushed on every
  error (C15); the header's level count is the one \<open>Tex::Read\<close> expects only for cube maps,
  single slices or no levels (C16); every texture body is laid out where its slot points
  (C17); every codec writer keeps the writer well formed (C18); \<open>SprSet::Read\<close> only ever
  reports \<open>Success\<close> or \<open>BadPointer\<close>, dropping the texture set's errors (C37).  Strings: case-insensitive
  matching is equality after lower-casing (C19); \<open>Trim\<close> leaves all-whitespace strings
  unchanged (C20); the iterators recover separator- and line-terminated lists (C21, C22)
  except that a last line keeps its terminator (C23); the separated-list loop as written terminates (C36).  Numbers:
  the parsers read back printed values (C25, C26), refine the decimal contract (C27),
  reject out-of-range text leaving \<open>out\<close> alone (C28), but overwrite \<open>out\<close> on a numeric
  prefix (C29); \<open>TryParseF32/F64\<close> return a value of the format within half a unit in the
  last place of the decimal text (C24).  Timer: relative and absolute readings measure the same time (C30); no
  overflow between non-negative readings (C31) or after start-up (C32).  UTF-8: \<open>Widen\<close>
  inverts \<open>Narrow\<close> on well-formed UTF-16 (C33); \<open>WideArg\<close>'s C string is \<open>Widen\<close>'s
  result (C34); \<open>Narrow\<close> of an unterminated view can append a null character (C35).

  Bounds and loops.  Every operation is executable and the witnesses evaluate it by
  \<open>simp\<close> or \<open>code_simp\<close>.  Loops are structural recursion on a count or a list, or a
  \<open>function\<close> with a measure (the flush: pending work; the iterators: remaining length);
  the separated-list loop as written is a partial function whose termination is C36 (for
  strings of at most \<open>npos\<close> characters).  No operation needs fuel.  The round trips assume
  the file is below 2 GiB, because offsets are signed 32-bit; \<open>Codec_Size\<close> bounds the
  file's length by a sum over the set, which is how the witnesses discharge it.  The
  UTF-8 wrappers' sizes must fit the \<open>int\<close> argument of the Win32 calls.

  Not modelled: \<open>json::parse\<close> of text, image decoding, the sprite packer, the
  database parser and the archive packer, libraries outside the repository that the code
  only calls (opaque functions of \<open>env\<close>; their outputs are recorded); directory creation
  (no effect on the model); the \<open>f64\<close> rounding of \<open>DeltaTime\<close> (its conversion and
  division are exact reals); NaN payloads of \<open>from_chars\<close>; the \<open>printf\<close> macros and
  \<open>BoolToCStr\<close> of \<open>core_string.h\<close>, which no modelled code calls.  The replacement
  policy of the Win32 decoder on ill-formed UTF-8 is a documented choice no property
  depends on.
\<close>

end
